theory Spec2Isabelle
  imports Complex_Main "HOL-Library.Word"
begin

unbundle bit_operations_syntax

section \<open>Chunked upload hook: shared data\<close>

text \<open>
  The hook \<^verbatim>\<open>useChunkUpload\<close> is a closure over its injected dependencies (toast, chain
  store, user store, Buffer, MetaIDJs).  A dependency that is \<^verbatim>\<open>null\<close> is \<open>None\<close> here.
  Numbers that count satoshis, bytes and milliseconds are integers in every run of the
  code and are \<open>int\<close> or \<open>nat\<close>: below \<open>2\<^sup>5\<^sup>3\<close> the sums and products of such doubles are
  exact.  The fee rate is a JavaScript number that need not be an integer: it is the
  \<open>real\<close> that the double denotes, and its product with a size is rounded as IEEE 754
  prescribes (\<open>js_times\<close> below).
\<close>

record user_info =
  metaid :: string
  address :: string

record file_info =
  file_name :: string
  file_size :: nat

text \<open>
  A thrown JavaScript \<^verbatim>\<open>Error\<close>.  Every throw site of the hook has its own constructor;
  \<open>Thrown m\<close> is an error with message \<open>m\<close> raised by a collaborator (wallet, \<^verbatim>\<open>fetch\<close>,
  the transaction library, the runtime), and \<open>Wrapped p e\<close> is the
  \<^verbatim>\<open>new Error(`p${error.message}`)\<close> of the \<^verbatim>\<open>catch\<close> blocks.
\<close>

datatype error =
    Thrown string
  | DependenciesUnavailable
  | UserStoreUnavailable
  | ChainStoreUnavailable
  | StoresUnavailable
  | MvcUnavailable
  | LibraryUnavailable
  | LibraryOrBufferUnavailable
  | PayUnsupported
  | NoUtxos
  | NoLargeUtxos
  | InsufficientBalance int int
  | HttpFailure string nat
  | ApiFailure string
  | UploadFailed string
  | Wrapped string error

subsection \<open>Decimal text of numbers (template literals)\<close>

fun digit_char :: "nat \<Rightarrow> char" where
  "digit_char n = char_of (48 + n)"

fun show_nat :: "nat \<Rightarrow> string" where
  "show_nat n = (if n < 10 then [digit_char n] else show_nat (n div 10) @ [digit_char (n mod 10)])"

declare show_nat.simps [simp del]

definition show_int :: "int \<Rightarrow> string" where
  "show_int i = (if i < 0 then CHR ''-'' # show_nat (nat (- i)) else show_nat (nat i))"

fun error_message :: "error \<Rightarrow> string" where
  "error_message (Thrown m) = m"
| "error_message DependenciesUnavailable =
     ''Required dependencies (toast, chainStore, userStore) are not available''"
| "error_message UserStoreUnavailable = ''UserStore not available''"
| "error_message ChainStoreUnavailable = ''ChainStore not available''"
| "error_message StoresUnavailable = ''Required stores not available''"
| "error_message MvcUnavailable = ''MVC library not available''"
| "error_message LibraryUnavailable = ''MetaIDJs library (mvc/TxComposer) not available''"
| "error_message LibraryOrBufferUnavailable = ''MetaIDJs library (mvc) or Buffer not available''"
| "error_message PayUnsupported = ''Wallet does not support pay method''"
| "error_message NoUtxos = ''No available UTXOs in wallet''"
| "error_message NoLargeUtxos = ''No UTXOs larger than 600 satoshis available in wallet''"
| "error_message (InsufficientBalance need have) =
     ''Insufficient balance! Need '' @ show_int need @ '' satoshis, but only have '' @
     show_int have @ '' satoshis''"
| "error_message (HttpFailure what status) = what @ ''HTTP '' @ show_nat status"
| "error_message (ApiFailure m) = m"
| "error_message (UploadFailed m) = m"
| "error_message (Wrapped p e) = p @ error_message e"

section \<open>Status classification (\<^verbatim>\<open>getStatusClass\<close>)\<close>

text \<open>
  \<^verbatim>\<open>String.prototype.toLowerCase\<close> on byte strings: the letters \<open>A\<close> to \<open>Z\<close> are lowered and
  every other byte is kept.  No character outside ASCII lowercases to a letter of
  \<open>success\<close>, \<open>failed\<close> or \<open>processing\<close>, so the comparisons below are not affected by them.
\<close>

definition toLowerCase_char :: "char \<Rightarrow> char" where
  "toLowerCase_char c =
     (let n = (of_char c :: nat) in if 65 \<le> n \<and> n \<le> 90 then char_of (n + 32) else c)"

definition toLowerCase :: "string \<Rightarrow> string" where
  "toLowerCase s = map toLowerCase_char s"

text \<open>
  \<^verbatim>\<open>function getStatusClass(status = '')\<close>: \<open>None\<close> is \<^verbatim>\<open>undefined\<close> or \<^verbatim>\<open>null\<close>, which
  \<^verbatim>\<open>(status || '')\<close> turns into the empty string, as it does the empty string itself.
\<close>

definition getStatusClass :: "string option \<Rightarrow> string" where
  "getStatusClass status =
     (let normalized = toLowerCase (case status of None \<Rightarrow> [] | Some s \<Rightarrow> s) in
      if normalized = ''success'' then ''success''
      else if normalized = ''failed'' then ''failed''
      else if normalized = ''processing'' then ''processing''
      else ''pending'')"

lemma toLowerCase_char_idem: "toLowerCase_char (toLowerCase_char c) = toLowerCase_char c"
  by (auto simp: toLowerCase_char_def Let_def)

lemma toLowerCase_idem: "toLowerCase (toLowerCase s) = toLowerCase s"
  by (simp add: toLowerCase_def toLowerCase_char_idem)

lemma of_char_toLowerCase_char:
  "(of_char (toLowerCase_char c) :: nat) =
     (if 65 \<le> (of_char c :: nat) \<and> (of_char c :: nat) \<le> 90 then of_char c + 32 else of_char c)"
  by (simp add: toLowerCase_char_def Let_def)

lemma toLowerCase_alphabet:
  "toLowerCase ''ABCDEFGHIJKLMNOPQRSTUVWXYZ'' = ''abcdefghijklmnopqrstuvwxyz''"
  "toLowerCase ''abcdefghijklmnopqrstuvwxyz0123456789_- '' = ''abcdefghijklmnopqrstuvwxyz0123456789_- ''"
  by code_simp+

lemma getStatusClass_mixed_case:
  "getStatusClass (Some ''SUCCESS'') = ''success''"
  "getStatusClass (Some ''Failed'') = ''failed''"
  "getStatusClass (Some ''pROCESSing'') = ''processing''"
  "getStatusClass (Some ''processing'') = ''processing''"
  "getStatusClass (Some ''Done'') = ''pending''"
  "getStatusClass (Some ''success '') = ''pending''"
  by code_simp+

text \<open>
  Claim C8.  \<^verbatim>\<open>getStatusClass\<close> is total: whatever the status (absent, empty or any
  string), the result is one of the four class names; the result depends on the
  lower-cased input only; it is the lower-cased input itself when that is \<open>success\<close>,
  \<open>failed\<close> or \<open>processing\<close>, and \<open>pending\<close> for every other string.  Lower-casing keeps
  the length, adds 32 to the code of each letter \<open>A\<close> to \<open>Z\<close> and keeps every other
  character, so \<open>SUCCESS\<close>, \<open>Failed\<close> and \<open>pROCESSing\<close> are classified as \<open>success\<close>,
  \<open>failed\<close> and \<open>processing\<close>, while \<open>Done\<close> and \<open>success\<close> followed by a blank are
  \<open>pending\<close>.
\<close>

theorem getStatusClass_total:
  fixes status :: "string option"
  defines "normalized \<equiv> toLowerCase (case status of None \<Rightarrow> [] | Some s \<Rightarrow> s)"
  shows "getStatusClass status \<in> {''success'', ''failed'', ''processing'', ''pending''}
    \<and> getStatusClass status = getStatusClass (Some normalized)
    \<and> getStatusClass status =
        (if normalized \<in> {''success'', ''failed'', ''processing''} then normalized else ''pending'')
    \<and> getStatusClass None = ''pending'' \<and> getStatusClass (Some []) = ''pending''
    \<and> length normalized = length (case status of None \<Rightarrow> [] | Some s \<Rightarrow> s)
    \<and> (\<forall>i c. i < length normalized \<and> c = (case status of None \<Rightarrow> [] | Some s \<Rightarrow> s) ! i \<longrightarrow>
          (of_char (normalized ! i) :: nat) =
            (if 65 \<le> (of_char c :: nat) \<and> (of_char c :: nat) \<le> 90 then of_char c + 32 else of_char c))
    \<and> toLowerCase ''ABCDEFGHIJKLMNOPQRSTUVWXYZ'' = ''abcdefghijklmnopqrstuvwxyz''
    \<and> toLowerCase ''abcdefghijklmnopqrstuvwxyz0123456789_- '' = ''abcdefghijklmnopqrstuvwxyz0123456789_- ''
    \<and> getStatusClass (Some ''SUCCESS'') = ''success''
    \<and> getStatusClass (Some ''Failed'') = ''failed''
    \<and> getStatusClass (Some ''pROCESSing'') = ''processing''
    \<and> getStatusClass (Some ''Done'') = ''pending''
    \<and> getStatusClass (Some ''success '') = ''pending''"
proof -
  have a: "getStatusClass status \<in> {''success'', ''failed'', ''processing'', ''pending''}
    \<and> getStatusClass status = getStatusClass (Some normalized)
    \<and> getStatusClass status =
        (if normalized \<in> {''success'', ''failed'', ''processing''} then normalized else ''pending'')
    \<and> getStatusClass None = ''pending'' \<and> getStatusClass (Some []) = ''pending''"
    unfolding normalized_def
    by (simp add: getStatusClass_def Let_def toLowerCase_idem) (simp add: toLowerCase_def)
  have b: "length normalized = length (case status of None \<Rightarrow> [] | Some s \<Rightarrow> s)"
    by (simp add: normalized_def toLowerCase_def)
  have c: "\<forall>i c. i < length normalized \<and> c = (case status of None \<Rightarrow> [] | Some s \<Rightarrow> s) ! i \<longrightarrow>
          (of_char (normalized ! i) :: nat) =
            (if 65 \<le> (of_char c :: nat) \<and> (of_char c :: nat) \<le> 90 then of_char c + 32 else of_char c)"
    by (simp add: normalized_def toLowerCase_def of_char_toLowerCase_char)
  show ?thesis
    using a b c toLowerCase_alphabet getStatusClass_mixed_case by blast
qed

theorem getStatusClass_total_witness:
  "getStatusClass (Some ''PROCESSING'') = ''processing''
   \<and> getStatusClass (Some ''PROCESSING'') \<in> {''success'', ''failed'', ''processing'', ''pending''}"
proof -
  have l: "toLowerCase ''PROCESSING'' = ''processing''" by code_simp
  show ?thesis
    using getStatusClass_total [of "Some ''PROCESSING''"]
    by (auto simp: l)
qed

section \<open>Persisted upload sessions\<close>

text \<open>
  The record \<^verbatim>\<open>saveUploadSession\<close> writes.  A value of \<^verbatim>\<open>localStorage\<close> is a string; what
  \<^verbatim>\<open>getUploadSession\<close> does with it depends only on whether it is empty (falsy), whether
  \<^verbatim>\<open>JSON.parse\<close> or the read of its timestamp throws (\<open>Unparsable\<close>), or whether it is the
  JSON text of a session.
\<close>

record upload_session =
  uploadId :: string
  key :: string
  fileName :: string
  fileSize :: nat
  metaId :: string
  session_address :: string
  timestamp :: int

datatype stored_value = EmptyString | Unparsable | SessionJson upload_session

type_synonym local_storage = "string \<rightharpoonup> stored_value"

definition getUploadSessionKey :: "file_info \<Rightarrow> string \<Rightarrow> string \<Rightarrow> string" where
  "getUploadSessionKey file metaId' address' =
     ''multipart_upload_'' @ file_name file @ ''_'' @ show_nat (file_size file) @ ''_'' @
     metaId' @ ''_'' @ address'"

definition maxAge :: int where
  "maxAge = 7 * 24 * 60 * 60 * 1000"

text \<open>\<open>now\<close> is the value of \<^verbatim>\<open>Date.now()\<close>; the result is the session and the storage after the call.\<close>

definition getUploadSession ::
  "int \<Rightarrow> file_info \<Rightarrow> string \<Rightarrow> string \<Rightarrow> local_storage \<Rightarrow> upload_session option \<times> local_storage"
where
  "getUploadSession now file metaId' address' storage =
     (let sessionKey = getUploadSessionKey file metaId' address' in
      case storage sessionKey of
        None \<Rightarrow> (None, storage)
      | Some EmptyString \<Rightarrow> (None, storage)
      | Some Unparsable \<Rightarrow> (None, storage(sessionKey := None))
      | Some (SessionJson session) \<Rightarrow>
          if now - timestamp session > maxAge then (None, storage(sessionKey := None))
          else (Some session, storage))"

definition saveUploadSession ::
  "int \<Rightarrow> file_info \<Rightarrow> string \<Rightarrow> string \<Rightarrow> string \<Rightarrow> string \<Rightarrow> local_storage \<Rightarrow> local_storage"
where
  "saveUploadSession now file metaId' address' uploadId' key' storage =
     storage(getUploadSessionKey file metaId' address' \<mapsto>
       SessionJson \<lparr>uploadId = uploadId', key = key', fileName = file_name file,
         fileSize = file_size file, metaId = metaId', session_address = address',
         timestamp = now\<rparr>)"

definition clearUploadSession ::
  "file_info \<Rightarrow> string \<Rightarrow> string \<Rightarrow> local_storage \<Rightarrow> local_storage"
where
  "clearUploadSession file metaId' address' storage =
     storage(getUploadSessionKey file metaId' address' := None)"

definition demo_file :: file_info where
  "demo_file = \<lparr>file_name = ''a.bin'', file_size = 3000000\<rparr>"

definition demo_session :: "int \<Rightarrow> upload_session" where
  "demo_session t = \<lparr>uploadId = ''u1'', key = ''k1'', fileName = ''a.bin'', fileSize = 3000000,
     metaId = ''m'', session_address = ''addr'', timestamp = t\<rparr>"

definition demo_storage :: "int \<Rightarrow> local_storage" where
  "demo_storage t = [getUploadSessionKey demo_file ''m'' ''addr'' \<mapsto> SessionJson (demo_session t)]"

text \<open>
  Claim C7.  A stored session whose timestamp lies more than 7 days (604800000 ms) before
  the current time is not returned: the lookup yields \<^verbatim>\<open>null\<close> and removes the record
  from local storage.  A session at most 7 days old is returned as stored, and the
  storage is left as it was.
\<close>

theorem getUploadSession_expiry:
  assumes "storage (getUploadSessionKey file m a) = Some (SessionJson session)"
  shows "(now - timestamp session > 7 * 24 * 60 * 60 * 1000 \<longrightarrow>
            getUploadSession now file m a storage =
              (None, storage(getUploadSessionKey file m a := None))
            \<and> snd (getUploadSession now file m a storage) (getUploadSessionKey file m a) = None)
       \<and> (now - timestamp session \<le> 7 * 24 * 60 * 60 * 1000 \<longrightarrow>
            getUploadSession now file m a storage = (Some session, storage))"
  using assms by (simp add: getUploadSession_def Let_def maxAge_def)

theorem getUploadSession_expiry_witness:
  "getUploadSession 604800001 demo_file ''m'' ''addr'' (demo_storage 0) = (None, Map.empty)
   \<and> getUploadSession 604800000 demo_file ''m'' ''addr'' (demo_storage 0) =
       (Some (demo_session 0), demo_storage 0)"
  using getUploadSession_expiry [of "demo_storage 0" demo_file "''m''" "''addr''" "demo_session 0" 604800001]
    getUploadSession_expiry [of "demo_storage 0" demo_file "''m''" "''addr''" "demo_session 0" 604800000]
  by (simp add: demo_storage_def demo_session_def)

section \<open>UTXO selection (\<^verbatim>\<open>getWalletUTXOs\<close>)\<close>

text \<open>
  An entry of the list the wallet's \<^verbatim>\<open>getUtxos()\<close> resolves to, the selected entry built
  from it, and the selection returned.
\<close>

record wallet_utxo =
  txid :: string
  outIndex :: int
  utxo_address :: string
  utxo_value :: int

record utxo =
  txId :: string
  outputIndex :: int
  script :: string
  satoshis :: int

record utxo_data =
  utxos :: "utxo list"
  totalAmount :: int

text \<open>
  The \<^verbatim>\<open>for (const utxo of sortedUtxos)\<close> loop: each entry is pushed and added before the
  test, and the loop breaks as soon as the running total reaches \<open>requiredAmount + 1\<close>.
  \<open>buildPublicKeyHashOut\<close> is \<^verbatim>\<open>mvc.Script.buildPublicKeyHashOut(address).toHex()\<close>, which
  throws on an address it cannot decode.
\<close>

fun select_loop ::
  "(string \<Rightarrow> error + string) \<Rightarrow> int \<Rightarrow> wallet_utxo list \<Rightarrow> utxo list \<Rightarrow> int \<Rightarrow> error + (utxo list \<times> int)"
where
  "select_loop buildPublicKeyHashOut requiredAmount [] selectedUtxos totalAmt = Inr (selectedUtxos, totalAmt)"
| "select_loop buildPublicKeyHashOut requiredAmount (u # rest) selectedUtxos totalAmt =
     (case buildPublicKeyHashOut (utxo_address u) of
        Inl e \<Rightarrow> Inl e
      | Inr scriptHex \<Rightarrow>
          let selectedUtxos' = selectedUtxos @
                [\<lparr>txId = txid u, outputIndex = outIndex u, script = scriptHex, satoshis = utxo_value u\<rparr>];
              totalAmt' = totalAmt + utxo_value u
          in if totalAmt' \<ge> requiredAmount + 1 then Inr (selectedUtxos', totalAmt')
             else select_loop buildPublicKeyHashOut requiredAmount rest selectedUtxos' totalAmt')"

text \<open>
  \<open>mvc\<close> is \<open>None\<close> when the library is not available; \<open>getUtxos\<close> is what awaiting the
  wallet's \<^verbatim>\<open>getUtxos()\<close> gives: a thrown error, \<^verbatim>\<open>null\<close>/\<^verbatim>\<open>undefined\<close>, or a list.
  \<^verbatim>\<open>Array.prototype.sort\<close> is stable, as is \<open>sort_key\<close>; descending by value is ascending
  by negated value.
\<close>

definition getWalletUTXOs ::
  "(string \<Rightarrow> error + string) option \<Rightarrow> error + wallet_utxo list option \<Rightarrow> int \<Rightarrow> error + utxo_data"
where
  "getWalletUTXOs mvc getUtxos requiredAmount =
     (case
        (case mvc of
           None \<Rightarrow> Inl MvcUnavailable
         | Some buildPublicKeyHashOut \<Rightarrow>
            (case getUtxos of
               Inl e \<Rightarrow> Inl e
             | Inr None \<Rightarrow> Inl NoUtxos
             | Inr (Some us) \<Rightarrow>
                 if us = [] then Inl NoUtxos
                 else
                   let filler = 600;
                       fillerUtxos = filter (\<lambda>u. utxo_value u > filler) us
                   in if fillerUtxos = [] then Inl NoLargeUtxos
                      else
                        let sortedUtxos = sort_key (\<lambda>u. - utxo_value u) fillerUtxos in
                        (case select_loop buildPublicKeyHashOut requiredAmount sortedUtxos [] 0 of
                           Inl e \<Rightarrow> Inl e
                         | Inr (selectedUtxos, totalAmt) \<Rightarrow>
                             if totalAmt < requiredAmount + 1
                             then Inl (InsufficientBalance (requiredAmount + 1) totalAmt)
                             else Inr \<lparr>utxos = selectedUtxos, totalAmount = totalAmt\<rparr>)))
      of Inl e \<Rightarrow> Inl (Wrapped ''Failed to get UTXOs: '' e)
       | Inr r \<Rightarrow> Inr r)"

definition selected_of :: "(string \<Rightarrow> string) \<Rightarrow> wallet_utxo \<Rightarrow> utxo" where
  "selected_of scr u =
     \<lparr>txId = txid u, outputIndex = outIndex u, script = scr (utxo_address u), satoshis = utxo_value u\<rparr>"

definition values_sum :: "wallet_utxo list \<Rightarrow> int" where
  "values_sum us = sum_list (map utxo_value us)"

lemma values_sum_simps [simp]: "values_sum [] = 0" "values_sum (u # us) = utxo_value u + values_sum us"
  by (simp_all add: values_sum_def)

lemma select_loop_prefix:
  assumes "\<forall>u\<in>set us. bld (utxo_address u) = Inr (scr (utxo_address u))"
  shows "\<exists>n\<le>length us.
           select_loop bld req us sel tot =
             Inr (sel @ map (selected_of scr) (take n us), tot + values_sum (take n us))
         \<and> (us \<noteq> [] \<longrightarrow> 1 \<le> n)
         \<and> (n < length us \<longrightarrow> req + 1 \<le> tot + values_sum (take n us))
         \<and> (\<forall>m. 1 \<le> m \<and> m < n \<longrightarrow> tot + values_sum (take m us) < req + 1)"
  using assms
proof (induction us arbitrary: sel tot)
  case Nil
  then show ?case by simp
next
  case (Cons u rest)
  have b: "bld (utxo_address u) = Inr (scr (utxo_address u))" using Cons.prems by simp
  show ?case
  proof (cases "req + 1 \<le> tot + utxo_value u")
    case True
    then have "select_loop bld req (u # rest) sel tot =
        Inr (sel @ map (selected_of scr) (take 1 (u # rest)), tot + values_sum (take 1 (u # rest)))"
      by (simp add: b selected_of_def)
    moreover have "\<forall>m. 1 \<le> m \<and> m < (1::nat) \<longrightarrow> tot + values_sum (take m (u # rest)) < req + 1"
      by simp
    ultimately show ?thesis using True
      by (intro exI[of _ 1]) simp
  next
    case False
    from Cons.prems have "\<forall>u\<in>set rest. bld (utxo_address u) = Inr (scr (utxo_address u))" by simp
    from Cons.IH[OF this, of "sel @ [selected_of scr u]" "tot + utxo_value u"]
    obtain n where n: "n \<le> length rest"
      and r: "select_loop bld req rest (sel @ [selected_of scr u]) (tot + utxo_value u) =
               Inr ((sel @ [selected_of scr u]) @ map (selected_of scr) (take n rest),
                    tot + utxo_value u + values_sum (take n rest))"
      and lt: "n < length rest \<longrightarrow> req + 1 \<le> tot + utxo_value u + values_sum (take n rest)"
      and mn: "\<forall>m. 1 \<le> m \<and> m < n \<longrightarrow> tot + utxo_value u + values_sum (take m rest) < req + 1"
      by blast
    have eq: "select_loop bld req (u # rest) sel tot =
        Inr (sel @ map (selected_of scr) (take (Suc n) (u # rest)),
             tot + values_sum (take (Suc n) (u # rest)))"
      using False r by (simp add: b selected_of_def add.assoc)
    have mn': "\<forall>m. 1 \<le> m \<and> m < Suc n \<longrightarrow> tot + values_sum (take m (u # rest)) < req + 1"
    proof (intro allI impI)
      fix m assume m: "1 \<le> m \<and> m < Suc n"
      then obtain m' where m': "m = Suc m'" by (cases m) auto
      show "tot + values_sum (take m (u # rest)) < req + 1"
      proof (cases m')
        case 0
        then show ?thesis using False m' by simp
      next
        case (Suc k)
        then have "1 \<le> m' \<and> m' < n" using m m' by simp
        with mn have "tot + utxo_value u + values_sum (take m' rest) < req + 1" by blast
        then show ?thesis using m' by (simp add: add.assoc)
      qed
    qed
    show ?thesis
      using n eq lt mn' by (intro exI[of _ "Suc n"]) (simp add: add.assoc)
  qed
qed


lemma sum_list_insort_key: "sum_list (map f (insort_key g x xs)) = (f x :: int) + sum_list (map f xs)"
  by (induction xs) auto

lemma values_sum_sort_key: "values_sum (sort_key g us) = values_sum us"
  by (induction us) (auto simp: values_sum_def sum_list_insort_key)

lemma values_sum_take_le:
  "\<forall>u\<in>set us. 0 \<le> utxo_value u \<Longrightarrow> values_sum (take n us) \<le> values_sum us"
proof (induction us arbitrary: n)
  case Nil
  then show ?case by simp
next
  case (Cons u us)
  have "0 \<le> values_sum us"
    using Cons.prems by (auto simp: values_sum_def intro!: sum_list_nonneg)
  with Cons show ?case by (cases n) (auto simp: add_nonneg_nonneg)
qed

text \<open>
  Claim C4 (amended).  Let the library be available, let the wallet call return (a list
  \<open>us\<close>, or \<^verbatim>\<open>null\<close>, which counts as the empty list), and let the library build a script
  for the address of every UTXO above 600.  The candidates are exactly the entries with
  value above 600, sorted descending by value.  A missing or empty list fails with the
  no-UTXOs error and a list with no entry above 600 with the no-large-UTXOs error,
  whatever the required amount.  The insufficient-balance error is raised exactly when
  some entry exceeds 600 and the sum of the candidates is below \<open>requiredAmount + 1\<close>.
  Otherwise the selection is the shortest non-empty prefix of the sorted candidates
  whose sum reaches \<open>requiredAmount + 1\<close>.  Every returned selection has
  \<open>totalAmount \<ge> requiredAmount + 1\<close>, \<open>totalAmount\<close> equal to the sum of its members, and
  every member above 600.
\<close>

theorem getWalletUTXOs_selection:
  fixes wallet :: "wallet_utxo list option" and requiredAmount :: int
    and bld :: "string \<Rightarrow> error + string" and scr :: "string \<Rightarrow> string"
  defines "us \<equiv> (case wallet of None \<Rightarrow> [] | Some l \<Rightarrow> l)"
  defines "fs \<equiv> filter (\<lambda>u. utxo_value u > 600) us"
  defines "srt \<equiv> sort_key (\<lambda>u. - utxo_value u) fs"
  defines "res \<equiv> getWalletUTXOs (Some bld) (Inr wallet) requiredAmount"
  assumes bld: "\<forall>u\<in>set us. utxo_value u > 600 \<longrightarrow> bld (utxo_address u) = Inr (scr (utxo_address u))"
  shows "set srt = {u \<in> set us. utxo_value u > 600} \<and> length srt = length fs
       \<and> sorted (map (\<lambda>u. - utxo_value u) srt)
       \<and> (us = [] \<longrightarrow> res = Inl (Wrapped ''Failed to get UTXOs: '' NoUtxos))
       \<and> (us \<noteq> [] \<and> fs = [] \<longrightarrow> res = Inl (Wrapped ''Failed to get UTXOs: '' NoLargeUtxos))
       \<and> ((\<exists>need have. res = Inl (Wrapped ''Failed to get UTXOs: '' (InsufficientBalance need have)))
            \<longleftrightarrow> fs \<noteq> [] \<and> values_sum fs < requiredAmount + 1)
       \<and> (fs \<noteq> [] \<and> values_sum fs < requiredAmount + 1 \<longrightarrow>
            res = Inl (Wrapped ''Failed to get UTXOs: ''
                    (InsufficientBalance (requiredAmount + 1) (values_sum fs))))
       \<and> (fs \<noteq> [] \<and> requiredAmount + 1 \<le> values_sum fs \<longrightarrow>
            (\<exists>n. 1 \<le> n \<and> n \<le> length srt
              \<and> res = Inr \<lparr>utxos = map (selected_of scr) (take n srt),
                            totalAmount = values_sum (take n srt)\<rparr>
              \<and> requiredAmount + 1 \<le> values_sum (take n srt)
              \<and> (\<forall>m. 1 \<le> m \<and> m < n \<longrightarrow> values_sum (take m srt) < requiredAmount + 1)))
       \<and> (\<forall>r. res = Inr r \<longrightarrow>
            requiredAmount + 1 \<le> totalAmount r
            \<and> totalAmount r = sum_list (map satoshis (utxos r))
            \<and> (\<forall>x\<in>set (utxos r). satoshis x > 600))"
proof -
  have set_srt: "set srt = {u \<in> set us. utxo_value u > 600}"
    by (auto simp: srt_def fs_def)
  have len: "length srt = length fs" by (simp add: srt_def)
  have sorted: "sorted (map (\<lambda>u. - utxo_value u) srt)"
    unfolding srt_def by (rule sorted_sort_key)
  have sum_srt: "values_sum srt = values_sum fs"
    by (simp add: srt_def values_sum_sort_key)
  have pos: "\<forall>u\<in>set srt. 0 \<le> utxo_value u" using set_srt by auto
  have bld': "\<forall>u\<in>set srt. bld (utxo_address u) = Inr (scr (utxo_address u))"
    using bld set_srt by auto
  have res_some: "res = getWalletUTXOs (Some bld) (Inr (Some us)) requiredAmount" if "us \<noteq> []"
    using that by (cases wallet) (simp_all add: us_def res_def)
  have empty: "us = [] \<longrightarrow> res = Inl (Wrapped ''Failed to get UTXOs: '' NoUtxos)"
    by (cases wallet) (simp_all add: us_def res_def getWalletUTXOs_def)
  have dust: "us \<noteq> [] \<and> fs = [] \<longrightarrow> res = Inl (Wrapped ''Failed to get UTXOs: '' NoLargeUtxos)"
    using res_some by (simp add: getWalletUTXOs_def fs_def)
  from select_loop_prefix[OF bld', of requiredAmount "[]" 0]
  obtain n where n: "n \<le> length srt"
    and loop: "select_loop bld requiredAmount srt [] 0 =
                 Inr (map (selected_of scr) (take n srt), values_sum (take n srt))"
    and n1: "srt \<noteq> [] \<longrightarrow> 1 \<le> n"
    and reach: "n < length srt \<longrightarrow> requiredAmount + 1 \<le> values_sum (take n srt)"
    and least: "\<forall>m. 1 \<le> m \<and> m < n \<longrightarrow> values_sum (take m srt) < requiredAmount + 1"
    by auto
  have res_eq: "fs \<noteq> [] \<Longrightarrow> res =
      (if values_sum (take n srt) < requiredAmount + 1
       then Inl (Wrapped ''Failed to get UTXOs: ''
              (InsufficientBalance (requiredAmount + 1) (values_sum (take n srt))))
       else Inr \<lparr>utxos = map (selected_of scr) (take n srt), totalAmount = values_sum (take n srt)\<rparr>)"
  proof -
    assume "fs \<noteq> []"
    then have "us \<noteq> []" by (auto simp: fs_def)
    with \<open>fs \<noteq> []\<close> show ?thesis
      using loop unfolding res_some[OF \<open>us \<noteq> []\<close>] getWalletUTXOs_def srt_def fs_def Let_def
      by auto
  qed
  have short: "values_sum fs < requiredAmount + 1 \<Longrightarrow> take n srt = srt"
  proof -
    assume a: "values_sum fs < requiredAmount + 1"
    have "values_sum (take n srt) \<le> values_sum fs"
      using values_sum_take_le[OF pos, of n] sum_srt by simp
    with a reach have "\<not> n < length srt" by auto
    then show ?thesis by simp
  qed
  have enough: "requiredAmount + 1 \<le> values_sum fs \<Longrightarrow> requiredAmount + 1 \<le> values_sum (take n srt)"
  proof -
    assume a: "requiredAmount + 1 \<le> values_sum fs"
    show ?thesis
    proof (cases "n < length srt")
      case True
      then show ?thesis using reach by simp
    next
      case False
      then have "take n srt = srt" by simp
      then show ?thesis using a sum_srt by simp
    qed
  qed
  have insufficient: "fs \<noteq> [] \<and> values_sum fs < requiredAmount + 1 \<longrightarrow>
      res = Inl (Wrapped ''Failed to get UTXOs: ''
              (InsufficientBalance (requiredAmount + 1) (values_sum fs)))"
    using res_eq short sum_srt by auto
  have selected: "fs \<noteq> [] \<and> requiredAmount + 1 \<le> values_sum fs \<longrightarrow>
      (\<exists>n. 1 \<le> n \<and> n \<le> length srt
        \<and> res = Inr \<lparr>utxos = map (selected_of scr) (take n srt),
                      totalAmount = values_sum (take n srt)\<rparr>
        \<and> requiredAmount + 1 \<le> values_sum (take n srt)
        \<and> (\<forall>m. 1 \<le> m \<and> m < n \<longrightarrow> values_sum (take m srt) < requiredAmount + 1))"
  proof (intro impI)
    assume a: "fs \<noteq> [] \<and> requiredAmount + 1 \<le> values_sum fs"
    then have "srt \<noteq> []" using len by auto
    with n1 have "1 \<le> n" by simp
    moreover have "requiredAmount + 1 \<le> values_sum (take n srt)" using enough a by simp
    moreover from this have "res = Inr \<lparr>utxos = map (selected_of scr) (take n srt),
                      totalAmount = values_sum (take n srt)\<rparr>"
      using res_eq a by simp
    ultimately show "\<exists>n. 1 \<le> n \<and> n \<le> length srt
        \<and> res = Inr \<lparr>utxos = map (selected_of scr) (take n srt),
                      totalAmount = values_sum (take n srt)\<rparr>
        \<and> requiredAmount + 1 \<le> values_sum (take n srt)
        \<and> (\<forall>m. 1 \<le> m \<and> m < n \<longrightarrow> values_sum (take m srt) < requiredAmount + 1)"
      using n least by blast
  qed
  have iff: "(\<exists>need have. res = Inl (Wrapped ''Failed to get UTXOs: '' (InsufficientBalance need have)))
            \<longleftrightarrow> fs \<noteq> [] \<and> values_sum fs < requiredAmount + 1"
  proof (cases "fs = []")
    case True
    then show ?thesis using empty dust by (cases "us = []") auto
  next
    case False
    show ?thesis
    proof (cases "values_sum fs < requiredAmount + 1")
      case True
      then show ?thesis using insufficient False by auto
    next
      case False
      then have "requiredAmount + 1 \<le> values_sum (take n srt)" using enough by simp
      then show ?thesis using res_eq \<open>fs \<noteq> []\<close> False by auto
    qed
  qed
  have inv: "\<forall>r. res = Inr r \<longrightarrow>
            requiredAmount + 1 \<le> totalAmount r
            \<and> totalAmount r = sum_list (map satoshis (utxos r))
            \<and> (\<forall>x\<in>set (utxos r). satoshis x > 600)"
  proof (intro allI impI)
    fix r assume r: "res = Inr r"
    have "fs \<noteq> []" using r empty dust by (cases "us = []") auto
    with res_eq r have le: "\<not> values_sum (take n srt) < requiredAmount + 1"
      and req: "r = \<lparr>utxos = map (selected_of scr) (take n srt), totalAmount = values_sum (take n srt)\<rparr>"
      by (auto split: if_splits)
    have "\<forall>x\<in>set (take n srt). utxo_value x > 600"
      using set_srt by (auto dest: in_set_takeD)
    then show "requiredAmount + 1 \<le> totalAmount r
            \<and> totalAmount r = sum_list (map satoshis (utxos r))
            \<and> (\<forall>x\<in>set (utxos r). satoshis x > 600)"
      using le req by (auto simp: values_sum_def selected_of_def o_def)
  qed
  show ?thesis
    using set_srt len sorted empty dust iff insufficient selected inv by blast
qed


definition demo_wallet_utxo :: "string \<Rightarrow> int \<Rightarrow> wallet_utxo" where
  "demo_wallet_utxo t v = \<lparr>txid = t, outIndex = 0, utxo_address = ''addr'', utxo_value = v\<rparr>"

definition demo_wallet :: "wallet_utxo list" where
  "demo_wallet = [demo_wallet_utxo ''t1'' 500, demo_wallet_utxo ''t2'' 1000,
                  demo_wallet_utxo ''t3'' 5000, demo_wallet_utxo ''t4'' 700]"

definition demo_scr :: "string \<Rightarrow> string" where
  "demo_scr a = ''76a914'' @ a @ ''88ac''"

definition demo_bld :: "string \<Rightarrow> error + string" where
  "demo_bld a = Inr (demo_scr a)"

theorem getWalletUTXOs_selection_witness:
  "getWalletUTXOs (Some demo_bld) (Inr (Some demo_wallet)) 5500 =
     Inr \<lparr>utxos = [selected_of demo_scr (demo_wallet_utxo ''t3'' 5000),
                    selected_of demo_scr (demo_wallet_utxo ''t2'' 1000)],
          totalAmount = 6000\<rparr>
   \<and> getWalletUTXOs (Some demo_bld) (Inr (Some demo_wallet)) 10000 =
     Inl (Wrapped ''Failed to get UTXOs: '' (InsufficientBalance 10001 6700))
   \<and> getWalletUTXOs (Some demo_bld) (Inr None) 100 =
     Inl (Wrapped ''Failed to get UTXOs: '' NoUtxos)"
  using getWalletUTXOs_selection [where wallet = "Some demo_wallet" and bld = demo_bld
      and scr = demo_scr and requiredAmount = 5500]
    getWalletUTXOs_selection [where wallet = "Some demo_wallet" and bld = demo_bld
      and scr = demo_scr and requiredAmount = 10000]
    getWalletUTXOs_selection [where wallet = None and bld = demo_bld
      and scr = demo_scr and requiredAmount = 100]
  by (simp add: getWalletUTXOs_def demo_wallet_def demo_wallet_utxo_def demo_bld_def
      selected_of_def)

text \<open>
  A wallet holding one UTXO of 500 satoshis.  With required amount 100 the sum of the
  filtered UTXOs (0) is below 101, and the failure is the no-large-UTXOs error, not the
  insufficient-balance error.  With required amount \<open>-1\<close> the sum (0) is not below
  \<open>requiredAmount + 1 = 0\<close>, and the call fails all the same.
\<close>

theorem getWalletUTXOs_dust_counterexample:
  "values_sum (filter (\<lambda>u. utxo_value u > 600) [demo_wallet_utxo ''t1'' 500]) < 100 + 1
   \<and> getWalletUTXOs (Some demo_bld) (Inr (Some [demo_wallet_utxo ''t1'' 500])) 100 =
       Inl (Wrapped ''Failed to get UTXOs: '' NoLargeUtxos)
   \<and> (\<forall>need have. getWalletUTXOs (Some demo_bld) (Inr (Some [demo_wallet_utxo ''t1'' 500])) 100 \<noteq>
       Inl (Wrapped ''Failed to get UTXOs: '' (InsufficientBalance need have)))
   \<and> \<not> values_sum (filter (\<lambda>u. utxo_value u > 600) [demo_wallet_utxo ''t1'' 500]) < (- 1) + 1
   \<and> getWalletUTXOs (Some demo_bld) (Inr (Some [demo_wallet_utxo ''t1'' 500])) (- 1) =
       Inl (Wrapped ''Failed to get UTXOs: '' NoLargeUtxos)"
  by (simp add: getWalletUTXOs_def demo_wallet_utxo_def)

section \<open>Transactions of the chain\<close>

text \<open>
  The part of an \<^verbatim>\<open>mvc.Transaction\<close> the hook touches: its version, the inputs added
  by \<^verbatim>\<open>from\<close> (previous output, its locking script and amount, and the unlocking script
  set later by \<^verbatim>\<open>setScript\<close>, empty until then) and the outputs added by \<^verbatim>\<open>to\<close>.
\<close>

record tx_input =
  prevTxId :: string
  prevOutputIndex :: int
  lockingScript :: string
  inputSatoshis :: int
  unlockingScript :: string

record tx_to =
  to_address :: string
  to_satoshis :: int

record transaction =
  version :: nat
  inputs :: "tx_input list"
  outputs :: "tx_to list"

definition new_Transaction :: transaction where
  "new_Transaction = \<lparr>version = 10, inputs = [], outputs = []\<rparr>"

text \<open>
  \<^verbatim>\<open>tx.from(utxo)\<close>: the library leaves the transaction as it is when an input already
  spends the same output, and appends an input otherwise.
\<close>

definition tx_from :: "transaction \<Rightarrow> utxo \<Rightarrow> transaction" where
  "tx_from tx u =
     (if list_ex (\<lambda>i. prevTxId i = txId u \<and> prevOutputIndex i = outputIndex u) (inputs tx) then tx
      else tx\<lparr>inputs := inputs tx @
             [\<lparr>prevTxId = txId u, prevOutputIndex = outputIndex u, lockingScript = script u,
               inputSatoshis = satoshis u, unlockingScript = []\<rparr>]\<rparr>)"

definition tx_to :: "transaction \<Rightarrow> string \<Rightarrow> int \<Rightarrow> transaction" where
  "tx_to tx a amount = tx\<lparr>outputs := outputs tx @ [\<lparr>to_address = a, to_satoshis = amount\<rparr>]\<rparr>"

record chain_store =
  mvcFeeRate :: "real option"

text \<open>
  \<^verbatim>\<open>chainStore.mvcFeeRate() || 1\<close>: \<open>None\<close> is a rate that is \<^verbatim>\<open>undefined\<close>, \<^verbatim>\<open>null\<close> or
  \<^verbatim>\<open>NaN\<close>; these and 0 are falsy.
\<close>

definition feeRate_of :: "chain_store \<Rightarrow> real" where
  "feeRate_of chainStore =
     (case mvcFeeRate chainStore of None \<Rightarrow> 1 | Some r \<Rightarrow> if r = 0 then 1 else r)"

section \<open>The merge transaction (\<^verbatim>\<open>buildChunkedUploadMergeTx\<close>)\<close>

text \<open>
  An output of the parsed signed transaction, and what \<^verbatim>\<open>output.script.toAddress(livenet)\<close>
  does with a script: it throws, returns a falsy value, or returns an address.
\<close>

record parsed_output =
  out_script :: string
  out_satoshis :: int

datatype addr_result = ToAddressThrows | NoAddress | Address string

text \<open>
  What the wallet's \<^verbatim>\<open>pay\<close> resolves to, after \<^verbatim>\<open>TxComposer.deserialize\<close>: the id and raw hex
  of the signed transaction and the outputs of \<^verbatim>\<open>new mvc.Transaction(hex)\<close>.
\<close>

record signed_tx =
  stx_id :: string
  stx_hex :: string
  stx_outputs :: "parsed_output list"

record output_match =
  chunkPreTxOutputIndex :: int
  indexPreTxOutputIndex :: int
  chunkPreTxScript :: "string option"
  indexPreTxScript :: "string option"

record merge_result = output_match +
  mergeTxId :: string
  mergeTxHex :: string

definition amountTolerance :: int where
  "amountTolerance = 1000"

text \<open>The body of the matching loop at output \<open>i\<close>.\<close>

definition match_step ::
  "(string \<Rightarrow> addr_result) \<Rightarrow> string \<Rightarrow> int \<Rightarrow> int \<Rightarrow> parsed_output \<Rightarrow> int \<Rightarrow> output_match \<Rightarrow> output_match"
where
  "match_step toAddress userAddress chunkPreTxOutputAmount indexPreTxOutputAmount out i st =
     (let outputScript = out_script out; outputAmount = out_satoshis out in
      case toAddress outputScript of
        ToAddressThrows \<Rightarrow> st
      | NoAddress \<Rightarrow> st
      | Address addr \<Rightarrow>
          if addr = userAddress then
            if chunkPreTxOutputIndex st = - 1 \<and>
               \<bar>outputAmount - chunkPreTxOutputAmount\<bar> \<le> amountTolerance
            then st\<lparr>chunkPreTxOutputIndex := i, chunkPreTxScript := Some outputScript\<rparr>
            else if indexPreTxOutputIndex st = - 1 \<and>
               \<bar>outputAmount - indexPreTxOutputAmount\<bar> \<le> amountTolerance
            then st\<lparr>indexPreTxOutputIndex := i, indexPreTxScript := Some outputScript\<rparr>
            else st
          else st)"

fun match_outputs ::
  "(string \<Rightarrow> addr_result) \<Rightarrow> string \<Rightarrow> int \<Rightarrow> int \<Rightarrow> parsed_output list \<Rightarrow> int \<Rightarrow> output_match \<Rightarrow> output_match"
where
  "match_outputs toAddress userAddress chunkAmount indexAmount [] i st = st"
| "match_outputs toAddress userAddress chunkAmount indexAmount (out # rest) i st =
     match_outputs toAddress userAddress chunkAmount indexAmount rest (i + 1)
       (match_step toAddress userAddress chunkAmount indexAmount out i st)"

definition no_match :: output_match where
  "no_match = \<lparr>chunkPreTxOutputIndex = - 1, indexPreTxOutputIndex = - 1,
     chunkPreTxScript = None, indexPreTxScript = None\<rparr>"

text \<open>
  \<open>lib\<close> stands for \<^verbatim>\<open>mvc\<close> and \<^verbatim>\<open>TxComposer\<close> (it carries \<^verbatim>\<open>toAddress\<close>); \<open>pay\<close> is the wallet's
  \<^verbatim>\<open>pay\<close>, \<open>None\<close> when it is not a function, applied to the composed transaction and the
  fee rate.  \<^verbatim>\<open>mergeTxFee\<close> is a parameter the body never reads.
\<close>

definition buildChunkedUploadMergeTx ::
  "user_info option \<Rightarrow> chain_store option \<Rightarrow> (string \<Rightarrow> addr_result) option \<Rightarrow>
   (transaction \<Rightarrow> real \<Rightarrow> error + signed_tx) option \<Rightarrow>
   utxo_data \<Rightarrow> int \<Rightarrow> int \<Rightarrow> int \<Rightarrow> error + merge_result"
where
  "buildChunkedUploadMergeTx userStore chainStore lib pay utxoData chunkPreTxOutputAmount
       indexPreTxOutputAmount mergeTxFee =
     (case
        (case (userStore, chainStore) of
           (Some user, Some chain) \<Rightarrow>
             (case lib of
                None \<Rightarrow> Inl LibraryUnavailable
              | Some toAddress \<Rightarrow>
                  let mergeTx = foldl tx_from new_Transaction (utxos utxoData);
                      mergeTx = tx_to mergeTx (address user) chunkPreTxOutputAmount;
                      mergeTx = tx_to mergeTx (address user) indexPreTxOutputAmount
                  in (case pay of
                        None \<Rightarrow> Inl PayUnsupported
                      | Some walletPay \<Rightarrow>
                          (case walletPay mergeTx (feeRate_of chain) of
                             Inl e \<Rightarrow> Inl e
                           | Inr payed \<Rightarrow>
                               let m = match_outputs toAddress (address user)
                                         chunkPreTxOutputAmount indexPreTxOutputAmount
                                         (stx_outputs payed) 0 no_match
                               in Inr \<lparr>chunkPreTxOutputIndex = chunkPreTxOutputIndex m,
                                        indexPreTxOutputIndex = indexPreTxOutputIndex m,
                                        chunkPreTxScript = chunkPreTxScript m,
                                        indexPreTxScript = indexPreTxScript m,
                                        mergeTxId = stx_id payed,
                                        mergeTxHex = stx_hex payed\<rparr>)))
         | _ \<Rightarrow> Inl StoresUnavailable)
      of Inl e \<Rightarrow> Inl (Wrapped ''Failed to build merge transaction: '' e)
       | Inr r \<Rightarrow> Inr r)"

definition merge_tx_of :: "user_info \<Rightarrow> utxo_data \<Rightarrow> int \<Rightarrow> int \<Rightarrow> transaction" where
  "merge_tx_of user utxoData chunkAmount indexAmount =
     tx_to (tx_to (foldl tx_from new_Transaction (utxos utxoData)) (address user) chunkAmount)
       (address user) indexAmount"

lemma buildChunkedUploadMergeTx_payed:
  assumes "walletPay (merge_tx_of user utxoData c i) (feeRate_of chain) = Inr payed"
  shows "buildChunkedUploadMergeTx (Some user) (Some chain) (Some toAddress) (Some walletPay)
           utxoData c i fee =
         Inr (let m = match_outputs toAddress (address user) c i (stx_outputs payed) 0 no_match
              in \<lparr>chunkPreTxOutputIndex = chunkPreTxOutputIndex m,
                   indexPreTxOutputIndex = indexPreTxOutputIndex m,
                   chunkPreTxScript = chunkPreTxScript m,
                   indexPreTxScript = indexPreTxScript m,
                   mergeTxId = stx_id payed, mergeTxHex = stx_hex payed\<rparr>)"
  using assms by (simp add: buildChunkedUploadMergeTx_def merge_tx_of_def Let_def)

lemma match_outputs_snoc:
  "match_outputs t a c x (outs @ [out]) i st =
     match_step t a c x out (i + int (length outs)) (match_outputs t a c x outs i st)"
  by (induction outs arbitrary: i st) (simp_all add: add.assoc)


lemma match_step_other:
  "t (out_script out) \<noteq> Address a \<or>
     (\<not> \<bar>out_satoshis out - c\<bar> \<le> 1000 \<and> \<not> \<bar>out_satoshis out - x\<bar> \<le> 1000)
   \<Longrightarrow> match_step t a c x out i st = st"
  by (auto simp: match_step_def Let_def amountTolerance_def split: addr_result.splits)

lemma match_outputs_two:
  assumes i: "i < length outs" and j: "j < length outs" and ij: "i \<noteq> j"
    and A: "t (out_script (outs ! i)) = Address a" "\<bar>out_satoshis (outs ! i) - c\<bar> \<le> 1000"
    and B: "t (out_script (outs ! j)) = Address a" "\<bar>out_satoshis (outs ! j) - x\<bar> \<le> 1000"
           "\<not> \<bar>out_satoshis (outs ! j) - c\<bar> \<le> 1000"
    and others: "\<forall>m<length outs. m \<noteq> i \<and> m \<noteq> j \<longrightarrow>
                   t (out_script (outs ! m)) \<noteq> Address a \<or>
                   (\<not> \<bar>out_satoshis (outs ! m) - c\<bar> \<le> 1000 \<and>
                    \<not> \<bar>out_satoshis (outs ! m) - x\<bar> \<le> 1000)"
    and n: "n \<le> length outs"
  shows "match_outputs t a c x (take n outs) 0 no_match =
           \<lparr>chunkPreTxOutputIndex = (if i < n then int i else - 1),
            indexPreTxOutputIndex = (if j < n then int j else - 1),
            chunkPreTxScript = (if i < n then Some (out_script (outs ! i)) else None),
            indexPreTxScript = (if j < n then Some (out_script (outs ! j)) else None)\<rparr>"
  using n
proof (induction n)
  case 0
  then show ?case by (simp add: no_match_def)
next
  case (Suc n)
  then have n: "n < length outs" and IH: "match_outputs t a c x (take n outs) 0 no_match =
           \<lparr>chunkPreTxOutputIndex = (if i < n then int i else - 1),
            indexPreTxOutputIndex = (if j < n then int j else - 1),
            chunkPreTxScript = (if i < n then Some (out_script (outs ! i)) else None),
            indexPreTxScript = (if j < n then Some (out_script (outs ! j)) else None)\<rparr>"
    by simp_all
  have step: "match_outputs t a c x (take (Suc n) outs) 0 no_match =
      match_step t a c x (outs ! n) (int n) (match_outputs t a c x (take n outs) 0 no_match)"
    using n by (simp add: take_Suc_conv_app_nth match_outputs_snoc min_def)
  consider "n = i" | "n = j" | "n \<noteq> i" "n \<noteq> j" by blast
  then show ?case
  proof cases
    case 1
    then show ?thesis
      unfolding step IH using A ij by (simp add: match_step_def amountTolerance_def)
  next
    case 2
    then show ?thesis
      unfolding step IH using B ij by (auto simp: match_step_def amountTolerance_def)
  next
    case 3
    with others n have "t (out_script (outs ! n)) \<noteq> Address a \<or>
        (\<not> \<bar>out_satoshis (outs ! n) - c\<bar> \<le> 1000 \<and> \<not> \<bar>out_satoshis (outs ! n) - x\<bar> \<le> 1000)"
      by simp
    then have "match_step t a c x (outs ! n) (int n) (match_outputs t a c x (take n outs) 0 no_match) =
        match_outputs t a c x (take n outs) 0 no_match"
      by (rule match_step_other)
    then show ?thesis
      unfolding step IH using 3 by (auto simp: less_Suc_eq)
  qed
qed

text \<open>
  Claim C6.  Let the signed merge transaction have, at positions \<open>i\<close> and \<open>j\<close> (in either
  order), an output to the caller's address of amount A within 1000 of the requested
  chunk amount and one of amount B within 1000 of the requested index amount and not
  within 1000 of the chunk amount, and let every other output either not pay the caller's
  address or be within 1000 of neither requested amount.  Then the chunk index is the position of the output of amount A and the index index the
  position of the output of amount B, with their scripts, wherever the two outputs stand.
\<close>

theorem buildChunkedUploadMergeTx_order_independent:
  assumes pay: "walletPay (merge_tx_of user utxoData chunkAmount indexAmount) (feeRate_of chain) = Inr payed"
    and i: "i < length (stx_outputs payed)" and j: "j < length (stx_outputs payed)" and ij: "i \<noteq> j"
    and A: "toAddress (out_script (stx_outputs payed ! i)) = Address (address user)"
           "\<bar>out_satoshis (stx_outputs payed ! i) - chunkAmount\<bar> \<le> 1000"
           "\<not> \<bar>out_satoshis (stx_outputs payed ! i) - indexAmount\<bar> \<le> 1000"
    and B: "toAddress (out_script (stx_outputs payed ! j)) = Address (address user)"
           "\<bar>out_satoshis (stx_outputs payed ! j) - indexAmount\<bar> \<le> 1000"
           "\<not> \<bar>out_satoshis (stx_outputs payed ! j) - chunkAmount\<bar> \<le> 1000"
    and others: "\<forall>m<length (stx_outputs payed). m \<noteq> i \<and> m \<noteq> j \<longrightarrow>
                   toAddress (out_script (stx_outputs payed ! m)) \<noteq> Address (address user) \<or>
                   (\<not> \<bar>out_satoshis (stx_outputs payed ! m) - chunkAmount\<bar> \<le> 1000 \<and>
                    \<not> \<bar>out_satoshis (stx_outputs payed ! m) - indexAmount\<bar> \<le> 1000)"
  shows "buildChunkedUploadMergeTx (Some user) (Some chain) (Some toAddress) (Some walletPay)
           utxoData chunkAmount indexAmount mergeTxFee =
         Inr \<lparr>chunkPreTxOutputIndex = int i, indexPreTxOutputIndex = int j,
              chunkPreTxScript = Some (out_script (stx_outputs payed ! i)),
              indexPreTxScript = Some (out_script (stx_outputs payed ! j)),
              mergeTxId = stx_id payed, mergeTxHex = stx_hex payed\<rparr>"
proof -
  have "match_outputs toAddress (address user) chunkAmount indexAmount
          (take (length (stx_outputs payed)) (stx_outputs payed)) 0 no_match =
        \<lparr>chunkPreTxOutputIndex = int i, indexPreTxOutputIndex = int j,
         chunkPreTxScript = Some (out_script (stx_outputs payed ! i)),
         indexPreTxScript = Some (out_script (stx_outputs payed ! j))\<rparr>"
    using match_outputs_two[OF i j ij A(1,2) B others order_refl] i j by simp
  then show ?thesis
    using buildChunkedUploadMergeTx_payed[of walletPay user utxoData chunkAmount indexAmount
        chain payed toAddress mergeTxFee] pay
    by (simp add: Let_def)
qed

definition demo_user :: user_info where
  "demo_user = \<lparr>metaid = ''m'', address = ''addr''\<rparr>"

definition demo_chain :: chain_store where
  "demo_chain = \<lparr>mvcFeeRate = Some 1\<rparr>"

definition demo_toAddress :: "string \<Rightarrow> addr_result" where
  "demo_toAddress s =
     (if s = ''76a914addr88ac'' then Address ''addr''
      else if s = ''6a'' then ToAddressThrows
      else Address ''other'')"

definition demo_utxo_data :: utxo_data where
  "demo_utxo_data =
     \<lparr>utxos = [\<lparr>txId = ''t3'', outputIndex = 0, script = ''76a914addr88ac'', satoshis = 50000\<rparr>],
      totalAmount = 50000\<rparr>"

definition demo_out :: "string \<Rightarrow> int \<Rightarrow> parsed_output" where
  "demo_out s v = \<lparr>out_script = s, out_satoshis = v\<rparr>"

definition demo_pay :: "parsed_output list \<Rightarrow> transaction \<Rightarrow> real \<Rightarrow> error + signed_tx" where
  "demo_pay outs tx rate = Inr \<lparr>stx_id = ''mergeid'', stx_hex = ''0a00'', stx_outputs = outs\<rparr>"

theorem buildChunkedUploadMergeTx_order_independent_witness:
  "buildChunkedUploadMergeTx (Some demo_user) (Some demo_chain) (Some demo_toAddress)
      (Some (demo_pay [demo_out ''76a914addr88ac'' 20000, demo_out ''76a914addr88ac'' 90000,
                       demo_out ''76a914addr88ac'' 5000]))
      demo_utxo_data 20000 5000 568 =
    Inr \<lparr>chunkPreTxOutputIndex = 0, indexPreTxOutputIndex = 2,
         chunkPreTxScript = Some ''76a914addr88ac'', indexPreTxScript = Some ''76a914addr88ac'',
         mergeTxId = ''mergeid'', mergeTxHex = ''0a00''\<rparr>
   \<and> buildChunkedUploadMergeTx (Some demo_user) (Some demo_chain) (Some demo_toAddress)
      (Some (demo_pay [demo_out ''76a914addr88ac'' 5000, demo_out ''76a914other88ac'' 4000,
                       demo_out ''76a914addr88ac'' 20000]))
      demo_utxo_data 20000 5000 568 =
    Inr \<lparr>chunkPreTxOutputIndex = 2, indexPreTxOutputIndex = 0,
         chunkPreTxScript = Some ''76a914addr88ac'', indexPreTxScript = Some ''76a914addr88ac'',
         mergeTxId = ''mergeid'', mergeTxHex = ''0a00''\<rparr>"
  using buildChunkedUploadMergeTx_order_independent
      [of "demo_pay [demo_out ''76a914addr88ac'' 20000, demo_out ''76a914addr88ac'' 90000,
                       demo_out ''76a914addr88ac'' 5000]" demo_user demo_utxo_data 20000 5000
          demo_chain "\<lparr>stx_id = ''mergeid'', stx_hex = ''0a00'',
             stx_outputs = [demo_out ''76a914addr88ac'' 20000, demo_out ''76a914addr88ac'' 90000,
                       demo_out ''76a914addr88ac'' 5000]\<rparr>" 0 2 demo_toAddress 568]
    buildChunkedUploadMergeTx_order_independent
      [of "demo_pay [demo_out ''76a914addr88ac'' 5000, demo_out ''76a914other88ac'' 4000,
                       demo_out ''76a914addr88ac'' 20000]" demo_user demo_utxo_data 20000 5000
          demo_chain "\<lparr>stx_id = ''mergeid'', stx_hex = ''0a00'',
             stx_outputs = [demo_out ''76a914addr88ac'' 5000, demo_out ''76a914other88ac'' 4000,
                       demo_out ''76a914addr88ac'' 20000]\<rparr>" 2 0 demo_toAddress 568]
  by (simp add: demo_pay_def demo_out_def demo_toAddress_def demo_user_def less_Suc_eq
        numeral_2_eq_2 nth_Cons')


lemma match_outputs_chunk_unchanged:
  assumes "\<forall>out\<in>set outs. \<not> (t (out_script out) = Address a \<and> \<bar>out_satoshis out - c\<bar> \<le> 1000)"
  shows "chunkPreTxOutputIndex (match_outputs t a c x outs i st) = chunkPreTxOutputIndex st
       \<and> chunkPreTxScript (match_outputs t a c x outs i st) = chunkPreTxScript st"
  using assms
proof (induction outs arbitrary: i st)
  case Nil
  then show ?case by simp
next
  case (Cons out rest)
  have "chunkPreTxOutputIndex (match_step t a c x out i st) = chunkPreTxOutputIndex st
      \<and> chunkPreTxScript (match_step t a c x out i st) = chunkPreTxScript st"
    using Cons.prems
    by (auto simp: match_step_def Let_def amountTolerance_def split: addr_result.splits)
  with Cons show ?case by simp
qed

lemma match_outputs_index_unchanged:
  assumes "\<forall>out\<in>set outs. \<not> (t (out_script out) = Address a \<and> \<bar>out_satoshis out - x\<bar> \<le> 1000)"
  shows "indexPreTxOutputIndex (match_outputs t a c x outs i st) = indexPreTxOutputIndex st
       \<and> indexPreTxScript (match_outputs t a c x outs i st) = indexPreTxScript st"
  using assms
proof (induction outs arbitrary: i st)
  case Nil
  then show ?case by simp
next
  case (Cons out rest)
  have "indexPreTxOutputIndex (match_step t a c x out i st) = indexPreTxOutputIndex st
      \<and> indexPreTxScript (match_step t a c x out i st) = indexPreTxScript st"
    using Cons.prems
    by (auto simp: match_step_def Let_def amountTolerance_def split: addr_result.splits)
  with Cons show ?case by simp
qed

text \<open>
  What the loop leaves when nothing matches: once the wallet has paid, the function
  returns a result whatever the outputs are.  When no output pays the caller's address
  an amount within 1000 of the requested chunk amount, the returned chunk index is \<open>-1\<close>
  and the chunk script \<^verbatim>\<open>null\<close>, and likewise for the index amount.
\<close>

lemma buildChunkedUploadMergeTx_unmatched:
  assumes pay: "walletPay (merge_tx_of user utxoData chunkAmount indexAmount) (feeRate_of chain) = Inr payed"
  shows "\<exists>r. buildChunkedUploadMergeTx (Some user) (Some chain) (Some toAddress) (Some walletPay)
               utxoData chunkAmount indexAmount mergeTxFee = Inr r
           \<and> mergeTxId r = stx_id payed \<and> mergeTxHex r = stx_hex payed
           \<and> ((\<forall>out\<in>set (stx_outputs payed).
                  \<not> (toAddress (out_script out) = Address (address user)
                     \<and> \<bar>out_satoshis out - chunkAmount\<bar> \<le> 1000))
                \<longrightarrow> chunkPreTxOutputIndex r = - 1 \<and> chunkPreTxScript r = None)
           \<and> ((\<forall>out\<in>set (stx_outputs payed).
                  \<not> (toAddress (out_script out) = Address (address user)
                     \<and> \<bar>out_satoshis out - indexAmount\<bar> \<le> 1000))
                \<longrightarrow> indexPreTxOutputIndex r = - 1 \<and> indexPreTxScript r = None)"
  using buildChunkedUploadMergeTx_payed[of walletPay user utxoData chunkAmount indexAmount
        chain payed toAddress mergeTxFee] pay
    match_outputs_chunk_unchanged[of "stx_outputs payed" toAddress "address user" chunkAmount
        indexAmount 0 no_match]
    match_outputs_index_unchanged[of "stx_outputs payed" toAddress "address user" indexAmount
        chunkAmount 0 no_match]
  by (simp add: Let_def no_match_def)

text \<open>
  Claim C2.  The claim asks for a failure when a funding output cannot be located.  The
  function initialises both indices to the not-found value \<open>-1\<close> and never tests them
  after the loop, so it resolves with them.  Two signed transactions show it, with the
  wallet paying in both.  In the first the only output pays another address (requested
  amounts 20000 and 5000): no output matches, and the result has both indices \<open>-1\<close> and
  both scripts \<^verbatim>\<open>null\<close>.  In the second the only output pays the caller 20200 (requested
  amounts 20000 and 20500): it is claimed as the chunk output, no remaining output is
  left for the index amount, and the result has index index \<open>-1\<close> and index script \<^verbatim>\<open>null\<close>.
  Neither call fails.
\<close>

theorem buildChunkedUploadMergeTx_no_output_match_failure:
  "demo_toAddress (out_script (demo_out ''76a914other88ac'' 20000)) \<noteq> Address (address demo_user)
   \<and> buildChunkedUploadMergeTx (Some demo_user) (Some demo_chain) (Some demo_toAddress)
        (Some (demo_pay [demo_out ''76a914other88ac'' 20000])) demo_utxo_data 20000 5000 568 =
      Inr \<lparr>chunkPreTxOutputIndex = - 1, indexPreTxOutputIndex = - 1,
           chunkPreTxScript = None, indexPreTxScript = None,
           mergeTxId = ''mergeid'', mergeTxHex = ''0a00''\<rparr>
   \<and> \<not> (\<exists>e. buildChunkedUploadMergeTx (Some demo_user) (Some demo_chain) (Some demo_toAddress)
          (Some (demo_pay [demo_out ''76a914other88ac'' 20000])) demo_utxo_data 20000 5000 568 = Inl e)
   \<and> buildChunkedUploadMergeTx (Some demo_user) (Some demo_chain) (Some demo_toAddress)
        (Some (demo_pay [demo_out ''76a914addr88ac'' 20200])) demo_utxo_data 20000 20500 568 =
      Inr \<lparr>chunkPreTxOutputIndex = 0, indexPreTxOutputIndex = - 1,
           chunkPreTxScript = Some ''76a914addr88ac'', indexPreTxScript = None,
           mergeTxId = ''mergeid'', mergeTxHex = ''0a00''\<rparr>
   \<and> \<not> (\<exists>e. buildChunkedUploadMergeTx (Some demo_user) (Some demo_chain) (Some demo_toAddress)
          (Some (demo_pay [demo_out ''76a914addr88ac'' 20200])) demo_utxo_data 20000 20500 568 = Inl e)"
  by (simp add: buildChunkedUploadMergeTx_def demo_pay_def demo_out_def demo_toAddress_def
        demo_user_def no_match_def match_step_def amountTolerance_def Let_def)

section \<open>The open pre-transactions (\<^verbatim>\<open>buildChunkFundingPreTx\<close>, \<^verbatim>\<open>buildIndexPreTx\<close>)\<close>

text \<open>
  The argument of the wallet's \<^verbatim>\<open>signTransaction\<close> and the signature it resolves to.  The
  signature type is the result of a JavaScript bitwise or, a 32-bit integer.
\<close>

record sign_request =
  req_txHex :: string
  req_address :: string
  req_inputIndex :: nat
  req_scriptHex :: string
  req_satoshis :: int
  req_sigtype :: "32 word"

record sign_result =
  sig :: string
  publicKey :: string

text \<open>
  The library calls of the builders: \<^verbatim>\<open>tx.toString()\<close>,
  \<^verbatim>\<open>mvc.crypto.Signature.fromTxFormat(Buffer.from(sig, 'hex')).toDER()\<close> and
  \<^verbatim>\<open>mvc.Script.buildPublicKeyHashIn(publicKey, der, sigtype)\<close>; the last two throw on
  malformed arguments.
\<close>

record mvc_lib =
  tx_toString :: "transaction \<Rightarrow> string"
  signature_toDER :: "string \<Rightarrow> error + string"
  buildPublicKeyHashIn :: "string \<Rightarrow> string \<Rightarrow> 32 word \<Rightarrow> error + string"

definition SIGHASH_NONE :: "32 word" where
  "SIGHASH_NONE = 0x2"

definition SIGHASH_ANYONECANPAY :: "32 word" where
  "SIGHASH_ANYONECANPAY = 0x40"

definition setScript :: "transaction \<Rightarrow> nat \<Rightarrow> string \<Rightarrow> transaction" where
  "setScript tx i unlocking =
     tx\<lparr>inputs := (inputs tx)[i := (inputs tx ! i)\<lparr>unlockingScript := unlocking\<rparr>]\<rparr>"

text \<open>
  The signing loop \<^verbatim>\<open>for (let i = 0; i < utxoData.utxos.length; i++)\<close>, from index \<open>i\<close> with
  the UTXOs still to sign; the second component is the list of requests made to the
  wallet so far.  \<^verbatim>\<open>tx.inputs[i]\<close> is \<^verbatim>\<open>undefined\<close> beyond the inputs, and calling
  \<^verbatim>\<open>setScript\<close> on it throws.
\<close>

fun sign_inputs ::
  "mvc_lib \<Rightarrow> (sign_request \<Rightarrow> error + sign_result) \<Rightarrow> string \<Rightarrow> utxo list \<Rightarrow> nat \<Rightarrow>
   transaction \<Rightarrow> sign_request list \<Rightarrow> (error + transaction) \<times> sign_request list"
where
  "sign_inputs lib signTransaction userAddress [] i tx requests = (Inr tx, requests)"
| "sign_inputs lib signTransaction userAddress (u # rest) i tx requests =
     (let request = \<lparr>req_txHex = tx_toString lib tx, req_address = userAddress,
                      req_inputIndex = i, req_scriptHex = script u, req_satoshis = satoshis u,
                      req_sigtype = SIGHASH_NONE OR SIGHASH_ANYONECANPAY\<rparr>;
          requests' = requests @ [request]
      in case signTransaction request of
           Inl e \<Rightarrow> (Inl e, requests')
         | Inr signResult \<Rightarrow>
            (case signature_toDER lib (sig signResult) of
               Inl e \<Rightarrow> (Inl e, requests')
             | Inr der \<Rightarrow>
                (case buildPublicKeyHashIn lib (publicKey signResult) der
                        (SIGHASH_NONE OR SIGHASH_ANYONECANPAY) of
                   Inl e \<Rightarrow> (Inl e, requests')
                 | Inr unlocking \<Rightarrow>
                     if i < length (inputs tx)
                     then sign_inputs lib signTransaction userAddress rest (i + 1)
                            (setScript tx i unlocking) requests'
                     else (Inl (Thrown ''Cannot read properties of undefined (reading setScript)''),
                           requests'))))"

text \<open>
  The two builders have the same body and differ in the message of their \<^verbatim>\<open>catch\<close>
  block; \<open>lib\<close> is \<open>None\<close> when \<^verbatim>\<open>mvc\<close> or \<^verbatim>\<open>Buffer\<close> is missing.  The fee argument is never
  read.
\<close>

definition build_pre_tx ::
  "string \<Rightarrow> user_info option \<Rightarrow> mvc_lib option \<Rightarrow> (sign_request \<Rightarrow> error + sign_result) \<Rightarrow>
   utxo_data \<Rightarrow> (error + string) \<times> sign_request list"
where
  "build_pre_tx failure userStore lib signTransaction utxoData =
     (case userStore of
        None \<Rightarrow> (Inl (Wrapped failure UserStoreUnavailable), [])
      | Some user \<Rightarrow>
         (case lib of
            None \<Rightarrow> (Inl (Wrapped failure LibraryOrBufferUnavailable), [])
          | Some mvc \<Rightarrow>
              let tx = foldl tx_from new_Transaction (utxos utxoData) in
              (case sign_inputs mvc signTransaction (address user) (utxos utxoData) 0 tx [] of
                 (Inl e, requests) \<Rightarrow> (Inl (Wrapped failure e), requests)
               | (Inr signedTx, requests) \<Rightarrow> (Inr (tx_toString mvc signedTx), requests))))"

definition buildChunkFundingPreTx ::
  "user_info option \<Rightarrow> mvc_lib option \<Rightarrow> (sign_request \<Rightarrow> error + sign_result) \<Rightarrow>
   utxo_data \<Rightarrow> int \<Rightarrow> (error + string) \<times> sign_request list"
where
  "buildChunkFundingPreTx userStore lib signTransaction utxoData totalChunkFee =
     build_pre_tx ''Failed to build chunk funding pre-tx: '' userStore lib signTransaction utxoData"

definition buildIndexPreTx ::
  "user_info option \<Rightarrow> mvc_lib option \<Rightarrow> (sign_request \<Rightarrow> error + sign_result) \<Rightarrow>
   utxo_data \<Rightarrow> int \<Rightarrow> (error + string) \<times> sign_request list"
where
  "buildIndexPreTx userStore lib signTransaction utxoData indexFee =
     build_pre_tx ''Failed to build index pre-tx: '' userStore lib signTransaction utxoData"

definition open_input :: "utxo \<Rightarrow> string \<Rightarrow> tx_input" where
  "open_input u unlocking =
     \<lparr>prevTxId = txId u, prevOutputIndex = outputIndex u, lockingScript = script u,
      inputSatoshis = satoshis u, unlockingScript = unlocking\<rparr>"

definition open_tx :: "utxo \<Rightarrow> string \<Rightarrow> transaction" where
  "open_tx u unlocking = \<lparr>version = 10, inputs = [open_input u unlocking], outputs = []\<rparr>"

definition open_request :: "mvc_lib \<Rightarrow> user_info \<Rightarrow> utxo \<Rightarrow> sign_request" where
  "open_request mvc user u =
     \<lparr>req_txHex = tx_toString mvc (open_tx u []), req_address = address user, req_inputIndex = 0,
      req_scriptHex = script u, req_satoshis = satoshis u, req_sigtype = 0x42\<rparr>"

lemma sighash_open: "SIGHASH_NONE OR SIGHASH_ANYONECANPAY = (0x42 :: 32 word)"
  by (simp add: SIGHASH_NONE_def SIGHASH_ANYONECANPAY_def)

lemma build_pre_tx_single:
  assumes "signTransaction (open_request mvc user u) = Inr signResult"
    and "signature_toDER mvc (sig signResult) = Inr der"
    and "buildPublicKeyHashIn mvc (publicKey signResult) der 0x42 = Inr unlocking"
  shows "build_pre_tx failure (Some user) (Some mvc) signTransaction \<lparr>utxos = [u], totalAmount = t\<rparr> =
           (Inr (tx_toString mvc (open_tx u unlocking)), [open_request mvc user u])"
  using assms
  by (simp add: build_pre_tx_def tx_from_def new_Transaction_def sighash_open open_request_def
        open_tx_def open_input_def setScript_def Let_def)


text \<open>
  Claim C1.  For a \<open>utxoData\<close> with exactly one UTXO \<open>u\<close>, when the wallet signs and the
  library accepts the signature, each builder asks the wallet for one signature, over
  input 0 of the transaction with the single input \<open>u\<close> and no output, with signature type
  \<open>0x2 | 0x40 = 0x42\<close> (\<^verbatim>\<open>SIGHASH_NONE | SIGHASH_ANYONECANPAY\<close>), and returns the serialization
  of the transaction with exactly that one input, carrying the unlocking script built
  from the returned public key and signature, and with no outputs.
\<close>

theorem open_pre_tx_single_utxo:
  assumes "signTransaction (open_request mvc user u) = Inr signResult"
    and "signature_toDER mvc (sig signResult) = Inr der"
    and "buildPublicKeyHashIn mvc (publicKey signResult) der (SIGHASH_NONE OR SIGHASH_ANYONECANPAY)
           = Inr unlocking"
  shows "buildChunkFundingPreTx (Some user) (Some mvc) signTransaction
             \<lparr>utxos = [u], totalAmount = t\<rparr> totalChunkFee =
           (Inr (tx_toString mvc (open_tx u unlocking)), [open_request mvc user u])
       \<and> buildIndexPreTx (Some user) (Some mvc) signTransaction
             \<lparr>utxos = [u], totalAmount = t\<rparr> indexFee =
           (Inr (tx_toString mvc (open_tx u unlocking)), [open_request mvc user u])
       \<and> length (inputs (open_tx u unlocking)) = 1 \<and> outputs (open_tx u unlocking) = []
       \<and> map unlockingScript (inputs (open_tx u unlocking)) = [unlocking]
       \<and> map prevTxId (inputs (open_tx u unlocking)) = [txId u]
       \<and> map prevOutputIndex (inputs (open_tx u unlocking)) = [outputIndex u]
       \<and> req_sigtype (open_request mvc user u) = SIGHASH_NONE OR SIGHASH_ANYONECANPAY
       \<and> req_sigtype (open_request mvc user u) = 0x42
       \<and> req_inputIndex (open_request mvc user u) = 0
       \<and> req_txHex (open_request mvc user u) = tx_toString mvc (open_tx u [])
       \<and> length (inputs (open_tx u [])) = 1 \<and> outputs (open_tx u []) = []"
  using assms build_pre_tx_single[of signTransaction mvc user u signResult der unlocking]
  by (simp add: buildChunkFundingPreTx_def buildIndexPreTx_def sighash_open open_tx_def
        open_request_def open_input_def)

definition demo_serialize :: "transaction \<Rightarrow> string" where
  "demo_serialize tx =
     show_nat (version tx) @ concat (map (\<lambda>i. '':'' @ prevTxId i @ ''/'' @ unlockingScript i) (inputs tx))
     @ ''|'' @ concat (map to_address (outputs tx))"

definition demo_lib :: mvc_lib where
  "demo_lib = \<lparr>tx_toString = demo_serialize,
               signature_toDER = (\<lambda>s. Inr (''30'' @ s)),
               buildPublicKeyHashIn = (\<lambda>pk der ty. Inr (der @ ''42'' @ pk))\<rparr>"

definition demo_sign :: "sign_request \<Rightarrow> error + sign_result" where
  "demo_sign r = (if req_sigtype r = 0x42 then Inr \<lparr>sig = ''aa'', publicKey = ''02bb''\<rparr>
                  else Inl (Thrown ''user cancelled''))"

definition demo_funding :: utxo where
  "demo_funding = \<lparr>txId = ''mergeid'', outputIndex = 0, script = ''76a914addr88ac'', satoshis = 20000\<rparr>"

theorem open_pre_tx_single_utxo_witness:
  "buildChunkFundingPreTx (Some demo_user) (Some demo_lib) demo_sign
       \<lparr>utxos = [demo_funding], totalAmount = 20000\<rparr> 19650 =
     (Inr ''10:mergeid/30aa4202bb|'',
      [\<lparr>req_txHex = ''10:mergeid/|'', req_address = ''addr'', req_inputIndex = 0,
        req_scriptHex = ''76a914addr88ac'', req_satoshis = 20000, req_sigtype = 0x42\<rparr>])
   \<and> buildIndexPreTx (Some demo_user) (Some demo_lib) demo_sign
       \<lparr>utxos = [demo_funding], totalAmount = 20000\<rparr> 19650 =
     (Inr ''10:mergeid/30aa4202bb|'',
      [\<lparr>req_txHex = ''10:mergeid/|'', req_address = ''addr'', req_inputIndex = 0,
        req_scriptHex = ''76a914addr88ac'', req_satoshis = 20000, req_sigtype = 0x42\<rparr>])"
proof -
  have ten: "show_nat 10 = ''10''" by code_simp
  show ?thesis
    using open_pre_tx_single_utxo [of demo_sign demo_lib demo_user demo_funding
        "\<lparr>sig = ''aa'', publicKey = ''02bb''\<rparr>" "''30aa''" "''30aa4202bb''" 20000 19650 19650]
    by (simp add: demo_sign_def demo_lib_def demo_serialize_def demo_user_def demo_funding_def
          open_request_def open_tx_def open_input_def sighash_open ten)
qed

section \<open>The chunked upload flow (\<^verbatim>\<open>runChunkedUploadFlow\<close>)\<close>

subsection \<open>The multiplication of JavaScript numbers\<close>

text \<open>
  A finite JavaScript number is an IEEE 754 double, here the real number it denotes.
  The result of \<^verbatim>\<open>a * b\<close> is the exact product rounded to the nearest double, a tie going
  to the double with the even mantissa: with \<open>e\<close> the binary exponent of the exact product
  (at least \<open>-1022\<close>, below which the doubles are subnormal), the doubles around it are the
  integer multiples of \<open>2\<^sup>e\<^sup>-\<^sup>5\<^sup>2\<close>.  A product beyond the largest double (\<^verbatim>\<open>Infinity\<close>) is outside
  the model.
\<close>

definition round_half_even :: "real \<Rightarrow> int" where
  "round_half_even q =
     (let f = \<lfloor>q\<rfloor>; d = q - of_int f
      in if d < 1 / 2 then f else if 1 / 2 < d then f + 1 else if even f then f else f + 1)"

definition double_exponent :: "real \<Rightarrow> int" where
  "double_exponent x = max \<lfloor>log 2 \<bar>x\<bar>\<rfloor> (- 1022)"

definition double_ulp :: "real \<Rightarrow> real" where
  "double_ulp x = 2 powr of_int (double_exponent x - 52)"

definition double_round :: "real \<Rightarrow> real" where
  "double_round x =
     (if x = 0 then 0 else of_int (round_half_even (x / double_ulp x)) * double_ulp x)"

definition js_times :: "real \<Rightarrow> real \<Rightarrow> real" where
  "js_times a b = double_round (a * b)"

lemma round_half_even_of_int [simp]: "round_half_even (of_int m) = m"
  by (simp add: round_half_even_def)

lemma double_exponent_eq:
  assumes "2 powr of_int e \<le> \<bar>x\<bar>" "\<bar>x\<bar> < 2 powr of_int (e + 1)" "- 1022 \<le> e"
  shows "double_exponent x = e"
proof -
  have pos: "0 < \<bar>x\<bar>"
    using assms(1) powr_gt_zero[of 2 "real_of_int e"] by linarith
  have "of_int e \<le> log 2 \<bar>x\<bar>" using assms(1) pos by (simp add: le_log_iff)
  moreover have "log 2 \<bar>x\<bar> < of_int e + 1" using assms(2) pos by (simp add: log_less_iff)
  ultimately have "\<lfloor>log 2 \<bar>x\<bar>\<rfloor> = e" by (intro floor_unique) simp_all
  then show ?thesis using assms(3) by (simp add: double_exponent_def)
qed

lemma double_round_up:
  assumes "2 ^ k \<le> \<bar>x\<bar>" "\<bar>x\<bar> < 2 ^ Suc k" "k \<le> 52"
  shows "double_round x = of_int (round_half_even (x * 2 ^ (52 - k))) / 2 ^ (52 - k)"
proof -
  have "(0::real) < 2 ^ k" by simp
  then have "0 < \<bar>x\<bar>" using assms(1) by (rule less_le_trans)
  then have x0: "x \<noteq> 0" by simp
  have a: "2 powr of_int (int k) \<le> \<bar>x\<bar>" using assms(1) by (simp add: powr_realpow)
  have "(2::real) powr of_int (int k + 1) = 2 ^ Suc k"
  proof -
    have "of_int (int k + 1) = real (Suc k)" by simp
    then show ?thesis by (simp only: powr_realpow zero_less_numeral)
  qed
  then have b: "\<bar>x\<bar> < 2 powr of_int (int k + 1)" using assms(2) by simp
  have e: "double_exponent x = int k" by (rule double_exponent_eq[OF a b]) simp
  have i: "real_of_int (int k - 52) = - real (52 - k)" using assms(3) by simp
  have "double_ulp x = 2 powr real_of_int (int k - 52)" by (simp only: double_ulp_def e)
  also have "\<dots> = 2 powr (- real (52 - k))" by (simp only: i)
  also have "\<dots> = 1 / 2 ^ (52 - k)"
    by (simp only: powr_minus powr_realpow zero_less_numeral inverse_eq_divide)
  finally have u: "double_ulp x = 1 / 2 ^ (52 - k)" .
  show ?thesis using x0 by (simp add: double_round_def u)
qed

lemma double_round_down:
  assumes "1 / 2 ^ k \<le> \<bar>x\<bar>" "\<bar>x\<bar> < 2 / 2 ^ k" "k \<le> 1022"
  shows "double_round x = of_int (round_half_even (x * 2 ^ (52 + k))) / 2 ^ (52 + k)"
proof -
  have "(0::real) < 1 / 2 ^ k" by simp
  then have "0 < \<bar>x\<bar>" using assms(1) by (rule less_le_trans)
  then have x0: "x \<noteq> 0" by simp
  have "real_of_int (- int k) = - real k" by simp
  then have p: "(2::real) powr of_int (- int k) = 1 / 2 ^ k"
    by (simp only: powr_minus powr_realpow zero_less_numeral inverse_eq_divide)
  have a: "2 powr of_int (- int k) \<le> \<bar>x\<bar>" using assms(1) p by simp
  have "(2::real) powr of_int (- int k + 1) = 2 powr of_int (- int k) * 2 powr 1"
    by (simp only: of_int_add of_int_1 powr_add)
  then have "(2::real) powr of_int (- int k + 1) = 2 / 2 ^ k" using p by simp
  then have b: "\<bar>x\<bar> < 2 powr of_int (- int k + 1)" using assms(2) by simp
  have e: "double_exponent x = - int k" by (rule double_exponent_eq[OF a b]) (use assms(3) in simp)
  have i: "real_of_int (- int k - 52) = - real (52 + k)" by simp
  have "double_ulp x = 2 powr real_of_int (- int k - 52)" by (simp only: double_ulp_def e)
  also have "\<dots> = 2 powr (- real (52 + k))" by (simp only: i)
  also have "\<dots> = 1 / 2 ^ (52 + k)"
    by (simp only: powr_minus powr_realpow zero_less_numeral inverse_eq_divide)
  finally have u: "double_ulp x = 1 / 2 ^ (52 + k)" .
  show ?thesis using x0 by (simp add: double_round_def u)
qed

lemma round_half_even_cases:
  "round_half_even q = \<lfloor>q\<rfloor> \<or> (round_half_even q = \<lfloor>q\<rfloor> + 1 \<and> q \<noteq> of_int \<lfloor>q\<rfloor>)"
  by (auto simp: round_half_even_def Let_def)

lemma round_half_even_le:
  assumes "q \<le> of_int n"
  shows "round_half_even q \<le> n"
proof -
  have fl: "\<lfloor>q\<rfloor> \<le> n" using assms by (simp add: floor_le_iff)
  show ?thesis
  proof (cases "q = of_int \<lfloor>q\<rfloor>")
    case True
    then show ?thesis using round_half_even_cases[of q] fl by auto
  next
    case False
    have "q \<noteq> of_int n"
    proof
      assume "q = of_int n"
      then have "of_int \<lfloor>q\<rfloor> = q" by simp
      with False show False by simp
    qed
    with assms have "q < of_int n" by simp
    then have "\<lfloor>q\<rfloor> < n" by (simp add: floor_less_iff)
    then show ?thesis using round_half_even_cases[of q] by auto
  qed
qed

lemma round_half_even_ge:
  assumes "of_int n \<le> q"
  shows "n \<le> round_half_even q"
proof -
  have "n \<le> \<lfloor>q\<rfloor>" using assms by (simp add: le_floor_iff)
  then show ?thesis using round_half_even_cases[of q] by auto
qed

lemma double_ulp_safe:
  assumes "x \<noteq> 0" "\<bar>x\<bar> < 2 ^ 53"
  shows "\<exists>j. double_ulp x = 1 / 2 ^ j"
proof -
  have pos: "0 < \<bar>x\<bar>" using assms(1) by simp
  have "log 2 \<bar>x\<bar> < 53"
  proof -
    have "\<bar>x\<bar> < 2 powr 53" using assms(2) by (simp add: powr_numeral)
    with pos show ?thesis by (simp add: log_less_iff)
  qed
  then have "\<lfloor>log 2 \<bar>x\<bar>\<rfloor> \<le> 52" by (simp add: floor_le_iff)
  then have e: "double_exponent x \<le> 52" by (simp add: double_exponent_def)
  define j where "j = nat (52 - double_exponent x)"
  have i: "real_of_int (double_exponent x - 52) = - real j" using e by (simp add: j_def)
  have "double_ulp x = 2 powr real_of_int (double_exponent x - 52)" by (simp only: double_ulp_def)
  also have "\<dots> = 2 powr (- real j)" by (simp only: i)
  also have "\<dots> = 1 / 2 ^ j"
    by (simp only: powr_minus powr_realpow zero_less_numeral inverse_eq_divide)
  finally show ?thesis by blast
qed

lemma double_round_between:
  assumes "\<bar>x\<bar> < 2 ^ 53" "of_int a \<le> x" "x \<le> of_int b"
  shows "of_int a \<le> double_round x \<and> double_round x \<le> of_int b"
proof (cases "x = 0")
  case True
  then show ?thesis using assms by (simp add: double_round_def)
next
  case False
  from double_ulp_safe[OF False assms(1)] obtain j where u: "double_ulp x = 1 / 2 ^ j" by blast
  have dr: "double_round x = of_int (round_half_even (x * 2 ^ j)) / 2 ^ j"
    using False by (simp add: double_round_def u)
  have "x * 2 ^ j \<le> of_int (b * 2 ^ j)" using assms(3) by simp
  then have "round_half_even (x * 2 ^ j) \<le> b * 2 ^ j" by (rule round_half_even_le)
  then have "real_of_int (round_half_even (x * 2 ^ j)) \<le> real_of_int (b * 2 ^ j)"
    by (simp only: of_int_le_iff)
  then have up: "double_round x \<le> of_int b"
    unfolding dr by (simp add: divide_le_eq)
  have "of_int (a * 2 ^ j) \<le> x * 2 ^ j" using assms(2) by simp
  then have "a * 2 ^ j \<le> round_half_even (x * 2 ^ j)" by (rule round_half_even_ge)
  then have "real_of_int (a * 2 ^ j) \<le> real_of_int (round_half_even (x * 2 ^ j))"
    by (simp only: of_int_le_iff)
  then have lo: "of_int a \<le> double_round x"
    unfolding dr by (simp add: le_divide_eq)
  show ?thesis using lo up by simp
qed

lemma double_round_of_int:
  assumes "\<bar>z\<bar> < 2 ^ 53"
  shows "double_round (of_int z) = of_int z"
proof -
  have "\<bar>real_of_int z\<bar> < 2 ^ 53"
  proof -
    have "real_of_int \<bar>z\<bar> < real_of_int (2 ^ 53)" using assms by (simp only: of_int_less_iff)
    then show ?thesis by simp
  qed
  from double_round_between[OF this, of z z] show ?thesis by simp
qed

lemma ceiling_double_round:
  assumes "\<bar>x\<bar> < 2 ^ 53"
  shows "\<lceil>x\<rceil> - 1 \<le> \<lceil>double_round x\<rceil>" "\<lceil>double_round x\<rceil> \<le> \<lceil>x\<rceil>"
proof -
  have lo: "of_int (\<lceil>x\<rceil> - 1) \<le> x" by linarith
  have hi: "x \<le> of_int \<lceil>x\<rceil>" by simp
  from double_round_between[OF assms lo hi]
  have b: "of_int (\<lceil>x\<rceil> - 1) \<le> double_round x" "double_round x \<le> of_int \<lceil>x\<rceil>" by simp_all
  from b(2) show "\<lceil>double_round x\<rceil> \<le> \<lceil>x\<rceil>" by (simp add: ceiling_le_iff)
  have "real_of_int (\<lceil>x\<rceil> - 1) \<le> real_of_int \<lceil>double_round x\<rceil>"
    using b(1) le_of_int_ceiling[of "double_round x"] by (rule order_trans)
  then show "\<lceil>x\<rceil> - 1 \<le> \<lceil>double_round x\<rceil>" by (simp only: of_int_le_iff)
qed

text \<open>The doubles nearest to 1.1 and to 0.1.\<close>

lemma js_times_examples:
  "js_times 350 (2476979795053773 / 2251799813685248) = 6772991627100161 / 17592186044416"
  "js_times 568 (2476979795053773 / 2251799813685248) = 5495798920275559 / 8796093022208"
  "js_times 350 (3602879701896397 / 36028797018963968) = 35"
  "js_times 568 (3602879701896397 / 36028797018963968) = 7993889338582631 / 140737488355328"
proof -
  have f: "\<lfloor>(433471464134410275 :: real) / 64\<rfloor> = 6772991627100160"
    "\<lfloor>(175865565448817883 :: real) / 32\<rfloor> = 5495798920275558"
    "\<lfloor>(630503947831869475 :: real) / 128\<rfloor> = 4925812092436480"
    "\<lfloor>(255804458834644187 :: real) / 32\<rfloor> = 7993889338582630"
    by simp_all
  have q: "round_half_even (433471464134410275 / 64) = 6772991627100161"
    "round_half_even (175865565448817883 / 32) = 5495798920275559"
    "round_half_even (630503947831869475 / 128) = 4925812092436480"
    "round_half_even (255804458834644187 / 32) = 7993889338582631"
    unfolding round_half_even_def Let_def f by simp_all
  show "js_times 350 (2476979795053773 / 2251799813685248) = 6772991627100161 / 17592186044416"
    unfolding js_times_def by (subst double_round_up[where k = 8]) (simp_all add: q)
  show "js_times 568 (2476979795053773 / 2251799813685248) = 5495798920275559 / 8796093022208"
    unfolding js_times_def by (subst double_round_up[where k = 9]) (simp_all add: q)
  show "js_times 350 (3602879701896397 / 36028797018963968) = 35"
    unfolding js_times_def by (subst double_round_up[where k = 5]) (simp_all add: q)
  show "js_times 568 (3602879701896397 / 36028797018963968) = 7993889338582631 / 140737488355328"
    unfolding js_times_def by (subst double_round_up[where k = 5]) (simp_all add: q)
qed

lemma fee_examples:
  "\<lceil>js_times 350 (2476979795053773 / 2251799813685248)\<rceil> = 386"
  "\<lceil>js_times 568 (2476979795053773 / 2251799813685248)\<rceil> = 625"
  "\<lceil>js_times 350 (3602879701896397 / 36028797018963968)\<rceil> = 35"
  "\<lceil>js_times 568 (3602879701896397 / 36028797018963968)\<rceil> = 57"
  "\<lceil>350 * (3602879701896397 / 36028797018963968 :: real)\<rceil> = 36"
  "\<lceil>350 * (2476979795053773 / 2251799813685248 :: real)\<rceil> = 386"
  unfolding js_times_examples
  by (rule ceiling_unique; simp)+

lemma nearest_doubles:
  "double_round (11 / 10) = 2476979795053773 / 2251799813685248"
  "double_round (1 / 10) = 3602879701896397 / 36028797018963968"
  "double_round (2476979795053773 / 2251799813685248) = 2476979795053773 / 2251799813685248"
  "double_round (3602879701896397 / 36028797018963968) = 3602879701896397 / 36028797018963968"
proof -
  have f: "\<lfloor>(24769797950537728 :: real) / 5\<rfloor> = 4953959590107545"
    "\<lfloor>(36028797018963968 :: real) / 5\<rfloor> = 7205759403792793"
    by simp_all
  have q: "round_half_even (24769797950537728 / 5) = 4953959590107546"
    "round_half_even (36028797018963968 / 5) = 7205759403792794"
    unfolding round_half_even_def Let_def f by simp_all
  have i: "round_half_even 4953959590107546 = 4953959590107546"
    "round_half_even 7205759403792794 = 7205759403792794"
    using round_half_even_of_int[of 4953959590107546] round_half_even_of_int[of 7205759403792794]
    by simp_all
  show "double_round (11 / 10) = 2476979795053773 / 2251799813685248"
    by (subst double_round_up[where k = 0]) (simp_all add: q)
  show "double_round (1 / 10) = 3602879701896397 / 36028797018963968"
    by (subst double_round_down[where k = 4]) (simp_all add: q)
  show "double_round (2476979795053773 / 2251799813685248) = 2476979795053773 / 2251799813685248"
    by (subst double_round_up[where k = 0]) (simp_all add: i)
  show "double_round (3602879701896397 / 36028797018963968) = 3602879701896397 / 36028797018963968"
    by (subst double_round_down[where k = 4]) (simp_all add: i)
qed

lemma js_times_of_int:
  assumes "\<bar>a * b\<bar> < 2 ^ 53"
  shows "js_times (of_int a) (of_int b) = of_int (a * b)"
  using double_round_of_int[OF assms] by (simp add: js_times_def)

subsection \<open>Fees and amounts\<close>

record estimate_result =
  chunkSize :: nat
  chunkNumber :: nat
  chunkPreTxFee :: int
  indexPreTxFee :: int
  perChunkFee :: int
  totalFee :: int

record flow_amounts =
  chunkPreTxBuildFee :: int
  indexPreTxBuildFee :: int
  chunkPreTxOutputAmount :: int
  indexPreTxOutputAmount :: int
  mergeTxFee :: int
  totalRequiredAmount :: int

text \<open>The block between the confirmation and the call of \<^verbatim>\<open>getWalletUTXOs\<close>.\<close>

definition flow_amounts_of :: "chain_store \<Rightarrow> estimate_result \<Rightarrow> flow_amounts" where
  "flow_amounts_of chainStore estimateResult =
     (let preTxBaseSize = (200 :: int);
          preTxInputSize = (150 :: int);
          preTxOutputSize = (34 :: int);
          feeRate = feeRate_of chainStore;
          chunkPreTxSize = preTxBaseSize + preTxInputSize;
          chunkPreTxBuildFee' = \<lceil>js_times (of_int chunkPreTxSize) feeRate\<rceil>;
          indexPreTxSize = preTxBaseSize + preTxInputSize;
          indexPreTxBuildFee' = \<lceil>js_times (of_int indexPreTxSize) feeRate\<rceil>;
          chunkPreTxOutputAmount' = chunkPreTxFee estimateResult + chunkPreTxBuildFee';
          indexPreTxOutputAmount' = indexPreTxFee estimateResult + indexPreTxBuildFee';
          mergeTxBaseSize = (200 :: int);
          mergeTxInputSize = (150 :: int);
          mergeTxOutputSize = (34 :: int);
          estimatedMergeTxInputs = (2 :: int);
          mergeTxSize = mergeTxBaseSize + (mergeTxInputSize * estimatedMergeTxInputs)
                          + (mergeTxOutputSize * 2);
          mergeTxFee' = \<lceil>js_times (of_int mergeTxSize) feeRate\<rceil>
      in \<lparr>chunkPreTxBuildFee = chunkPreTxBuildFee',
           indexPreTxBuildFee = indexPreTxBuildFee',
           chunkPreTxOutputAmount = chunkPreTxOutputAmount',
           indexPreTxOutputAmount = indexPreTxOutputAmount',
           mergeTxFee = mergeTxFee',
           totalRequiredAmount = chunkPreTxOutputAmount' + indexPreTxOutputAmount' + mergeTxFee'\<rparr>)"

text \<open>The amounts at the fee rates 1.5 and 1, which are doubles, as are their products.\<close>

lemma js_times_exact_examples:
  "js_times 350 (3 / 2) = 525" "js_times 568 (3 / 2) = 852"
  "js_times 350 1 = 350" "js_times 568 1 = 568"
  using double_round_of_int[of 525] double_round_of_int[of 852]
    double_round_of_int[of 350] double_round_of_int[of 568]
  by (simp_all add: js_times_def)

lemma flow_amounts_demo:
  "flow_amounts_of \<lparr>mvcFeeRate = Some (3 / 2)\<rparr>
      \<lparr>chunkSize = 1048576, chunkNumber = 3, chunkPreTxFee = 10000,
       indexPreTxFee = 2000, perChunkFee = 3000, totalFee = 12000\<rparr> =
     \<lparr>chunkPreTxBuildFee = 525, indexPreTxBuildFee = 525, chunkPreTxOutputAmount = 10525,
      indexPreTxOutputAmount = 2525, mergeTxFee = 852, totalRequiredAmount = 13902\<rparr>"
  by (simp add: flow_amounts_of_def feeRate_of_def Let_def js_times_exact_examples)

subsection \<open>The progress timer of the synchronous branch\<close>

text \<open>
  The variables the interval callback closes over; \<open>intervalActive\<close> says whether the
  interval set by \<^verbatim>\<open>setInterval\<close> is still scheduled (\<^verbatim>\<open>clearInterval\<close> has not been called
  on it).  Time is counted in firings of the 1000 ms interval.
\<close>

record progress_timer =
  currentProgress :: real
  elapsedSeconds :: nat
  intervalActive :: bool
  isApiReturned :: bool

definition baseProgress :: real where
  "baseProgress = 50"

definition progressPerSecond :: "nat \<Rightarrow> real" where
  "progressPerSecond chunkedUploadChunkNumber =
     (let uploadProgressRange = (40 :: real);
          totalTransactions = real chunkedUploadChunkNumber + 1;
          estimatedTotalSeconds = totalTransactions * 3
      in uploadProgressRange / estimatedTotalSeconds)"

definition start_timer :: progress_timer where
  "start_timer = \<lparr>currentProgress = baseProgress, elapsedSeconds = 0,
                   intervalActive = True, isApiReturned = False\<rparr>"

text \<open>The callback passed to \<^verbatim>\<open>setInterval\<close>.\<close>

definition interval_callback :: "nat \<Rightarrow> progress_timer \<Rightarrow> progress_timer" where
  "interval_callback chunkedUploadChunkNumber t =
     (if isApiReturned t then t\<lparr>intervalActive := False\<rparr>
      else
        let elapsed = elapsedSeconds t + 1;
            progress = baseProgress + progressPerSecond chunkedUploadChunkNumber * real elapsed
        in if progress \<ge> 90
           then t\<lparr>elapsedSeconds := elapsed, currentProgress := 90, intervalActive := False\<rparr>
           else t\<lparr>elapsedSeconds := elapsed, currentProgress := progress\<rparr>)"

text \<open>One second passes: the runtime calls the callback if the interval is still scheduled.\<close>

definition tick :: "nat \<Rightarrow> progress_timer \<Rightarrow> progress_timer" where
  "tick chunkedUploadChunkNumber t =
     (if intervalActive t then interval_callback chunkedUploadChunkNumber t else t)"

text \<open>
  What both the \<^verbatim>\<open>try\<close> and the \<^verbatim>\<open>catch\<close> around \<^verbatim>\<open>await chunkedUpload(...)\<close> do when the
  request settles.
\<close>

definition request_settled :: "progress_timer \<Rightarrow> progress_timer" where
  "request_settled t = t\<lparr>isApiReturned := True, intervalActive := False\<rparr>"

text \<open>
  The \<^verbatim>\<open>await\<close> of the synchronous branch: the interval fires \<open>seconds\<close> times while the
  request is pending, then the request settles with \<open>outcome\<close>, which is returned or
  rethrown as it is.
\<close>

definition await_with_progress ::
  "nat \<Rightarrow> nat \<Rightarrow> error + 'a \<Rightarrow> (error + 'a) \<times> progress_timer"
where
  "await_with_progress chunkedUploadChunkNumber seconds outcome =
     (outcome, request_settled ((tick chunkedUploadChunkNumber ^^ seconds) start_timer))"

lemma tick_progress:
  "(tick n ^^ k) start_timer =
     \<lparr>currentProgress = 50 + progressPerSecond n * real (min k (3 * (n + 1))),
      elapsedSeconds = min k (3 * (n + 1)),
      intervalActive = (k < 3 * (n + 1)),
      isApiReturned = False\<rparr>"
proof (induction k)
  case 0
  then show ?case by (simp add: start_timer_def baseProgress_def)
next
  case (Suc k)
  have pps: "progressPerSecond n * real (3 * (n + 1)) = 40"
    by (simp add: progressPerSecond_def Let_def field_simps)
  have mono: "progressPerSecond n * real e < 40" if "e < 3 * (n + 1)" for e
  proof -
    have "0 < progressPerSecond n" by (simp add: progressPerSecond_def Let_def)
    then have "progressPerSecond n * real e < progressPerSecond n * real (3 * (n + 1))"
      using that by (simp only: mult_less_cancel_left_pos of_nat_less_iff)
    then show ?thesis using pps by simp
  qed
  show ?case
  proof (cases "k < 3 * (n + 1)")
    case True
    show ?thesis
    proof (cases "Suc k < 3 * (n + 1)")
      case True
      then show ?thesis
        using Suc mono[OF True]
        by (simp add: tick_def interval_callback_def baseProgress_def Let_def min_def)
    next
      case False
      with True have eq: "Suc k = 3 * (n + 1)" by simp
      have "progressPerSecond n * real (Suc k) = 40" using pps eq by simp
      then have "progressPerSecond n * (1 + real k) = 40" by (simp add: add.commute)
      then show ?thesis
        using Suc True eq
        by (simp add: tick_def interval_callback_def baseProgress_def Let_def min_def pps)
    qed
  next
    case False
    then show ?thesis
      using Suc by (simp add: tick_def min_def)
  qed
qed


subsection \<open>The flow\<close>

text \<open>
  The single funding output handed to a pre-transaction builder.  Its script is the
  script the merge step reported, \<^verbatim>\<open>null\<close> (\<open>None\<close>) when the output was not matched.
\<close>

record funding_utxo =
  funding_txId :: string
  funding_outputIndex :: int
  funding_script :: "string option"
  funding_satoshis :: int

record funding_data =
  funding_utxos :: "funding_utxo list"
  funding_totalAmount :: int

text \<open>The \<^verbatim>\<open>data\<close> of the synchronous \<^verbatim>\<open>chunked-upload\<close> response.\<close>

record upload_result =
  upload_status :: string
  upload_message :: "string option"
  upload_indexTxId :: string

text \<open>
  What the awaited collaborators of one run resolve to.  Each awaited function of the
  hook is a function of the arguments the flow passes to it, to its result or the error
  it throws; \<open>seconds\<close> is the time the synchronous request takes, in firings of the
  progress interval.  The toast instance is present or not; toasts are recorded.
\<close>

record flow_env =
  toast :: bool
  chainStore :: "chain_store option"
  userStore :: "user_info option"
  uploadFileToOSS_result :: "file_info \<Rightarrow> error + string"
  estimateChunkedUploadFee_result :: "file_info \<Rightarrow> string \<Rightarrow> error + estimate_result"
  showChunkedUploadConfirmation_result :: "file_info \<Rightarrow> estimate_result \<Rightarrow> bool"
  getWalletUTXOs_result :: "int \<Rightarrow> error + utxo_data"
  buildChunkedUploadMergeTx_result :: "utxo_data \<Rightarrow> int \<Rightarrow> int \<Rightarrow> int \<Rightarrow> error + merge_result"
  buildChunkFundingPreTx_result :: "funding_data \<Rightarrow> int \<Rightarrow> error + string"
  buildIndexPreTx_result :: "funding_data \<Rightarrow> int \<Rightarrow> error + string"
  createChunkedUploadTask_result :: "file_info \<Rightarrow> string \<Rightarrow> string \<Rightarrow> string \<Rightarrow> string \<Rightarrow> error + unit"
  chunkedUpload_result :: "file_info \<Rightarrow> string \<Rightarrow> string \<Rightarrow> string \<Rightarrow> string \<Rightarrow> error + upload_result option"
  seconds :: nat

datatype flow_call =
    CallUploadFileToOSS file_info
  | CallEstimateChunkedUploadFee file_info string
  | CallShowChunkedUploadConfirmation
  | CallGetWalletUTXOs int
  | CallBuildChunkedUploadMergeTx utxo_data int int int
  | CallBuildChunkFundingPreTx funding_data int
  | CallBuildIndexPreTx funding_data int
  | CallCreateChunkedUploadTask string string string string
  | CallChunkedUpload string string string string
  | CallLoadChunkTasks

record flow_state =
  toasts :: "(string \<times> string) list"
  calls :: "flow_call list"
  timer :: "progress_timer option"

datatype flow_value = Undefined | Uploaded string string

datatype flow_outcome = Rejected error | Resolved flow_value

definition showToast :: "string \<Rightarrow> string \<Rightarrow> flow_state \<Rightarrow> flow_state" where
  "showToast msg kind st = st\<lparr>toasts := toasts st @ [(msg, kind)]\<rparr>"

definition called :: "flow_call \<Rightarrow> flow_state \<Rightarrow> flow_state" where
  "called c st = st\<lparr>calls := calls st @ [c]\<rparr>"

definition flowLabel :: string where
  "flowLabel = ''Async Chunked Upload Task''"

definition funding_of :: "string \<Rightarrow> int \<Rightarrow> string option \<Rightarrow> int \<Rightarrow> funding_data" where
  "funding_of mergeId outputIdx scriptHex amount =
     \<lparr>funding_utxos = [\<lparr>funding_txId = mergeId, funding_outputIndex = outputIdx,
                         funding_script = scriptHex, funding_satoshis = amount\<rparr>],
      funding_totalAmount = amount\<rparr>"

text \<open>\<^verbatim>\<open>String.prototype.includes\<close>.\<close>

fun str_includes :: "string \<Rightarrow> string \<Rightarrow> bool" where
  "str_includes [] sub = (sub = [])"
| "str_includes (c # cs) sub = (take (length sub) (c # cs) = sub \<or> str_includes cs sub)"

text \<open>
  The synchronous branch: the timer runs while the request is pending; a \<^verbatim>\<open>failed\<close> status
  is thrown as an error; a response without \<^verbatim>\<open>data\<close> makes the read of its status throw.
\<close>

definition synchronous_upload ::
  "flow_env \<Rightarrow> nat \<Rightarrow> file_info \<Rightarrow> string \<Rightarrow> string \<Rightarrow> string \<Rightarrow> string \<Rightarrow> flow_state \<Rightarrow>
   (error + flow_value) \<times> flow_state"
where
  "synchronous_upload env chunkedUploadChunkNumber file storageKey chunkPreTxHex indexPreTxHex
       mergeHex st =
     (let st = called (CallChunkedUpload storageKey chunkPreTxHex indexPreTxHex mergeHex) st;
          (awaited, t) = await_with_progress chunkedUploadChunkNumber (seconds env)
                           (chunkedUpload_result env file storageKey chunkPreTxHex indexPreTxHex
                              mergeHex);
          st = st\<lparr>timer := Some t\<rparr>
      in case awaited of
           Inl e \<Rightarrow> (Inl e, st)
         | Inr None \<Rightarrow>
             (Inl (Thrown ''Cannot read properties of undefined (reading status)''), st)
         | Inr (Some uploadResult) \<Rightarrow>
             if upload_status uploadResult = ''failed'' then
               (Inl (UploadFailed
                  (case upload_message uploadResult of
                     None \<Rightarrow> ''Upload failed with unknown error''
                   | Some m \<Rightarrow> if m = [] then ''Upload failed with unknown error'' else m)), st)
             else
               (Inr (Uploaded (upload_indexTxId uploadResult)
                       (upload_indexTxId uploadResult @ ''i0'')),
                showToast ''File uploaded successfully!'' ''success'' st))"

text \<open>The body of the outer \<^verbatim>\<open>try\<close> block.\<close>

definition flow_try ::
  "flow_env \<Rightarrow> chain_store \<Rightarrow> file_info \<Rightarrow> bool \<Rightarrow> (error + flow_value) \<times> flow_state"
where
  "flow_try env chain file asynchronous =
     (let st = showToast (''Starting '' @ flowLabel @ ''...'') ''info''
                 \<lparr>toasts = [], calls = [], timer = None\<rparr>;
          st = called (CallUploadFileToOSS file) st
      in case uploadFileToOSS_result env file of
        Inl e \<Rightarrow> (Inl e, st)
      | Inr storageKey \<Rightarrow> (
      let st = called (CallEstimateChunkedUploadFee file storageKey) st in
      case estimateChunkedUploadFee_result env file storageKey of
        Inl e \<Rightarrow> (Inl e, st)
      | Inr estimateResult \<Rightarrow> (
      let chunkedUploadChunkNumber = chunkNumber estimateResult;
          st = called CallShowChunkedUploadConfirmation st
      in if \<not> showChunkedUploadConfirmation_result env file estimateResult then (Inr Undefined, st)
      else
      let amounts = flow_amounts_of chain estimateResult;
          st = called (CallGetWalletUTXOs (totalRequiredAmount amounts)) st
      in case getWalletUTXOs_result env (totalRequiredAmount amounts) of
        Inl e \<Rightarrow> (Inl e, st)
      | Inr allUtxos \<Rightarrow> (
      let st = showToast ''Please confirm merge transaction in wallet...'' ''info'' st;
          st = called (CallBuildChunkedUploadMergeTx allUtxos (chunkPreTxOutputAmount amounts)
                         (indexPreTxOutputAmount amounts) (mergeTxFee amounts)) st
      in case buildChunkedUploadMergeTx_result env allUtxos (chunkPreTxOutputAmount amounts)
                (indexPreTxOutputAmount amounts) (mergeTxFee amounts) of
        Inl e \<Rightarrow> (Inl e, st)
      | Inr mergeResult \<Rightarrow> (
      let st = showToast ''Please confirm pre-transactions in wallet...'' ''info'' st;
          chunkPreTxUtxo = funding_of (mergeTxId mergeResult) (chunkPreTxOutputIndex mergeResult)
                             (chunkPreTxScript mergeResult) (chunkPreTxOutputAmount amounts);
          st = called (CallBuildChunkFundingPreTx chunkPreTxUtxo (chunkPreTxFee estimateResult)) st
      in case buildChunkFundingPreTx_result env chunkPreTxUtxo (chunkPreTxFee estimateResult) of
        Inl e \<Rightarrow> (Inl e, st)
      | Inr chunkPreTxHex \<Rightarrow> (
      let indexPreTxUtxo = funding_of (mergeTxId mergeResult) (indexPreTxOutputIndex mergeResult)
                             (indexPreTxScript mergeResult) (indexPreTxOutputAmount amounts);
          st = called (CallBuildIndexPreTx indexPreTxUtxo (indexPreTxFee estimateResult)) st
      in case buildIndexPreTx_result env indexPreTxUtxo (indexPreTxFee estimateResult) of
        Inl e \<Rightarrow> (Inl e, st)
      | Inr indexPreTxHex \<Rightarrow> (
      if asynchronous then
        let st = called (CallCreateChunkedUploadTask storageKey chunkPreTxHex indexPreTxHex
                           (mergeTxHex mergeResult)) st
        in case createChunkedUploadTask_result env file storageKey chunkPreTxHex indexPreTxHex
                  (mergeTxHex mergeResult) of
          Inl e \<Rightarrow> (Inl e, st)
        | Inr _ \<Rightarrow>
            (Inr Undefined,
             called CallLoadChunkTasks
               (showToast ''Async chunk upload task created! Monitor progress in task list.''
                  ''success'' st))
      else
        synchronous_upload env chunkedUploadChunkNumber file storageKey chunkPreTxHex indexPreTxHex
          (mergeTxHex mergeResult) st)))))))"

text \<open>The \<^verbatim>\<open>catch\<close> block of the flow.\<close>

definition flow_catch :: "error \<Rightarrow> flow_state \<Rightarrow> flow_state" where
  "flow_catch e st =
     (if error_message e \<noteq> [] \<and> str_includes (error_message e) ''user cancelled''
      then showToast (flowLabel @ '' cancelled'') ''warning'' st
      else showToast (flowLabel @ '' failed: '' @ error_message e) ''error'' st)"

definition runChunkedUploadFlow :: "flow_env \<Rightarrow> file_info \<Rightarrow> bool \<Rightarrow> flow_outcome \<times> flow_state" where
  "runChunkedUploadFlow env file asynchronous =
     (case (toast env, chainStore env, userStore env) of
        (True, Some chain, Some user) \<Rightarrow>
          (case flow_try env chain file asynchronous of
             (Inl e, st) \<Rightarrow> (Resolved Undefined, flow_catch e st)
           | (Inr v, st) \<Rightarrow> (Resolved v, st))
      | _ \<Rightarrow> (Rejected DependenciesUnavailable, \<lparr>toasts = [], calls = [], timer = None\<rparr>))"

lemma funding_of_single:
  "length (funding_utxos (funding_of mergeId outputIdx scriptHex amount)) = 1"
  by (simp add: funding_of_def)

lemma calls_called [simp]: "calls (called c st) = calls st @ [c]"
  by (simp add: called_def)

lemma calls_showToast [simp]: "calls (showToast m k st) = calls st"
  by (simp add: showToast_def)

lemma calls_flow_catch [simp]: "calls (flow_catch e st) = calls st"
  by (simp add: flow_catch_def)

lemma calls_synchronous_upload [simp]:
  "calls (snd (synchronous_upload env n file k c1 c2 m st)) = calls st @ [CallChunkedUpload k c1 c2 m]"
  by (auto simp: synchronous_upload_def await_with_progress_def Let_def
      split: sum.splits option.splits)

lemma flow_try_requests_total:
  assumes "uploadFileToOSS_result env file = Inr storageKey"
    and "estimateChunkedUploadFee_result env file storageKey = Inr estimateResult"
    and "showChunkedUploadConfirmation_result env file estimateResult"
  shows "\<exists>rest. calls (snd (flow_try env chain file asynchronous)) =
           [CallUploadFileToOSS file, CallEstimateChunkedUploadFee file storageKey,
            CallShowChunkedUploadConfirmation,
            CallGetWalletUTXOs (totalRequiredAmount (flow_amounts_of chain estimateResult))] @ rest"
  using assms
  by (auto simp: flow_try_def Let_def split: sum.splits)

text \<open>
  Claim C5.  With \<open>feeRate\<close> the chain store's rate, or 1 when that rate is falsy, the build
  fee of each pre-transaction is \<^verbatim>\<open>Math.ceil((200 + 150 * 1) * feeRate)\<close>, the merge fee is
  \<^verbatim>\<open>Math.ceil((200 + 150 * 2 + 34 * 2) * feeRate)\<close>, the products being products of
  JavaScript numbers; each output amount is the backend's estimated fee plus the build
  fee, and the total required amount is the sum of the two output amounts and the merge
  fee.  In a run that reaches the UTXO selection (upload and estimate succeed, the user
  confirms), that total is the argument of \<^verbatim>\<open>getWalletUTXOs\<close>.  Compared with the ceiling
  of the exact product, a fee is that ceiling or one less (for products below \<open>2\<^sup>5\<^sup>3\<close>), and
  it is the product itself when the rate is an integer.  The rates 1.1 and 0.1 are the
  doubles \<open>2476979795053773 / 2\<^sup>5\<^sup>1\<close> and \<open>3602879701896397 / 2\<^sup>5\<^sup>5\<close>: there the build fees are
  386 and 35 and the merge fees 625 and 57, while the exact product of 350 and the
  double 0.1 has ceiling 36.
\<close>

theorem flow_fee_amounts:
  fixes chain :: chain_store and estimateResult :: estimate_result
  defines "feeRate \<equiv> feeRate_of chain"
  defines "amounts \<equiv> flow_amounts_of chain estimateResult"
  assumes "toast env" and "chainStore env = Some chain" and "userStore env = Some user"
    and "uploadFileToOSS_result env file = Inr storageKey"
    and "estimateChunkedUploadFee_result env file storageKey = Inr estimateResult"
    and "showChunkedUploadConfirmation_result env file estimateResult"
  shows "feeRate = (case mvcFeeRate chain of None \<Rightarrow> 1 | Some r \<Rightarrow> if r = 0 then 1 else r)
       \<and> chunkPreTxBuildFee amounts = \<lceil>js_times (200 + 150 * 1) feeRate\<rceil>
       \<and> indexPreTxBuildFee amounts = \<lceil>js_times (200 + 150 * 1) feeRate\<rceil>
       \<and> mergeTxFee amounts = \<lceil>js_times (200 + 150 * 2 + 34 * 2) feeRate\<rceil>
       \<and> chunkPreTxOutputAmount amounts = chunkPreTxFee estimateResult + chunkPreTxBuildFee amounts
       \<and> indexPreTxOutputAmount amounts = indexPreTxFee estimateResult + indexPreTxBuildFee amounts
       \<and> totalRequiredAmount amounts =
           chunkPreTxOutputAmount amounts + indexPreTxOutputAmount amounts + mergeTxFee amounts
       \<and> (\<exists>rest. calls (snd (runChunkedUploadFlow env file asynchronous)) =
             [CallUploadFileToOSS file, CallEstimateChunkedUploadFee file storageKey,
              CallShowChunkedUploadConfirmation,
              CallGetWalletUTXOs (chunkPreTxFee estimateResult + \<lceil>js_times 350 feeRate\<rceil>
                 + (indexPreTxFee estimateResult + \<lceil>js_times 350 feeRate\<rceil>)
                 + \<lceil>js_times 568 feeRate\<rceil>)] @ rest)
       \<and> (\<bar>568 * feeRate\<bar> < 2 ^ 53 \<longrightarrow>
              \<lceil>350 * feeRate\<rceil> - 1 \<le> chunkPreTxBuildFee amounts
              \<and> chunkPreTxBuildFee amounts \<le> \<lceil>350 * feeRate\<rceil>
              \<and> \<lceil>568 * feeRate\<rceil> - 1 \<le> mergeTxFee amounts
              \<and> mergeTxFee amounts \<le> \<lceil>568 * feeRate\<rceil>)
       \<and> (\<forall>z. feeRate = of_int z \<and> \<bar>z\<bar> < 2 ^ 43 \<longrightarrow>
              chunkPreTxBuildFee amounts = 350 * z \<and> mergeTxFee amounts = 568 * z)
       \<and> double_round (11 / 10) = 2476979795053773 / 2251799813685248
       \<and> double_round (1 / 10) = 3602879701896397 / 36028797018963968
       \<and> \<lceil>js_times 350 (2476979795053773 / 2251799813685248)\<rceil> = 386
       \<and> \<lceil>js_times 568 (2476979795053773 / 2251799813685248)\<rceil> = 625
       \<and> \<lceil>js_times 350 (3602879701896397 / 36028797018963968)\<rceil> = 35
       \<and> \<lceil>js_times 568 (3602879701896397 / 36028797018963968)\<rceil> = 57
       \<and> \<lceil>350 * (3602879701896397 / 36028797018963968 :: real)\<rceil> = 36"
proof -
  have fees: "chunkPreTxBuildFee amounts = \<lceil>js_times 350 feeRate\<rceil>"
    "indexPreTxBuildFee amounts = \<lceil>js_times 350 feeRate\<rceil>"
    "mergeTxFee amounts = \<lceil>js_times 568 feeRate\<rceil>"
    "chunkPreTxOutputAmount amounts = chunkPreTxFee estimateResult + \<lceil>js_times 350 feeRate\<rceil>"
    "indexPreTxOutputAmount amounts = indexPreTxFee estimateResult + \<lceil>js_times 350 feeRate\<rceil>"
    "totalRequiredAmount amounts = chunkPreTxFee estimateResult + \<lceil>js_times 350 feeRate\<rceil>
        + (indexPreTxFee estimateResult + \<lceil>js_times 350 feeRate\<rceil>) + \<lceil>js_times 568 feeRate\<rceil>"
    by (simp_all add: amounts_def feeRate_def flow_amounts_of_def Let_def)
  from flow_try_requests_total[OF assms(6,7,8), of chain asynchronous]
  obtain rest where rest: "calls (snd (flow_try env chain file asynchronous)) =
           [CallUploadFileToOSS file, CallEstimateChunkedUploadFee file storageKey,
            CallShowChunkedUploadConfirmation,
            CallGetWalletUTXOs (totalRequiredAmount amounts)] @ rest"
    unfolding amounts_def by blast
  have "calls (snd (runChunkedUploadFlow env file asynchronous)) =
          calls (snd (flow_try env chain file asynchronous))"
    using assms(3,4,5) by (simp add: runChunkedUploadFlow_def split: prod.splits sum.splits)
  with rest have flow: "\<exists>rest. calls (snd (runChunkedUploadFlow env file asynchronous)) =
             [CallUploadFileToOSS file, CallEstimateChunkedUploadFee file storageKey,
              CallShowChunkedUploadConfirmation,
              CallGetWalletUTXOs (chunkPreTxFee estimateResult + \<lceil>js_times 350 feeRate\<rceil>
                 + (indexPreTxFee estimateResult + \<lceil>js_times 350 feeRate\<rceil>)
                 + \<lceil>js_times 568 feeRate\<rceil>)] @ rest"
    using fees(6) by simp
  have rate: "feeRate = (case mvcFeeRate chain of None \<Rightarrow> 1 | Some r \<Rightarrow> if r = 0 then 1 else r)"
    by (simp add: feeRate_def feeRate_of_def)
  have near: "\<lceil>350 * feeRate\<rceil> - 1 \<le> chunkPreTxBuildFee amounts
              \<and> chunkPreTxBuildFee amounts \<le> \<lceil>350 * feeRate\<rceil>
              \<and> \<lceil>568 * feeRate\<rceil> - 1 \<le> mergeTxFee amounts
              \<and> mergeTxFee amounts \<le> \<lceil>568 * feeRate\<rceil>"
    if safe: "\<bar>568 * feeRate\<bar> < 2 ^ 53"
  proof -
    have "\<bar>350 * feeRate\<bar> \<le> \<bar>568 * feeRate\<bar>" by (simp add: abs_mult mult_right_mono)
    then have safe': "\<bar>350 * feeRate\<bar> < 2 ^ 53" using safe by (rule le_less_trans)
    show ?thesis
      unfolding fees js_times_def
      using ceiling_double_round[OF safe] ceiling_double_round[OF safe'] by simp
  qed
  have ints: "chunkPreTxBuildFee amounts = 350 * z \<and> mergeTxFee amounts = 568 * z"
    if z: "feeRate = of_int z \<and> \<bar>z\<bar> < 2 ^ 43" for z
  proof -
    have b: "\<bar>568 * z\<bar> < 2 ^ 53" "\<bar>350 * z\<bar> < 2 ^ 53" using z by (simp_all add: abs_mult)
    have "js_times 350 feeRate = of_int (350 * z)" "js_times 568 feeRate = of_int (568 * z)"
      using js_times_of_int[OF b(2)] js_times_of_int[OF b(1)] z by simp_all
    then show ?thesis unfolding fees by (simp only: ceiling_of_int simp_thms)
  qed
  show ?thesis
    using rate flow fees near ints fee_examples(1,2,3,4,5) nearest_doubles(1,2) by simp
qed


definition demo_estimate :: estimate_result where
  "demo_estimate = \<lparr>chunkSize = 1048576, chunkNumber = 3, chunkPreTxFee = 10000,
     indexPreTxFee = 2000, perChunkFee = 3000, totalFee = 12000\<rparr>"

definition demo_merge_result :: merge_result where
  "demo_merge_result = \<lparr>chunkPreTxOutputIndex = 0, indexPreTxOutputIndex = 1,
     chunkPreTxScript = Some ''76a914addr88ac'', indexPreTxScript = Some ''76a914addr88ac'',
     mergeTxId = ''mergeid'', mergeTxHex = ''0a00''\<rparr>"

text \<open>
  A run with fee rate 1.5 in which every step succeeds but the one given: \<open>failing\<close> is the
  error the wallet raises in the merge step (\<open>None\<close>: it pays).
\<close>

definition demo_env :: "error option \<Rightarrow> flow_env" where
  "demo_env failing =
     \<lparr>toast = True, chainStore = Some \<lparr>mvcFeeRate = Some (3 / 2)\<rparr>, userStore = Some demo_user,
      uploadFileToOSS_result = (\<lambda>f. Inr ''k1''),
      estimateChunkedUploadFee_result = (\<lambda>f k. Inr demo_estimate),
      showChunkedUploadConfirmation_result = (\<lambda>f e. True),
      getWalletUTXOs_result = (\<lambda>n. Inr demo_utxo_data),
      buildChunkedUploadMergeTx_result =
        (\<lambda>u a b c. case failing of
                      None \<Rightarrow> Inr demo_merge_result
                    | Some e \<Rightarrow> Inl (Wrapped ''Failed to build merge transaction: '' e)),
      buildChunkFundingPreTx_result = (\<lambda>u f. Inr ''c0''),
      buildIndexPreTx_result = (\<lambda>u f. Inr ''1d''),
      createChunkedUploadTask_result = (\<lambda>f k c i m. Inr ()),
      chunkedUpload_result =
        (\<lambda>f k c i m. Inr (Some \<lparr>upload_status = ''success'', upload_message = None,
                                  upload_indexTxId = ''abcd''\<rparr>)),
      seconds = 5\<rparr>"

text \<open>
  The amounts at the fee rate 1.5, and at the double nearest to 1.1, where the exact
  products 385.00000000000003 and 624.8000000000001 are rounded before the ceiling is taken.
\<close>

theorem flow_fee_amounts_witness:
  "flow_amounts_of \<lparr>mvcFeeRate = Some (3 / 2)\<rparr> demo_estimate =
     \<lparr>chunkPreTxBuildFee = 525, indexPreTxBuildFee = 525, chunkPreTxOutputAmount = 10525,
      indexPreTxOutputAmount = 2525, mergeTxFee = 852, totalRequiredAmount = 13902\<rparr>
   \<and> take 4 (calls (snd (runChunkedUploadFlow (demo_env (Some (Thrown ''user cancelled''))) demo_file True))) =
       [CallUploadFileToOSS demo_file, CallEstimateChunkedUploadFee demo_file ''k1'',
        CallShowChunkedUploadConfirmation, CallGetWalletUTXOs 13902]
   \<and> flow_amounts_of \<lparr>mvcFeeRate = Some (2476979795053773 / 2251799813685248)\<rparr> demo_estimate =
     \<lparr>chunkPreTxBuildFee = 386, indexPreTxBuildFee = 386, chunkPreTxOutputAmount = 10386,
      indexPreTxOutputAmount = 2386, mergeTxFee = 625, totalRequiredAmount = 13397\<rparr>
   \<and> take 4 (calls (snd (runChunkedUploadFlow
        ((demo_env None)\<lparr>chainStore := Some \<lparr>mvcFeeRate = Some (2476979795053773 / 2251799813685248)\<rparr>\<rparr>)
        demo_file True))) =
       [CallUploadFileToOSS demo_file, CallEstimateChunkedUploadFee demo_file ''k1'',
        CallShowChunkedUploadConfirmation, CallGetWalletUTXOs 13397]"
proof -
  have a: "flow_amounts_of \<lparr>mvcFeeRate = Some (3 / 2)\<rparr> demo_estimate =
     \<lparr>chunkPreTxBuildFee = 525, indexPreTxBuildFee = 525, chunkPreTxOutputAmount = 10525,
      indexPreTxOutputAmount = 2525, mergeTxFee = 852, totalRequiredAmount = 13902\<rparr>"
    by (simp add: demo_estimate_def flow_amounts_demo)
  let ?r = "2476979795053773 / 2251799813685248 :: real"
  have r0: "?r \<noteq> 0" by simp
  note th = flow_fee_amounts [of "(demo_env None)\<lparr>chainStore := Some \<lparr>mvcFeeRate = Some ?r\<rparr>\<rparr>"
        "\<lparr>mvcFeeRate = Some ?r\<rparr>" demo_user demo_file "''k1''" demo_estimate True]
  have pre: "toast ((demo_env None)\<lparr>chainStore := Some \<lparr>mvcFeeRate = Some ?r\<rparr>\<rparr>)"
    "chainStore ((demo_env None)\<lparr>chainStore := Some \<lparr>mvcFeeRate = Some ?r\<rparr>\<rparr>) = Some \<lparr>mvcFeeRate = Some ?r\<rparr>"
    "userStore ((demo_env None)\<lparr>chainStore := Some \<lparr>mvcFeeRate = Some ?r\<rparr>\<rparr>) = Some demo_user"
    "uploadFileToOSS_result ((demo_env None)\<lparr>chainStore := Some \<lparr>mvcFeeRate = Some ?r\<rparr>\<rparr>) demo_file = Inr ''k1''"
    "estimateChunkedUploadFee_result ((demo_env None)\<lparr>chainStore := Some \<lparr>mvcFeeRate = Some ?r\<rparr>\<rparr>)
        demo_file ''k1'' = Inr demo_estimate"
    "showChunkedUploadConfirmation_result ((demo_env None)\<lparr>chainStore := Some \<lparr>mvcFeeRate = Some ?r\<rparr>\<rparr>)
        demo_file demo_estimate"
    by (simp_all add: demo_env_def)
  have fr: "feeRate_of \<lparr>mvcFeeRate = Some ?r\<rparr> = ?r"
    by (simp add: feeRate_of_def)
  note th' = th [OF pre, unfolded fr]
  have fees: "\<lceil>js_times 350 ?r\<rceil> = 386" "\<lceil>js_times 568 ?r\<rceil> = 625"
    using th' by blast+
  have b: "flow_amounts_of \<lparr>mvcFeeRate = Some ?r\<rparr> demo_estimate =
     \<lparr>chunkPreTxBuildFee = 386, indexPreTxBuildFee = 386, chunkPreTxOutputAmount = 10386,
      indexPreTxOutputAmount = 2386, mergeTxFee = 625, totalRequiredAmount = 13397\<rparr>"
    by (simp add: flow_amounts_of_def fr Let_def fees demo_estimate_def)
  from th' obtain rest where
    "calls (snd (runChunkedUploadFlow
        ((demo_env None)\<lparr>chainStore := Some \<lparr>mvcFeeRate = Some ?r\<rparr>\<rparr>) demo_file True)) =
       [CallUploadFileToOSS demo_file, CallEstimateChunkedUploadFee demo_file ''k1'',
        CallShowChunkedUploadConfirmation,
        CallGetWalletUTXOs (chunkPreTxFee demo_estimate + \<lceil>js_times 350 ?r\<rceil>
                 + (indexPreTxFee demo_estimate + \<lceil>js_times 350 ?r\<rceil>)
                 + \<lceil>js_times 568 ?r\<rceil>)] @ rest"
    by blast
  then have c: "take 4 (calls (snd (runChunkedUploadFlow
        ((demo_env None)\<lparr>chainStore := Some \<lparr>mvcFeeRate = Some ?r\<rparr>\<rparr>) demo_file True))) =
       [CallUploadFileToOSS demo_file, CallEstimateChunkedUploadFee demo_file ''k1'',
        CallShowChunkedUploadConfirmation, CallGetWalletUTXOs 13397]"
    by (simp add: fees demo_estimate_def)
  have d: "take 4 (calls (snd (runChunkedUploadFlow (demo_env (Some (Thrown ''user cancelled''))) demo_file True))) =
       [CallUploadFileToOSS demo_file, CallEstimateChunkedUploadFee demo_file ''k1'',
        CallShowChunkedUploadConfirmation, CallGetWalletUTXOs 13902]"
    using flow_fee_amounts [of "demo_env (Some (Thrown ''user cancelled''))"
        "\<lparr>mvcFeeRate = Some (3 / 2)\<rparr>" demo_user demo_file "''k1''" demo_estimate True]
    by (auto simp: demo_env_def feeRate_of_def demo_estimate_def js_times_exact_examples)
  show ?thesis using a b c d by simp
qed


lemma str_includes_empty [simp]: "str_includes [] ''user cancelled'' = False"
  by simp

lemma flow_catch_toast:
  "flow_catch e st =
     showToast (if str_includes (error_message e) ''user cancelled''
                then ''Async Chunked Upload Task cancelled''
                else ''Async Chunked Upload Task failed: '' @ error_message e)
               (if str_includes (error_message e) ''user cancelled'' then ''warning'' else ''error'') st"
  by (cases "error_message e = []") (simp_all add: flow_catch_def flowLabel_def)

text \<open>
  Where an error of the \<^verbatim>\<open>try\<close> block comes from: each awaited step that throws makes the
  block throw that error.
\<close>

lemma flow_try_step_errors:
  "uploadFileToOSS_result env file = Inl e \<Longrightarrow> fst (flow_try env chain file a) = Inl e"
  "uploadFileToOSS_result env file = Inr k \<Longrightarrow> estimateChunkedUploadFee_result env file k = Inl e
     \<Longrightarrow> fst (flow_try env chain file a) = Inl e"
  "uploadFileToOSS_result env file = Inr k \<Longrightarrow> estimateChunkedUploadFee_result env file k = Inr est
     \<Longrightarrow> showChunkedUploadConfirmation_result env file est
     \<Longrightarrow> getWalletUTXOs_result env (totalRequiredAmount (flow_amounts_of chain est)) = Inl e
     \<Longrightarrow> fst (flow_try env chain file a) = Inl e"
  "uploadFileToOSS_result env file = Inr k \<Longrightarrow> estimateChunkedUploadFee_result env file k = Inr est
     \<Longrightarrow> showChunkedUploadConfirmation_result env file est
     \<Longrightarrow> getWalletUTXOs_result env (totalRequiredAmount (flow_amounts_of chain est)) = Inr us
     \<Longrightarrow> buildChunkedUploadMergeTx_result env us (chunkPreTxOutputAmount (flow_amounts_of chain est))
           (indexPreTxOutputAmount (flow_amounts_of chain est)) (mergeTxFee (flow_amounts_of chain est)) = Inl e
     \<Longrightarrow> fst (flow_try env chain file a) = Inl e"
  by (simp_all add: flow_try_def Let_def)

text \<open>
  Claim C10.  When the toast, chain store and user store are present, the call never
  rejects: an error thrown anywhere in the \<^verbatim>\<open>try\<close> block is caught, reported by one toast
  (a warning \<open>cancelled\<close> when its message contains \<open>user cancelled\<close>, an error toast with the
  message otherwise) and the call resolves with \<^verbatim>\<open>undefined\<close>; a block that completes
  resolves with its value.  The call rejects exactly when one of the three dependencies
  is missing, and then with the dependency error.
\<close>

theorem runChunkedUploadFlow_catches_errors:
  "(toast env \<and> chainStore env = Some chain \<and> userStore env = Some user \<longrightarrow>
      (\<exists>v. fst (runChunkedUploadFlow env file asynchronous) = Resolved v)
      \<and> (\<forall>e st. flow_try env chain file asynchronous = (Inl e, st) \<longrightarrow>
            runChunkedUploadFlow env file asynchronous =
              (Resolved Undefined,
               st\<lparr>toasts := toasts st @
                  [if str_includes (error_message e) ''user cancelled''
                   then (''Async Chunked Upload Task cancelled'', ''warning'')
                   else (''Async Chunked Upload Task failed: '' @ error_message e, ''error'')]\<rparr>))
      \<and> (\<forall>v st. flow_try env chain file asynchronous = (Inr v, st) \<longrightarrow>
            runChunkedUploadFlow env file asynchronous = (Resolved v, st)))
   \<and> ((\<exists>e. fst (runChunkedUploadFlow env file asynchronous) = Rejected e)
        \<longleftrightarrow> \<not> toast env \<or> chainStore env = None \<or> userStore env = None)
   \<and> (\<forall>e. fst (runChunkedUploadFlow env file asynchronous) = Rejected e
        \<longrightarrow> e = DependenciesUnavailable)"
proof -
  have present: "toast env \<and> chainStore env = Some chain \<and> userStore env = Some user \<longrightarrow>
      runChunkedUploadFlow env file asynchronous =
        (case flow_try env chain file asynchronous of
           (Inl e, st) \<Rightarrow> (Resolved Undefined, flow_catch e st)
         | (Inr v, st) \<Rightarrow> (Resolved v, st))"
    by (simp add: runChunkedUploadFlow_def)
  have missing: "\<not> toast env \<or> chainStore env = None \<or> userStore env = None \<longrightarrow>
      fst (runChunkedUploadFlow env file asynchronous) = Rejected DependenciesUnavailable"
    by (auto simp: runChunkedUploadFlow_def split: option.splits bool.splits)
  have resolved: "toast env \<and> chainStore env \<noteq> None \<and> userStore env \<noteq> None \<longrightarrow>
      (\<exists>v. fst (runChunkedUploadFlow env file asynchronous) = Resolved v)"
    by (auto simp: runChunkedUploadFlow_def split: option.splits bool.splits prod.splits sum.splits)
  show ?thesis
  proof (intro conjI impI allI)
    assume "toast env \<and> chainStore env = Some chain \<and> userStore env = Some user"
    then show "\<exists>v. fst (runChunkedUploadFlow env file asynchronous) = Resolved v"
      using resolved by simp
  next
    fix e st
    assume d: "toast env \<and> chainStore env = Some chain \<and> userStore env = Some user"
      and t: "flow_try env chain file asynchronous = (Inl e, st)"
    show "runChunkedUploadFlow env file asynchronous =
              (Resolved Undefined,
               st\<lparr>toasts := toasts st @
                  [if str_includes (error_message e) ''user cancelled''
                   then (''Async Chunked Upload Task cancelled'', ''warning'')
                   else (''Async Chunked Upload Task failed: '' @ error_message e, ''error'')]\<rparr>)"
      using present d t by (simp add: flow_catch_toast showToast_def)
  next
    fix v st
    assume d: "toast env \<and> chainStore env = Some chain \<and> userStore env = Some user"
      and t: "flow_try env chain file asynchronous = (Inr v, st)"
    show "runChunkedUploadFlow env file asynchronous = (Resolved v, st)"
      using present d t by simp
  next
    show "(\<exists>e. fst (runChunkedUploadFlow env file asynchronous) = Rejected e)
        \<longleftrightarrow> \<not> toast env \<or> chainStore env = None \<or> userStore env = None"
      using missing resolved by (metis flow_outcome.distinct(1))
  next
    fix e assume "fst (runChunkedUploadFlow env file asynchronous) = Rejected e"
    then show "e = DependenciesUnavailable"
      using missing resolved by (metis flow_outcome.distinct(1) flow_outcome.inject(1))
  qed
qed

theorem runChunkedUploadFlow_catches_errors_witness:
  "runChunkedUploadFlow (demo_env (Some (Thrown ''Error: user cancelled the payment''))) demo_file True =
     (Resolved Undefined,
      \<lparr>toasts = [(''Starting Async Chunked Upload Task...'', ''info''),
                 (''Please confirm merge transaction in wallet...'', ''info''),
                 (''Async Chunked Upload Task cancelled'', ''warning'')],
       calls = [CallUploadFileToOSS demo_file, CallEstimateChunkedUploadFee demo_file ''k1'',
                CallShowChunkedUploadConfirmation, CallGetWalletUTXOs 13902,
                CallBuildChunkedUploadMergeTx demo_utxo_data 10525 2525 852],
       timer = None\<rparr>)
   \<and> fst (runChunkedUploadFlow (demo_env (Some PayUnsupported)) demo_file True) = Resolved Undefined
   \<and> last (toasts (snd (runChunkedUploadFlow (demo_env (Some PayUnsupported)) demo_file True))) =
       (''Async Chunked Upload Task failed: Failed to build merge transaction: Wallet does not support pay method'',
        ''error'')
   \<and> fst (runChunkedUploadFlow (demo_env None) demo_file False) = Resolved (Uploaded ''abcd'' ''abcdi0'')
   \<and> fst (runChunkedUploadFlow ((demo_env None)\<lparr>userStore := None\<rparr>) demo_file True) =
       Rejected DependenciesUnavailable"
proof -
  have a: "flow_amounts_of \<lparr>mvcFeeRate = Some (3 / 2)\<rparr> demo_estimate =
     \<lparr>chunkPreTxBuildFee = 525, indexPreTxBuildFee = 525, chunkPreTxOutputAmount = 10525,
      indexPreTxOutputAmount = 2525, mergeTxFee = 852, totalRequiredAmount = 13902\<rparr>"
    by (simp add: demo_estimate_def flow_amounts_demo)
  have t1: "flow_try (demo_env (Some (Thrown ''Error: user cancelled the payment'')))
              \<lparr>mvcFeeRate = Some (3 / 2)\<rparr> demo_file True =
     (Inl (Wrapped ''Failed to build merge transaction: '' (Thrown ''Error: user cancelled the payment'')),
      \<lparr>toasts = [(''Starting Async Chunked Upload Task...'', ''info''),
                 (''Please confirm merge transaction in wallet...'', ''info'')],
       calls = [CallUploadFileToOSS demo_file, CallEstimateChunkedUploadFee demo_file ''k1'',
                CallShowChunkedUploadConfirmation, CallGetWalletUTXOs 13902,
                CallBuildChunkedUploadMergeTx demo_utxo_data 10525 2525 852],
       timer = None\<rparr>)"
    by (simp add: flow_try_def demo_env_def a Let_def showToast_def called_def flowLabel_def)
  have t2: "flow_try (demo_env (Some PayUnsupported)) \<lparr>mvcFeeRate = Some (3 / 2)\<rparr> demo_file True =
     (Inl (Wrapped ''Failed to build merge transaction: '' PayUnsupported),
      \<lparr>toasts = [(''Starting Async Chunked Upload Task...'', ''info''),
                 (''Please confirm merge transaction in wallet...'', ''info'')],
       calls = [CallUploadFileToOSS demo_file, CallEstimateChunkedUploadFee demo_file ''k1'',
                CallShowChunkedUploadConfirmation, CallGetWalletUTXOs 13902,
                CallBuildChunkedUploadMergeTx demo_utxo_data 10525 2525 852],
       timer = None\<rparr>)"
    by (simp add: flow_try_def demo_env_def a Let_def showToast_def called_def flowLabel_def)
  have t3: "fst (flow_try (demo_env None) \<lparr>mvcFeeRate = Some (3 / 2)\<rparr> demo_file False) =
      Inr (Uploaded ''abcd'' ''abcdi0'')"
    by (simp add: flow_try_def demo_env_def a Let_def synchronous_upload_def
          await_with_progress_def split_beta)
  have i1: "str_includes ''Failed to build merge transaction: Error: user cancelled the payment''
              ''user cancelled''"
    by simp
  have i2: "\<not> str_includes ''Failed to build merge transaction: Wallet does not support pay method''
              ''user cancelled''"
    by simp
  have d: "toast (demo_env x)" "chainStore (demo_env x) = Some \<lparr>mvcFeeRate = Some (3 / 2)\<rparr>"
    "userStore (demo_env x) = Some demo_user" for x
    by (simp_all add: demo_env_def)
  show ?thesis
    using runChunkedUploadFlow_catches_errors
        [of "demo_env (Some (Thrown ''Error: user cancelled the payment''))"
            "\<lparr>mvcFeeRate = Some (3 / 2)\<rparr>" demo_user demo_file True]
      runChunkedUploadFlow_catches_errors
        [of "demo_env (Some PayUnsupported)" "\<lparr>mvcFeeRate = Some (3 / 2)\<rparr>" demo_user demo_file True]
      runChunkedUploadFlow_catches_errors
        [of "demo_env None" "\<lparr>mvcFeeRate = Some (3 / 2)\<rparr>" demo_user demo_file False]
      runChunkedUploadFlow_catches_errors
        [of "(demo_env None)\<lparr>userStore := None\<rparr>" "\<lparr>mvcFeeRate = Some (3 / 2)\<rparr>" demo_user
            demo_file True]
    by (cases "flow_try (demo_env None) \<lparr>mvcFeeRate = Some (3 / 2)\<rparr> demo_file False")
       (use t1 t2 t3 i1 i2 d in \<open>auto simp del: str_includes.simps\<close>)
qed

subsection \<open>The progress timer in the flow\<close>

lemma timer_called [simp]: "timer (called c st) = timer st"
  by (simp add: called_def)

lemma timer_showToast [simp]: "timer (showToast m k st) = timer st"
  by (simp add: showToast_def)

lemma timer_flow_catch [simp]: "timer (flow_catch e st) = timer st"
  by (simp add: flow_catch_def)

lemma toasts_called [simp]: "toasts (called c st) = toasts st"
  by (simp add: called_def)

lemma synchronous_upload_timer:
  "timer (snd (synchronous_upload env n fl sk c i m st)) =
     Some (request_settled ((tick n ^^ seconds env) start_timer))"
  by (auto simp: synchronous_upload_def await_with_progress_def Let_def
      split: sum.splits option.splits)

lemma synchronous_upload_seconds:
  "synchronous_upload (env\<lparr>seconds := k\<rparr>) n fl sk c i m st =
     (fst (synchronous_upload env n fl sk c i m st),
      (snd (synchronous_upload env n fl sk c i m st))
        \<lparr>timer := Some (request_settled ((tick n ^^ k) start_timer))\<rparr>)"
  by (auto simp: synchronous_upload_def await_with_progress_def Let_def showToast_def called_def
      split: sum.splits option.splits)

lemma flow_try_seconds:
  "fst (flow_try (env\<lparr>seconds := k\<rparr>) chain fl a) = fst (flow_try env chain fl a)"
  "toasts (snd (flow_try (env\<lparr>seconds := k\<rparr>) chain fl a)) = toasts (snd (flow_try env chain fl a))"
  "calls (snd (flow_try (env\<lparr>seconds := k\<rparr>) chain fl a)) = calls (snd (flow_try env chain fl a))"
  by (auto simp: flow_try_def Let_def synchronous_upload_seconds split: sum.splits)

lemma flow_try_timer:
  assumes "timer (snd (flow_try env chain fl a)) = Some ft"
  shows "\<not> a \<and> (\<exists>n. ft = request_settled ((tick n ^^ seconds env) start_timer))"
  using assms
  by (auto simp: flow_try_def Let_def synchronous_upload_timer split: sum.splits if_splits)

lemma flow_try_timer_estimate:
  assumes "timer (snd (flow_try env chain fl a)) = Some ft"
  shows "\<not> a \<and> (\<exists>sk est. uploadFileToOSS_result env fl = Inr sk
              \<and> estimateChunkedUploadFee_result env fl sk = Inr est
              \<and> ft = request_settled ((tick (chunkNumber est) ^^ seconds env) start_timer))"
  using assms
  by (auto simp: flow_try_def Let_def synchronous_upload_timer split: sum.splits if_splits)

lemma flow_try_timer_iff:
  "(\<exists>sk c i m. CallChunkedUpload sk c i m \<in> set (calls (snd (flow_try env chain fl a))))
     \<longleftrightarrow> timer (snd (flow_try env chain fl a)) \<noteq> None"
  by (auto simp: flow_try_def Let_def synchronous_upload_timer split: sum.splits if_splits)

lemma runChunkedUploadFlow_state:
  "timer (snd (runChunkedUploadFlow env fl a)) =
     (case (toast env, chainStore env, userStore env) of
        (True, Some chain, Some user) \<Rightarrow> timer (snd (flow_try env chain fl a))
      | _ \<Rightarrow> None)"
  "calls (snd (runChunkedUploadFlow env fl a)) =
     (case (toast env, chainStore env, userStore env) of
        (True, Some chain, Some user) \<Rightarrow> calls (snd (flow_try env chain fl a))
      | _ \<Rightarrow> [])"
  by (auto simp: runChunkedUploadFlow_def split: prod.splits sum.splits option.splits bool.splits)

lemma runChunkedUploadFlow_seconds:
  "fst (runChunkedUploadFlow (env\<lparr>seconds := k\<rparr>) fl a) = fst (runChunkedUploadFlow env fl a)"
  "toasts (snd (runChunkedUploadFlow (env\<lparr>seconds := k\<rparr>) fl a)) =
     toasts (snd (runChunkedUploadFlow env fl a))"
  "calls (snd (runChunkedUploadFlow (env\<lparr>seconds := k\<rparr>) fl a)) =
     calls (snd (runChunkedUploadFlow env fl a))"
proof -
  have *: "fst (runChunkedUploadFlow (env\<lparr>seconds := k\<rparr>) fl a) = fst (runChunkedUploadFlow env fl a)
      \<and> toasts (snd (runChunkedUploadFlow (env\<lparr>seconds := k\<rparr>) fl a)) =
          toasts (snd (runChunkedUploadFlow env fl a))
      \<and> calls (snd (runChunkedUploadFlow (env\<lparr>seconds := k\<rparr>) fl a)) =
          calls (snd (runChunkedUploadFlow env fl a))"
  proof (cases "toast env")
    case False
    then show ?thesis by (simp add: runChunkedUploadFlow_def)
  next
    case True
    show ?thesis
    proof (cases "chainStore env")
      case None
      then show ?thesis using True by (simp add: runChunkedUploadFlow_def)
    next
      case (Some chain)
      show ?thesis
      proof (cases "userStore env")
        case None
        then show ?thesis using True Some by (simp add: runChunkedUploadFlow_def)
      next
        case (Some user)
        obtain r s where A: "flow_try env chain fl a = (r, s)" by (rule prod.exhaust)
        obtain r' s' where B: "flow_try (env\<lparr>seconds := k\<rparr>) chain fl a = (r', s')"
          by (rule prod.exhaust)
        have eq: "r' = r" "toasts s' = toasts s" "calls s' = calls s"
          using flow_try_seconds[where env = env and k = k and chain = chain and fl = fl and a = a] A B
          by simp_all
        show ?thesis
          using True \<open>chainStore env = Some chain\<close> Some A B eq
          by (cases r) (simp_all add: runChunkedUploadFlow_def flow_catch_def showToast_def)
      qed
    qed
  qed
  from * show "fst (runChunkedUploadFlow (env\<lparr>seconds := k\<rparr>) fl a) = fst (runChunkedUploadFlow env fl a)"
    by blast
  from * show "toasts (snd (runChunkedUploadFlow (env\<lparr>seconds := k\<rparr>) fl a)) =
     toasts (snd (runChunkedUploadFlow env fl a))" by blast
  from * show "calls (snd (runChunkedUploadFlow (env\<lparr>seconds := k\<rparr>) fl a)) =
     calls (snd (runChunkedUploadFlow env fl a))" by blast
qed

lemma settled_timer:
  "request_settled ((tick n ^^ k) start_timer) =
     \<lparr>currentProgress = 50 + 40 / (3 * (real n + 1)) * real (min k (3 * (n + 1))),
      elapsedSeconds = min k (3 * (n + 1)), intervalActive = False, isApiReturned = True\<rparr>"
proof -
  have pps: "progressPerSecond n = 40 / (3 * (real n + 1))"
    by (simp add: progressPerSecond_def Let_def mult.commute)
  show ?thesis
    by (simp add: tick_progress request_settled_def pps)
qed

lemma settled_timer_bounds:
  "50 \<le> currentProgress (request_settled ((tick n ^^ k) start_timer))"
  "currentProgress (request_settled ((tick n ^^ k) start_timer)) \<le> 90"
proof -
  have full: "40 / (3 * (real n + 1)) * real (3 * (n + 1)) = 40"
    by (simp add: field_simps)
  have pos: "0 < 40 / (3 * (real n + 1))" by simp
  have "40 / (3 * (real n + 1)) * real (min k (3 * (n + 1))) \<le> 40 / (3 * (real n + 1)) * real (3 * (n + 1))"
    using pos by (simp only: mult_le_cancel_left_pos of_nat_le_iff min.cobounded2)
  then have le: "40 / (3 * (real n + 1)) * real (min k (3 * (n + 1))) \<le> 40" using full by simp
  have ge: "0 \<le> 40 / (3 * (real n + 1)) * real (min k (3 * (n + 1)))" by simp
  show "50 \<le> currentProgress (request_settled ((tick n ^^ k) start_timer))"
    unfolding settled_timer using ge by simp
  show "currentProgress (request_settled ((tick n ^^ k) start_timer)) \<le> 90"
    unfolding settled_timer using le by simp
qed

lemma runChunkedUploadFlow_timer:
  assumes "timer (snd (runChunkedUploadFlow env fl a)) = Some ft"
  shows "\<not> a \<and> (\<exists>sk est. uploadFileToOSS_result env fl = Inr sk
              \<and> estimateChunkedUploadFee_result env fl sk = Inr est
              \<and> ft = request_settled ((tick (chunkNumber est) ^^ seconds env) start_timer))"
proof -
  from assms obtain chain where "timer (snd (flow_try env chain fl a)) = Some ft"
    by (auto simp: runChunkedUploadFlow_state split: prod.splits option.splits bool.splits)
  then show ?thesis by (rule flow_try_timer_estimate)
qed

lemma runChunkedUploadFlow_timer_iff:
  "(\<exists>sk c i m. CallChunkedUpload sk c i m \<in> set (calls (snd (runChunkedUploadFlow env fl a))))
     \<longleftrightarrow> timer (snd (runChunkedUploadFlow env fl a)) \<noteq> None"
proof (cases "toast env")
  case False
  then show ?thesis by (simp add: runChunkedUploadFlow_state)
next
  case True
  show ?thesis
  proof (cases "chainStore env")
    case None
    then show ?thesis using True by (simp add: runChunkedUploadFlow_state)
  next
    case (Some chain)
    show ?thesis
    proof (cases "userStore env")
      case None
      then show ?thesis using True Some by (simp add: runChunkedUploadFlow_state)
    next
      case (Some user)
      show ?thesis
        using True \<open>chainStore env = Some chain\<close> Some flow_try_timer_iff[of env chain fl a]
        by (simp add: runChunkedUploadFlow_state)
    qed
  qed
qed

text \<open>
  Claim C9.  The synchronous branch, run with chunk number \<open>n\<close>, records the call of
  \<^verbatim>\<open>chunkedUpload\<close> and leaves the timer that was started at 50, fired once for each of the
  \<open>seconds env\<close> seconds the request was pending and was then cleared: its progress is
  \<open>50 + 40 / (3 * (n + 1)) * min (seconds env) (3 * (n + 1))\<close>.  An error of the request is
  the error of the branch, a response that is not \<^verbatim>\<open>failed\<close> is its result, and the result
  is the same whatever the number of seconds.  For the timer itself: after \<open>k\<close> seconds of
  a pending request the progress is \<open>50 + 40 / (3 * (n + 1)) * min k (3 * (n + 1))\<close>, so each
  tick before the ceiling adds \<open>40 / (3 * (n + 1))\<close> and the value never exceeds 90; the
  interval is scheduled exactly while fewer than \<open>3 * (n + 1)\<close> ticks have fired, and once
  the request has settled it is cleared and later seconds change nothing.  For
  \<^verbatim>\<open>runChunkedUploadFlow\<close>: its outcome, toasts and calls do not depend on the number of
  seconds; a timer exists exactly when \<^verbatim>\<open>chunkedUpload\<close> was called; and whenever a timer
  exists the flow is synchronous, the timer is the one of the estimate's chunk number
  after \<open>seconds env\<close> ticks, it is cleared, and its progress lies between 50 and 90.
\<close>

theorem progress_timer_interpolation:
  fixes env :: flow_env and fl :: file_info and n k :: nat
    and storageKey chunkPreTxHex indexPreTxHex mergeHex :: string
    and st :: flow_state and asynchronous :: bool and outcome :: "error + 'a"
  defines "request \<equiv> chunkedUpload_result env fl storageKey chunkPreTxHex indexPreTxHex mergeHex"
  defines "run \<equiv> synchronous_upload env n fl storageKey chunkPreTxHex indexPreTxHex mergeHex st"
  defines "flow \<equiv> runChunkedUploadFlow env fl asynchronous"
  defines "t \<equiv> (tick n ^^ k) start_timer"
  shows "timer (snd run) = Some (request_settled ((tick n ^^ seconds env) start_timer))
       \<and> timer (snd run) =
           Some \<lparr>currentProgress = 50 + 40 / (3 * (real n + 1)) * real (min (seconds env) (3 * (n + 1))),
                 elapsedSeconds = min (seconds env) (3 * (n + 1)),
                 intervalActive = False, isApiReturned = True\<rparr>
       \<and> calls (snd run) = calls st @ [CallChunkedUpload storageKey chunkPreTxHex indexPreTxHex mergeHex]
       \<and> (\<forall>e. request = Inl e \<longrightarrow> fst run = Inl e)
       \<and> (\<forall>r. request = Inr (Some r) \<and> upload_status r \<noteq> ''failed'' \<longrightarrow>
              fst run = Inr (Uploaded (upload_indexTxId r) (upload_indexTxId r @ ''i0'')))
       \<and> fst (synchronous_upload (env\<lparr>seconds := k\<rparr>) n fl storageKey chunkPreTxHex indexPreTxHex
                 mergeHex st) = fst run
       \<and> currentProgress start_timer = 50
       \<and> currentProgress t = 50 + 40 / (3 * (real n + 1)) * real (min k (3 * (n + 1)))
       \<and> currentProgress (tick n t) - currentProgress t =
           (if k < 3 * (n + 1) then 40 / (3 * (real n + 1)) else 0)
       \<and> currentProgress t \<le> 90
       \<and> (currentProgress t = 90 \<longleftrightarrow> 3 * (n + 1) \<le> k)
       \<and> (intervalActive t \<longleftrightarrow> k < 3 * (n + 1))
       \<and> \<not> intervalActive (request_settled t)
       \<and> tick n (request_settled t) = request_settled t
       \<and> \<not> intervalActive (snd (await_with_progress n k outcome))
       \<and> tick n (snd (await_with_progress n k outcome)) = snd (await_with_progress n k outcome)
       \<and> fst (await_with_progress n k outcome) = outcome
       \<and> fst (await_with_progress n k outcome) = fst (await_with_progress n 0 outcome)
       \<and> fst (runChunkedUploadFlow (env\<lparr>seconds := k\<rparr>) fl asynchronous) = fst flow
       \<and> toasts (snd (runChunkedUploadFlow (env\<lparr>seconds := k\<rparr>) fl asynchronous)) = toasts (snd flow)
       \<and> calls (snd (runChunkedUploadFlow (env\<lparr>seconds := k\<rparr>) fl asynchronous)) = calls (snd flow)
       \<and> ((\<exists>sk c i m. CallChunkedUpload sk c i m \<in> set (calls (snd flow)))
            \<longleftrightarrow> timer (snd flow) \<noteq> None)
       \<and> (\<forall>ft. timer (snd flow) = Some ft \<longrightarrow>
              \<not> asynchronous
              \<and> (\<exists>sk est. uploadFileToOSS_result env fl = Inr sk
                    \<and> estimateChunkedUploadFee_result env fl sk = Inr est
                    \<and> ft = request_settled ((tick (chunkNumber est) ^^ seconds env) start_timer))
              \<and> \<not> intervalActive ft \<and> isApiReturned ft
              \<and> 50 \<le> currentProgress ft \<and> currentProgress ft \<le> 90)"
proof -
  have pps: "progressPerSecond n = 40 / (3 * (real n + 1))"
    by (simp add: progressPerSecond_def Let_def mult.commute)
  have t: "t = \<lparr>currentProgress = 50 + progressPerSecond n * real (min k (3 * (n + 1))),
      elapsedSeconds = min k (3 * (n + 1)),
      intervalActive = (k < 3 * (n + 1)),
      isApiReturned = False\<rparr>"
    unfolding t_def by (rule tick_progress)
  have t': "tick n t = \<lparr>currentProgress = 50 + progressPerSecond n * real (min (Suc k) (3 * (n + 1))),
      elapsedSeconds = min (Suc k) (3 * (n + 1)),
      intervalActive = (Suc k < 3 * (n + 1)),
      isApiReturned = False\<rparr>"
  proof -
    have "tick n t = (tick n ^^ Suc k) start_timer" by (simp add: t_def)
    also have "\<dots> = \<lparr>currentProgress = 50 + progressPerSecond n * real (min (Suc k) (3 * (n + 1))),
      elapsedSeconds = min (Suc k) (3 * (n + 1)),
      intervalActive = (Suc k < 3 * (n + 1)),
      isApiReturned = False\<rparr>"
      by (rule tick_progress)
    finally show ?thesis .
  qed
  have full: "progressPerSecond n * real (3 * (n + 1)) = 40"
    by (simp add: progressPerSecond_def Let_def field_simps)
  have pos: "0 < progressPerSecond n" by (simp add: progressPerSecond_def Let_def)
  have le: "progressPerSecond n * real (min k (3 * (n + 1))) \<le> 40"
  proof -
    have "progressPerSecond n * real (min k (3 * (n + 1))) \<le> progressPerSecond n * real (3 * (n + 1))"
      using pos by (simp only: mult_le_cancel_left_pos of_nat_le_iff min.cobounded2)
    then show ?thesis using full by simp
  qed
  have lt: "progressPerSecond n * real k < 40" if "k < 3 * (n + 1)"
  proof -
    have "progressPerSecond n * real k < progressPerSecond n * real (3 * (n + 1))"
      using pos that by (simp only: mult_less_cancel_left_pos of_nat_less_iff)
    then show ?thesis using full by simp
  qed
  have s1: "timer (snd run) = Some (request_settled ((tick n ^^ seconds env) start_timer))"
    unfolding run_def by (rule synchronous_upload_timer)
  have s2: "timer (snd run) =
           Some \<lparr>currentProgress = 50 + 40 / (3 * (real n + 1)) * real (min (seconds env) (3 * (n + 1))),
                 elapsedSeconds = min (seconds env) (3 * (n + 1)),
                 intervalActive = False, isApiReturned = True\<rparr>"
    unfolding s1 settled_timer ..
  have s3: "calls (snd run) = calls st @ [CallChunkedUpload storageKey chunkPreTxHex indexPreTxHex mergeHex]"
    unfolding run_def by (rule calls_synchronous_upload)
  have s4: "\<forall>e. request = Inl e \<longrightarrow> fst run = Inl e"
    unfolding run_def request_def
    by (simp add: synchronous_upload_def await_with_progress_def Let_def)
  have s5: "\<forall>r. request = Inr (Some r) \<and> upload_status r \<noteq> ''failed'' \<longrightarrow>
              fst run = Inr (Uploaded (upload_indexTxId r) (upload_indexTxId r @ ''i0''))"
    unfolding run_def request_def
    by (simp add: synchronous_upload_def await_with_progress_def Let_def)
  have s6: "fst (synchronous_upload (env\<lparr>seconds := k\<rparr>) n fl storageKey chunkPreTxHex indexPreTxHex
                 mergeHex st) = fst run"
    unfolding run_def by (simp add: synchronous_upload_seconds)
  have c1: "currentProgress start_timer = 50" by (simp add: start_timer_def baseProgress_def)
  have c2: "currentProgress t = 50 + 40 / (3 * (real n + 1)) * real (min k (3 * (n + 1)))"
    using t pps by simp
  have a: "currentProgress (tick n t) = 50 + progressPerSecond n * real (min (Suc k) (3 * (n + 1)))"
    by (subst t') simp
  have b: "currentProgress t = 50 + progressPerSecond n * real (min k (3 * (n + 1)))"
    by (subst t) simp
  have c3: "currentProgress (tick n t) - currentProgress t =
           (if k < 3 * (n + 1) then 40 / (3 * (real n + 1)) else 0)"
  proof (cases "k < 3 * (n + 1)")
    case True
    then have "min (Suc k) (3 * (n + 1)) = Suc k" "min k (3 * (n + 1)) = k" by simp_all
    then have "currentProgress (tick n t) - currentProgress t = progressPerSecond n"
      unfolding a b by (simp add: algebra_simps)
    then show ?thesis using True pps by simp
  next
    case False
    then have "min (Suc k) (3 * (n + 1)) = 3 * (n + 1)" "min k (3 * (n + 1)) = 3 * (n + 1)" by simp_all
    then show ?thesis using False unfolding a b by simp
  qed
  have c4: "currentProgress t \<le> 90" using t le by simp
  have c5: "currentProgress t = 90 \<longleftrightarrow> 3 * (n + 1) \<le> k"
  proof (cases "k < 3 * (n + 1)")
    case True
    then have "min k (3 * (n + 1)) = k" by simp
    then show ?thesis using True lt[OF True] by (simp add: t)
  next
    case False
    then have "min k (3 * (n + 1)) = 3 * (n + 1)" by simp
    then show ?thesis using False full by (simp add: t)
  qed
  have c6: "intervalActive t \<longleftrightarrow> k < 3 * (n + 1)" by (simp add: t)
  have c6a: "\<not> intervalActive (request_settled t)" by (simp add: request_settled_def)
  have c6b: "tick n (request_settled t) = request_settled t"
    by (simp add: request_settled_def tick_def)
  have c7: "\<not> intervalActive (snd (await_with_progress n k outcome))"
    by (simp add: await_with_progress_def request_settled_def)
  have c8: "tick n (snd (await_with_progress n k outcome)) = snd (await_with_progress n k outcome)"
    by (simp add: await_with_progress_def request_settled_def tick_def)
  have c9: "fst (await_with_progress n k outcome) = outcome"
    "fst (await_with_progress n k outcome) = fst (await_with_progress n 0 outcome)"
    by (simp_all add: await_with_progress_def)
  have f1: "fst (runChunkedUploadFlow (env\<lparr>seconds := k\<rparr>) fl asynchronous) = fst flow"
    "toasts (snd (runChunkedUploadFlow (env\<lparr>seconds := k\<rparr>) fl asynchronous)) = toasts (snd flow)"
    "calls (snd (runChunkedUploadFlow (env\<lparr>seconds := k\<rparr>) fl asynchronous)) = calls (snd flow)"
    unfolding flow_def by (rule runChunkedUploadFlow_seconds)+
  have f2: "(\<exists>sk c i m. CallChunkedUpload sk c i m \<in> set (calls (snd flow)))
            \<longleftrightarrow> timer (snd flow) \<noteq> None"
    unfolding flow_def by (rule runChunkedUploadFlow_timer_iff)
  have f3: "\<forall>ft. timer (snd flow) = Some ft \<longrightarrow>
              \<not> asynchronous
              \<and> (\<exists>sk est. uploadFileToOSS_result env fl = Inr sk
                    \<and> estimateChunkedUploadFee_result env fl sk = Inr est
                    \<and> ft = request_settled ((tick (chunkNumber est) ^^ seconds env) start_timer))
              \<and> \<not> intervalActive ft \<and> isApiReturned ft
              \<and> 50 \<le> currentProgress ft \<and> currentProgress ft \<le> 90"
  proof (intro allI impI)
    fix ft assume "timer (snd flow) = Some ft"
    from runChunkedUploadFlow_timer[OF this[unfolded flow_def]]
    obtain sk est where na: "\<not> asynchronous"
      and r: "uploadFileToOSS_result env fl = Inr sk" "estimateChunkedUploadFee_result env fl sk = Inr est"
      and ft: "ft = request_settled ((tick (chunkNumber est) ^^ seconds env) start_timer)"
      by blast
    have "\<not> intervalActive ft" "isApiReturned ft" unfolding ft by (simp_all add: request_settled_def)
    moreover have "50 \<le> currentProgress ft" "currentProgress ft \<le> 90"
      unfolding ft by (rule settled_timer_bounds)+
    ultimately show "\<not> asynchronous
              \<and> (\<exists>sk est. uploadFileToOSS_result env fl = Inr sk
                    \<and> estimateChunkedUploadFee_result env fl sk = Inr est
                    \<and> ft = request_settled ((tick (chunkNumber est) ^^ seconds env) start_timer))
              \<and> \<not> intervalActive ft \<and> isApiReturned ft
              \<and> 50 \<le> currentProgress ft \<and> currentProgress ft \<le> 90"
      using na r ft by blast
  qed
  show ?thesis
    using s1 s2 s3 s4 s5 s6 c1 c2 c3 c4 c5 c6 c6a c6b c7 c8 c9 f1 f2 f3 by blast
qed

text \<open>
  The synchronous run of \<open>demo_env\<close> (chunk number 3, so the ceiling is reached after 12
  seconds) with a request that takes 5 or 20 seconds, and with a request that fails
  after 5 seconds.
\<close>

definition demo_env_request_fails :: flow_env where
  "demo_env_request_fails =
     (demo_env None)\<lparr>chunkedUpload_result := (\<lambda>f k c i m. Inl (Thrown ''Failed to fetch''))\<rparr>"

theorem progress_timer_interpolation_witness:
  "timer (snd (runChunkedUploadFlow (demo_env None) demo_file False)) =
     Some \<lparr>currentProgress = 200 / 3, elapsedSeconds = 5, intervalActive = False, isApiReturned = True\<rparr>
   \<and> fst (runChunkedUploadFlow (demo_env None) demo_file False) = Resolved (Uploaded ''abcd'' ''abcdi0'')
   \<and> timer (snd (runChunkedUploadFlow ((demo_env None)\<lparr>seconds := 20\<rparr>) demo_file False)) =
     Some \<lparr>currentProgress = 90, elapsedSeconds = 12, intervalActive = False, isApiReturned = True\<rparr>
   \<and> fst (runChunkedUploadFlow ((demo_env None)\<lparr>seconds := 20\<rparr>) demo_file False) =
       Resolved (Uploaded ''abcd'' ''abcdi0'')
   \<and> timer (snd (runChunkedUploadFlow demo_env_request_fails demo_file False)) =
     Some \<lparr>currentProgress = 200 / 3, elapsedSeconds = 5, intervalActive = False, isApiReturned = True\<rparr>
   \<and> fst (runChunkedUploadFlow demo_env_request_fails demo_file False) = Resolved Undefined
   \<and> last (toasts (snd (runChunkedUploadFlow demo_env_request_fails demo_file False))) =
       (''Async Chunked Upload Task failed: Failed to fetch'', ''error'')
   \<and> timer (snd (runChunkedUploadFlow (demo_env None) demo_file True)) = None"
proof -
  let ?chain = "\<lparr>mvcFeeRate = Some (3 / 2)\<rparr>"
  have deps: "toast (demo_env None)" "chainStore (demo_env None) = Some ?chain"
    "userStore (demo_env None) = Some demo_user" "seconds (demo_env None) = 5"
    "toast demo_env_request_fails" "chainStore demo_env_request_fails = Some ?chain"
    "userStore demo_env_request_fails = Some demo_user" "seconds demo_env_request_fails = 5"
    by (simp_all add: demo_env_def demo_env_request_fails_def)
  have tm: "timer (snd (flow_try (demo_env None) ?chain demo_file False)) =
              Some (request_settled ((tick 3 ^^ 5) start_timer))"
    "timer (snd (flow_try demo_env_request_fails ?chain demo_file False)) =
              Some (request_settled ((tick 3 ^^ 5) start_timer))"
    "timer (snd (flow_try (demo_env None) ?chain demo_file True)) = None"
    by (simp_all add: flow_try_def demo_env_def demo_env_request_fails_def demo_estimate_def Let_def
          synchronous_upload_timer)
  have r: "fst (flow_try (demo_env None) ?chain demo_file False) = Inr (Uploaded ''abcd'' ''abcdi0'')"
    "fst (flow_try demo_env_request_fails ?chain demo_file False) = Inl (Thrown ''Failed to fetch'')"
    by (simp_all add: flow_try_def demo_env_def demo_env_request_fails_def Let_def
          synchronous_upload_def await_with_progress_def split_beta)
  have ftm: "timer (snd (runChunkedUploadFlow (demo_env None) demo_file False)) =
              Some (request_settled ((tick 3 ^^ 5) start_timer))"
    "timer (snd (runChunkedUploadFlow demo_env_request_fails demo_file False)) =
              Some (request_settled ((tick 3 ^^ 5) start_timer))"
    "timer (snd (runChunkedUploadFlow (demo_env None) demo_file True)) = None"
    by (simp_all add: runChunkedUploadFlow_state deps tm)
  have fr: "fst (runChunkedUploadFlow (demo_env None) demo_file False) =
              Resolved (Uploaded ''abcd'' ''abcdi0'')"
    "fst (runChunkedUploadFlow demo_env_request_fails demo_file False) = Resolved Undefined"
    using r by (auto simp: runChunkedUploadFlow_def deps split: prod.splits)
  have lt: "last (toasts (snd (runChunkedUploadFlow demo_env_request_fails demo_file False))) =
       (''Async Chunked Upload Task failed: Failed to fetch'', ''error'')"
    using r(2)
    by (auto simp: runChunkedUploadFlow_def deps flow_catch_def showToast_def flowLabel_def
          split: prod.splits)
  note th = progress_timer_interpolation [where env = "demo_env None" and fl = demo_file and n = 3 and k = 20
      and asynchronous = False]
  have five: "request_settled ((tick 3 ^^ 5) start_timer) =
     \<lparr>currentProgress = 200 / 3, elapsedSeconds = 5, intervalActive = False, isApiReturned = True\<rparr>"
    using th [THEN conjunct1] th [THEN conjunct2, THEN conjunct1]
    by (simp add: deps)
  note th20 = progress_timer_interpolation [where env = "(demo_env None)\<lparr>seconds := 20\<rparr>" and fl = demo_file
      and n = 3 and k = 5 and asynchronous = False]
  have twenty: "request_settled ((tick 3 ^^ 20) start_timer) =
     \<lparr>currentProgress = 90, elapsedSeconds = 12, intervalActive = False, isApiReturned = True\<rparr>"
    using th20 [THEN conjunct1] th20 [THEN conjunct2, THEN conjunct1]
    by simp
  from th have same: "fst (runChunkedUploadFlow ((demo_env None)\<lparr>seconds := 20\<rparr>) demo_file False) =
      fst (runChunkedUploadFlow (demo_env None) demo_file False)"
    by blast
  have tm20: "timer (snd (flow_try ((demo_env None)\<lparr>seconds := 20\<rparr>) ?chain demo_file False)) =
              Some (request_settled ((tick 3 ^^ 20) start_timer))"
    by (simp add: flow_try_def demo_env_def demo_estimate_def Let_def synchronous_upload_timer)
  have ftm20: "timer (snd (runChunkedUploadFlow ((demo_env None)\<lparr>seconds := 20\<rparr>) demo_file False)) =
              Some (request_settled ((tick 3 ^^ 20) start_timer))"
    by (simp add: runChunkedUploadFlow_state deps tm20)
  show ?thesis
    using ftm ftm20 fr lt same by (simp add: five twenty)
qed

section \<open>Resumable multipart upload (\<^verbatim>\<open>uploadFileToOSS\<close>)\<close>

text \<open>
  A part the store lists for a session, and a part as sent to the completion call.
\<close>

record remote_part =
  rp_partNumber :: nat
  rp_etag :: string

record upload_part =
  partNumber :: nat
  etag :: string
  part_size :: nat

text \<open>
  What an awaited \<^verbatim>\<open>fetch\<close> followed by \<^verbatim>\<open>response.json()\<close> gives: a rejection (of either), a
  response that is not \<^verbatim>\<open>ok\<close> with its status, or the parsed body.  A body has its \<^verbatim>\<open>code\<close>, its
  \<^verbatim>\<open>message\<close> and the part of its \<^verbatim>\<open>data\<close> the caller reads, \<open>None\<close> when that is missing.
\<close>

datatype 'a fetch_result = FetchThrows string | HttpError nat | JsonBody 'a

record 'd api_body =
  body_code :: int
  body_message :: "string option"
  body_data :: "'d option"

datatype net_request =
    ListParts string string
  | Initiate string nat string string
  | UploadPart string string nat string
  | Complete string string "upload_part list"

text \<open>
  The collaborators of one call: the user store, the clock at the session lookup and at
  the session save, the four endpoints as functions of the request body, and the
  \<^verbatim>\<open>FileReader\<close> read of a byte range as base64.
\<close>

record oss_env =
  oss_userStore :: "user_info option"
  now_lookup :: int
  now_save :: int
  fetch_listParts :: "string \<Rightarrow> string \<Rightarrow> (remote_part list) api_body fetch_result"
  fetch_initiate :: "string \<Rightarrow> nat \<Rightarrow> string \<Rightarrow> string \<Rightarrow> (string \<times> string) api_body fetch_result"
  fetch_uploadPart :: "string \<Rightarrow> string \<Rightarrow> nat \<Rightarrow> string \<Rightarrow> string api_body fetch_result"
  fetch_complete :: "string \<Rightarrow> string \<Rightarrow> upload_part list \<Rightarrow> string api_body fetch_result"
  readAsBase64 :: "file_info \<Rightarrow> nat \<Rightarrow> nat \<Rightarrow> error + string"

text \<open>
  The state the call changes: local storage, the requests sent (in order) and the
  arguments of the calls of \<^verbatim>\<open>updateOSSUploadProgress\<close> (in order).
\<close>

record oss_state =
  oss_storage :: local_storage
  oss_requests :: "net_request list"
  oss_progress :: "(nat \<times> nat \<times> nat \<times> nat) list"

definition MULTIPART_CHUNK_SIZE :: nat where
  "MULTIPART_CHUNK_SIZE = 1 * 1024 * 1024"

definition sent :: "net_request \<Rightarrow> oss_state \<Rightarrow> oss_state" where
  "sent r st = st\<lparr>oss_requests := oss_requests st @ [r]\<rparr>"

definition updateOSSUploadProgress :: "nat \<Rightarrow> nat \<Rightarrow> nat \<Rightarrow> nat \<Rightarrow> oss_state \<Rightarrow> oss_state" where
  "updateOSSUploadProgress currentPart totalParts uploadedBytes totalBytes st =
     st\<lparr>oss_progress := oss_progress st @ [(currentPart, totalParts, uploadedBytes, totalBytes)]\<rparr>"

definition message_or :: "string option \<Rightarrow> string \<Rightarrow> string" where
  "message_or m d = (case m of None \<Rightarrow> d | Some s \<Rightarrow> if s = [] then d else s)"

definition part_start :: "nat \<Rightarrow> nat" where
  "part_start n = (n - 1) * MULTIPART_CHUNK_SIZE"

definition part_end :: "file_info \<Rightarrow> nat \<Rightarrow> nat" where
  "part_end file n = min (part_start n + MULTIPART_CHUNK_SIZE) (file_size file)"

definition partSize :: "file_info \<Rightarrow> nat \<Rightarrow> nat" where
  "partSize file n = part_end file n - part_start n"

definition totalParts_of :: "file_info \<Rightarrow> nat" where
  "totalParts_of file = nat \<lceil>real (file_size file) / real MULTIPART_CHUNK_SIZE\<rceil>"

text \<open>
  The listing of the parts of an existing session: the session kept (\<^verbatim>\<open>null\<close> after a
  rejection) and the parts found.
\<close>

definition list_existing_parts ::
  "oss_env \<Rightarrow> upload_session \<Rightarrow> oss_state \<Rightarrow> (upload_session option \<times> remote_part list) \<times> oss_state"
where
  "list_existing_parts env session st =
     (let st = sent (ListParts (uploadId session) (key session)) st in
      case fetch_listParts env (uploadId session) (key session) of
        FetchThrows m \<Rightarrow> ((None, []), st)
      | HttpError status \<Rightarrow> ((Some session, []), st)
      | JsonBody listPartsResult \<Rightarrow>
          (case body_data listPartsResult of
             Some ps \<Rightarrow> if body_code listPartsResult = 0 then ((Some session, ps), st)
                        else ((Some session, []), st)
           | None \<Rightarrow> ((Some session, []), st)))"

text \<open>The initiation of a new multipart upload, with the save of its session.\<close>

definition initiate_upload ::
  "oss_env \<Rightarrow> file_info \<Rightarrow> string \<Rightarrow> string \<Rightarrow> oss_state \<Rightarrow> (error + string \<times> string) \<times> oss_state"
where
  "initiate_upload env file metaId' currentAddress st =
     (let st = sent (Initiate (file_name file) (file_size file) metaId' currentAddress) st in
      case fetch_initiate env (file_name file) (file_size file) metaId' currentAddress of
        FetchThrows m \<Rightarrow> (Inl (Thrown m), st)
      | HttpError status \<Rightarrow> (Inl (HttpFailure ''Failed to initiate multipart upload: '' status), st)
      | JsonBody initiateResult \<Rightarrow>
          if body_code initiateResult \<noteq> 0
          then (Inl (ApiFailure (message_or (body_message initiateResult)
                                   ''Failed to initiate multipart upload'')), st)
          else (case body_data initiateResult of
                  None \<Rightarrow> (Inl (Thrown ''Cannot read properties of undefined (reading uploadId)''), st)
                | Some (uploadId', key') \<Rightarrow>
                    (Inr (uploadId', key'),
                     st\<lparr>oss_storage := saveUploadSession (now_save env) file metaId' currentAddress
                                          uploadId' key' (oss_storage st)\<rparr>)))"

text \<open>The loop \<^verbatim>\<open>for (let partNumber = 1; partNumber <= totalParts; partNumber++)\<close>.\<close>

function upload_parts ::
  "oss_env \<Rightarrow> file_info \<Rightarrow> string \<Rightarrow> string \<Rightarrow> (nat \<rightharpoonup> remote_part) \<Rightarrow> nat \<Rightarrow> nat \<Rightarrow>
   upload_part list \<Rightarrow> nat \<Rightarrow> oss_state \<Rightarrow> (error + upload_part list \<times> nat) \<times> oss_state"
where
  "upload_parts env file uploadId' key' existingPartsMap totalParts pn parts uploadedBytes st =
     (if pn \<le> totalParts then
        (let start = (pn - 1) * MULTIPART_CHUNK_SIZE;
            end' = min (start + MULTIPART_CHUNK_SIZE) (file_size file);
            partSize' = end' - start
        in case existingPartsMap pn of
             Some existingPart \<Rightarrow>
               upload_parts env file uploadId' key' existingPartsMap totalParts (pn + 1)
                 (parts @ [\<lparr>partNumber = pn, etag = rp_etag existingPart, part_size = partSize'\<rparr>])
                 (uploadedBytes + partSize')
                 (updateOSSUploadProgress pn totalParts (uploadedBytes + partSize') (file_size file) st)
           | None \<Rightarrow>
              (case readAsBase64 env file start end' of
                 Inl e \<Rightarrow> (Inl e, st)
               | Inr chunkBase64 \<Rightarrow>
                  let st = sent (UploadPart uploadId' key' pn chunkBase64) st in
                  (case fetch_uploadPart env uploadId' key' pn chunkBase64 of
                     FetchThrows m \<Rightarrow> (Inl (Thrown m), st)
                   | HttpError status \<Rightarrow>
                       (Inl (HttpFailure (''Failed to upload part '' @ show_nat pn @ '': '') status), st)
                   | JsonBody uploadPartResult \<Rightarrow>
                       if body_code uploadPartResult \<noteq> 0
                       then (Inl (ApiFailure (message_or (body_message uploadPartResult)
                                                (''Failed to upload part '' @ show_nat pn))), st)
                       else (case body_data uploadPartResult of
                               None \<Rightarrow> (Inl (Thrown ''Cannot read properties of undefined (reading etag)''), st)
                             | Some etag' \<Rightarrow>
                                 upload_parts env file uploadId' key' existingPartsMap totalParts (pn + 1)
                                   (parts @ [\<lparr>partNumber = pn, etag = etag', part_size = partSize'\<rparr>])
                                   (uploadedBytes + partSize')
                                   (updateOSSUploadProgress pn totalParts (uploadedBytes + partSize')
                                      (file_size file) st)))))
      else (Inr (parts, uploadedBytes), st))"
  by pat_completeness auto
termination
  by (relation "measure (\<lambda>(env, file, u, k, m, totalParts, pn, parts, b, st). Suc totalParts - pn)") auto

declare upload_parts.simps [simp del]

text \<open>The sort of the parts, the completion call and the removal of the session.\<close>

definition complete_upload ::
  "oss_env \<Rightarrow> file_info \<Rightarrow> string \<Rightarrow> string \<Rightarrow> string \<Rightarrow> string \<Rightarrow> nat \<Rightarrow> upload_part list \<Rightarrow>
   oss_state \<Rightarrow> (error + string) \<times> oss_state"
where
  "complete_upload env file metaId' currentAddress uploadId' key' totalParts parts st =
     (let parts = sort_key partNumber parts;
          st = updateOSSUploadProgress totalParts totalParts (file_size file) (file_size file) st;
          st = sent (Complete uploadId' key' parts) st
      in case fetch_complete env uploadId' key' parts of
           FetchThrows m \<Rightarrow> (Inl (Thrown m), st)
         | HttpError status \<Rightarrow> (Inl (HttpFailure ''Failed to complete multipart upload: '' status), st)
         | JsonBody completeResult \<Rightarrow>
             if body_code completeResult \<noteq> 0
             then (Inl (ApiFailure (message_or (body_message completeResult)
                                      ''Failed to complete multipart upload'')), st)
             else (case body_data completeResult of
                     None \<Rightarrow> (Inl (Thrown ''Cannot read properties of undefined (reading key)''), st)
                   | Some storageKey \<Rightarrow>
                       (Inr storageKey,
                        st\<lparr>oss_storage := clearUploadSession file metaId' currentAddress
                                             (oss_storage st)\<rparr>)))"

definition existing_parts_map :: "remote_part list \<Rightarrow> (nat \<rightharpoonup> remote_part)" where
  "existing_parts_map existingParts = foldl (\<lambda>m part. m(rp_partNumber part \<mapsto> part)) Map.empty existingParts"

text \<open>The body of the \<^verbatim>\<open>try\<close> block of \<^verbatim>\<open>uploadFileToOSS\<close>.\<close>

definition upload_try :: "oss_env \<Rightarrow> file_info \<Rightarrow> oss_state \<Rightarrow> (error + string) \<times> oss_state" where
  "upload_try env file st =
     (case oss_userStore env of
        None \<Rightarrow> (Inl UserStoreUnavailable, st)
      | Some user \<Rightarrow>
         (let metaId' = metaid user;
              currentAddress = address user;
              (existingSession, storage') =
                 getUploadSession (now_lookup env) file metaId' currentAddress (oss_storage st);
              st = st\<lparr>oss_storage := storage'\<rparr>;
              ((existingSession, existingParts), st) =
                 (case existingSession of
                    None \<Rightarrow> ((None, []), st)
                  | Some session \<Rightarrow> list_existing_parts env session st)
          in (case (case existingSession of
                      Some session \<Rightarrow>
                        (if existingParts = [] then initiate_upload env file metaId' currentAddress st
                         else (Inr (uploadId session, key session), st))
                    | None \<Rightarrow> initiate_upload env file metaId' currentAddress st) of
                (Inl e, st) \<Rightarrow> (Inl e, st)
              | (Inr (uploadId', key'), st) \<Rightarrow>
                 (let totalParts = totalParts_of file;
                      totalBytes = file_size file;
                      existingPartsMap = existing_parts_map existingParts;
                      st = updateOSSUploadProgress 0 totalParts 0 totalBytes st
                  in (case upload_parts env file uploadId' key' existingPartsMap totalParts 1 [] 0 st of
                        (Inl e, st) \<Rightarrow> (Inl e, st)
                      | (Inr (parts, uploadedBytes), st) \<Rightarrow>
                          complete_upload env file metaId' currentAddress uploadId' key' totalParts
                            parts st)))))"

definition uploadFileToOSS :: "oss_env \<Rightarrow> file_info \<Rightarrow> oss_state \<Rightarrow> (error + string) \<times> oss_state" where
  "uploadFileToOSS env file st =
     (case upload_try env file st of
        (Inl e, st') \<Rightarrow> (Inl (Wrapped ''Failed to upload file to OSS: '' e), st')
      | (Inr storageKey, st') \<Rightarrow> (Inr storageKey, st'))"

lemma existing_parts_map_fold:
  "foldl (\<lambda>m part. m(rp_partNumber part \<mapsto> part)) m0
      (map (\<lambda>n. \<lparr>rp_partNumber = n, rp_etag = e n\<rparr>) ns) x =
   (if x \<in> set ns then Some \<lparr>rp_partNumber = x, rp_etag = e x\<rparr> else m0 x)"
  by (induction ns arbitrary: m0) auto

lemma existing_parts_map_range:
  "existing_parts_map (map (\<lambda>n. \<lparr>rp_partNumber = n, rp_etag = e n\<rparr>) [1..<Suc k]) x =
   (if 1 \<le> x \<and> x \<le> k then Some \<lparr>rp_partNumber = x, rp_etag = e x\<rparr> else None)"
  unfolding existing_parts_map_def existing_parts_map_fold by auto

lemma upload_parts_step:
  "upload_parts env fl u k m tp pn parts b st =
     (if pn \<le> tp then
        (case m pn of
           Some existingPart \<Rightarrow>
             upload_parts env fl u k m tp (Suc pn)
               (parts @ [\<lparr>partNumber = pn, etag = rp_etag existingPart, part_size = partSize fl pn\<rparr>])
               (b + partSize fl pn)
               (updateOSSUploadProgress pn tp (b + partSize fl pn) (file_size fl) st)
         | None \<Rightarrow>
            (case readAsBase64 env fl (part_start pn) (part_end fl pn) of
               Inl e \<Rightarrow> (Inl e, st)
             | Inr chunkBase64 \<Rightarrow>
                (case fetch_uploadPart env u k pn chunkBase64 of
                   FetchThrows msg \<Rightarrow> (Inl (Thrown msg), sent (UploadPart u k pn chunkBase64) st)
                 | HttpError status \<Rightarrow>
                     (Inl (HttpFailure (''Failed to upload part '' @ show_nat pn @ '': '') status),
                      sent (UploadPart u k pn chunkBase64) st)
                 | JsonBody r \<Rightarrow>
                     if body_code r \<noteq> 0
                     then (Inl (ApiFailure (message_or (body_message r)
                                  (''Failed to upload part '' @ show_nat pn))),
                           sent (UploadPart u k pn chunkBase64) st)
                     else (case body_data r of
                             None \<Rightarrow> (Inl (Thrown ''Cannot read properties of undefined (reading etag)''),
                                      sent (UploadPart u k pn chunkBase64) st)
                           | Some etag' \<Rightarrow>
                               upload_parts env fl u k m tp (Suc pn)
                                 (parts @ [\<lparr>partNumber = pn, etag = etag', part_size = partSize fl pn\<rparr>])
                                 (b + partSize fl pn)
                                 (updateOSSUploadProgress pn tp (b + partSize fl pn) (file_size fl)
                                    (sent (UploadPart u k pn chunkBase64) st))))))
      else (Inr (parts, b), st))"
  by (subst upload_parts.simps)
     (simp add: Let_def partSize_def part_start_def part_end_def
        split: option.splits sum.splits fetch_result.splits)

lemma upload_parts_storage:
  "oss_storage (snd (upload_parts env fl u k m tp pn parts b st)) = oss_storage st"
proof (induction "Suc tp - pn" arbitrary: pn parts b st)
  case 0
  then show ?case by (subst upload_parts_step) simp
next
  case (Suc d)
  then have d: "d = Suc tp - Suc pn" by simp
  show ?case
    by (subst upload_parts_step)
       (simp add: Suc.hyps(1)[OF d] sent_def updateOSSUploadProgress_def
          split: option.splits sum.splits fetch_result.splits)
qed


lemma progress_shift:
  assumes "pn \<le> tp"
  shows "map (\<lambda>n. (n, tp, b + sum_list (map f [pn..<Suc n]), s)) [pn..<Suc tp] =
         (pn, tp, b + f pn, s :: nat) #
           map (\<lambda>n. (n, tp, (b + f pn) + sum_list (map f [Suc pn..<Suc n]), s)) [Suc pn..<Suc tp]"
proof -
  have "[pn..<Suc tp] = pn # [Suc pn..<Suc tp]"
    using assms by (simp add: upt_conv_Cons del: upt_Suc)
  moreover have "map (\<lambda>n. (n, tp, b + sum_list (map f [pn..<Suc n]), s)) [Suc pn..<Suc tp] =
                 map (\<lambda>n. (n, tp, (b + f pn) + sum_list (map f [Suc pn..<Suc n]), s)) [Suc pn..<Suc tp]"
  proof (rule map_cong[OF refl])
    fix n assume "n \<in> set [Suc pn..<Suc tp]"
    then have "pn < Suc n" by (simp del: upt_Suc)
    then have "[pn..<Suc n] = pn # [Suc pn..<Suc n]" by (simp add: upt_conv_Cons del: upt_Suc)
    then show "(n, tp, b + sum_list (map f [pn..<Suc n]), s) =
               (n, tp, (b + f pn) + sum_list (map f [Suc pn..<Suc n]), s)"
      by (simp add: add.assoc del: upt_Suc)
  qed
  moreover have "[pn..<Suc pn] = [pn]" by simp
  ultimately show ?thesis by (simp del: upt_Suc)
qed

definition resumed_part :: "file_info \<Rightarrow> nat \<Rightarrow> (nat \<Rightarrow> string) \<Rightarrow> (nat \<Rightarrow> string) \<Rightarrow> nat \<Rightarrow> upload_part" where
  "resumed_part fl kk e e' n =
     \<lparr>partNumber = n, etag = (if n \<le> kk then e n else e' n), part_size = partSize fl n\<rparr>"

lemma upload_parts_resume:
  assumes m: "\<And>x. m x = (if 1 \<le> x \<and> x \<le> kk then Some \<lparr>rp_partNumber = x, rp_etag = e x\<rparr> else None)"
    and rd: "\<And>n. kk < n \<Longrightarrow> n \<le> tp \<Longrightarrow>
               readAsBase64 env fl (part_start n) (part_end fl n) = Inr (content n)"
    and up: "\<And>n. kk < n \<Longrightarrow> n \<le> tp \<Longrightarrow>
               \<exists>r. fetch_uploadPart env u k n (content n) = JsonBody r \<and> body_code r = 0
                    \<and> body_data r = Some (e' n)"
    and pn: "1 \<le> pn"
  shows "upload_parts env fl u k m tp pn parts b st =
     (Inr (parts @ map (resumed_part fl kk e e') [pn..<Suc tp],
           b + sum_list (map (partSize fl) [pn..<Suc tp])),
      st\<lparr>oss_requests := oss_requests st @
             map (\<lambda>n. UploadPart u k n (content n)) (filter (\<lambda>n. kk < n) [pn..<Suc tp]),
         oss_progress := oss_progress st @
             map (\<lambda>n. (n, tp, b + sum_list (map (partSize fl) [pn..<Suc n]), file_size fl))
               [pn..<Suc tp]\<rparr>)"
  using pn
proof (induction "Suc tp - pn" arbitrary: pn parts b st)
  case 0
  then have "[pn..<Suc tp] = []" by (simp del: upt_Suc)
  with 0 show ?case by (subst upload_parts_step) (simp del: upt_Suc)
next
  case (Suc d)
  then have d: "d = Suc tp - Suc pn" and le: "pn \<le> tp" and pn1: "1 \<le> Suc pn" by simp_all
  have upt: "[pn..<Suc tp] = pn # [Suc pn..<Suc tp]"
    using le by (simp add: upt_conv_Cons del: upt_Suc)
  note IH = Suc.hyps(1)[OF d pn1]
  have flt: "filter (\<lambda>n. kk < n) [pn..<Suc tp] =
             (if kk < pn then [pn] else []) @ filter (\<lambda>n. kk < n) [Suc pn..<Suc tp]"
    by (subst upt) simp
  have parts_eq: "map (resumed_part fl kk e e') [pn..<Suc tp] =
                  resumed_part fl kk e e' pn # map (resumed_part fl kk e e') [Suc pn..<Suc tp]"
    by (subst upt) simp
  have sum_eq: "sum_list (map (partSize fl) [pn..<Suc tp]) =
                partSize fl pn + sum_list (map (partSize fl) [Suc pn..<Suc tp])"
    by (subst upt) simp
  show ?case
  proof (cases "pn \<le> kk")
    case True
    then have mp: "m pn = Some \<lparr>rp_partNumber = pn, rp_etag = e pn\<rparr>" using Suc.prems m by simp
    have step: "upload_parts env fl u k m tp pn parts b st =
        upload_parts env fl u k m tp (Suc pn) (parts @ [resumed_part fl kk e e' pn])
          (b + partSize fl pn)
          (updateOSSUploadProgress pn tp (b + partSize fl pn) (file_size fl) st)"
      by (subst upload_parts_step) (simp add: le mp resumed_part_def True)
    show ?thesis
      unfolding step IH flt parts_eq sum_eq progress_shift[OF le]
      using True by (simp add: updateOSSUploadProgress_def add.assoc del: upt_Suc)
  next
    case False
    then have kk: "kk < pn" by simp
    then have mp: "m pn = None" using m by simp
    from up[OF kk le] obtain r where r: "fetch_uploadPart env u k pn (content pn) = JsonBody r"
      "body_code r = 0" "body_data r = Some (e' pn)" by blast
    have step: "upload_parts env fl u k m tp pn parts b st =
        upload_parts env fl u k m tp (Suc pn) (parts @ [resumed_part fl kk e e' pn])
          (b + partSize fl pn)
          (updateOSSUploadProgress pn tp (b + partSize fl pn) (file_size fl)
             (sent (UploadPart u k pn (content pn)) st))"
      by (subst upload_parts_step) (simp add: le mp rd[OF kk le] r resumed_part_def False)
    show ?thesis
      unfolding step IH flt parts_eq sum_eq progress_shift[OF le]
      using kk by (simp add: updateOSSUploadProgress_def sent_def add.assoc del: upt_Suc)
  qed
qed

lemma filter_above_upt: "filter (\<lambda>n. kk < n) [1..<Suc tp] = [Suc kk..<Suc tp]"
  by (induction tp) auto

lemma list_existing_parts_storage:
  "oss_storage (snd (list_existing_parts env session st)) = oss_storage st"
  by (simp add: list_existing_parts_def sent_def Let_def split: fetch_result.splits option.splits)

lemma initiate_upload_storage:
  "initiate_upload env fl mid addr st = (r, st') \<Longrightarrow>
     (case r of
        Inl e \<Rightarrow> oss_storage st' = oss_storage st
      | Inr (u, k) \<Rightarrow> oss_storage st' = saveUploadSession (now_save env) fl mid addr u k (oss_storage st))"
  by (auto simp: initiate_upload_def sent_def Let_def split: fetch_result.splits option.splits if_splits)

lemma complete_upload_storage:
  "complete_upload env fl mid addr u k tp parts st = (Inl e, st') \<Longrightarrow> oss_storage st' = oss_storage st"
  by (auto simp: complete_upload_def sent_def updateOSSUploadProgress_def Let_def
      split: fetch_result.splits option.splits if_splits)

lemma getUploadSession_live:
  assumes "storage (getUploadSessionKey fl mid addr) = Some (SessionJson session)"
    and "now - timestamp session \<le> 7 * 24 * 60 * 60 * 1000"
  shows "getUploadSession now fl mid addr storage = (Some session, storage)"
  using assms by (simp add: getUploadSession_def maxAge_def Let_def)

lemma upload_failure_keeps_session:
  assumes user: "oss_userStore env = Some user"
    and stored: "oss_storage st (getUploadSessionKey fl (metaid user) (address user)) = Some (SessionJson session)"
    and live: "now_lookup env - timestamp session \<le> 7 * 24 * 60 * 60 * 1000"
    and failed: "fst (uploadFileToOSS env fl st) = Inl err"
  shows "oss_storage (snd (uploadFileToOSS env fl st)) (getUploadSessionKey fl (metaid user) (address user))
           \<noteq> None
       \<and> (oss_storage (snd (uploadFileToOSS env fl st)) = oss_storage st
          \<or> (\<exists>u' k'. oss_storage (snd (uploadFileToOSS env fl st)) =
                 saveUploadSession (now_save env) fl (metaid user) (address user) u' k' (oss_storage st)))"
proof -
  let ?k = "getUploadSessionKey fl (metaid user) (address user)"
  let ?kept = "\<lambda>s. s ?k \<noteq> None
       \<and> (s = oss_storage st
          \<or> (\<exists>u' k'. s = saveUploadSession (now_save env) fl (metaid user) (address user) u' k'
                          (oss_storage st)))"
  obtain es eps st1 where L: "list_existing_parts env session st = ((es, eps), st1)"
    by (cases "list_existing_parts env session st") auto
  have s1: "oss_storage st1 = oss_storage st"
    using list_existing_parts_storage[of env session st] L by simp
  obtain r2 st2 where I: "(case es of
                      Some session \<Rightarrow>
                        (if eps = [] then initiate_upload env fl (metaid user) (address user) st1
                         else (Inr (uploadId session, key session), st1))
                    | None \<Rightarrow> initiate_upload env fl (metaid user) (address user) st1) = (r2, st2)"
    by (rule prod.exhaust)
  have s2: "?kept (oss_storage st2)"
  proof (cases "es \<noteq> None \<and> eps \<noteq> []")
    case True
    then show ?thesis using I s1 stored by auto
  next
    case False
    then have "initiate_upload env fl (metaid user) (address user) st1 = (r2, st2)"
      using I by (auto split: option.splits if_splits)
    from initiate_upload_storage[OF this] show ?thesis
      using s1 stored by (cases r2) (auto simp: saveUploadSession_def)
  qed
  have T: "upload_try env fl st =
      (case (r2, st2) of
         (Inl e, st) \<Rightarrow> (Inl e, st)
       | (Inr (uploadId', key'), st) \<Rightarrow>
          (let totalParts = totalParts_of fl;
               totalBytes = file_size fl;
               existingPartsMap = existing_parts_map eps;
               st = updateOSSUploadProgress 0 totalParts 0 totalBytes st
           in (case upload_parts env fl uploadId' key' existingPartsMap totalParts 1 [] 0 st of
                 (Inl e, st) \<Rightarrow> (Inl e, st)
               | (Inr (parts, uploadedBytes), st) \<Rightarrow>
                   complete_upload env fl (metaid user) (address user) uploadId' key' totalParts
                     parts st)))"
  proof -
    have G: "getUploadSession (now_lookup env) fl (metaid user) (address user) (oss_storage st) =
               (Some session, oss_storage st)"
      using stored live by (rule getUploadSession_live)
    show ?thesis
      unfolding upload_try_def by (simp add: user G Let_def L I)
  qed
  have "?kept (oss_storage (snd (uploadFileToOSS env fl st)))"
  proof (cases r2)
    case (Inl e)
    then have "oss_storage (snd (uploadFileToOSS env fl st)) = oss_storage st2"
      using T by (simp add: uploadFileToOSS_def)
    then show ?thesis using s2 by simp
  next
    case (Inr uk)
    obtain u k where uk: "uk = (u, k)" by (cases uk)
    let ?st3 = "updateOSSUploadProgress 0 (totalParts_of fl) 0 (file_size fl) st2"
    obtain r4 st4 where U: "upload_parts env fl u k (existing_parts_map eps) (totalParts_of fl) 1 [] 0 ?st3
        = (r4, st4)" by (rule prod.exhaust)
    have s4: "oss_storage st4 = oss_storage st2"
      using upload_parts_storage[of env fl u k "existing_parts_map eps" "totalParts_of fl" 1 "[]" 0 ?st3] U
      by (simp add: updateOSSUploadProgress_def)
    show ?thesis
    proof (cases r4)
      case (Inl e)
      then have "oss_storage (snd (uploadFileToOSS env fl st)) = oss_storage st2"
        using T Inr uk U s4 by (simp add: uploadFileToOSS_def Let_def)
      then show ?thesis using s2 by simp
    next
      case (Inr pb)
      obtain parts b where pb: "pb = (parts, b)" by (cases pb)
      obtain r5 st5 where C: "complete_upload env fl (metaid user) (address user) u k (totalParts_of fl)
          parts st4 = (r5, st5)" by (rule prod.exhaust)
      have up: "upload_try env fl st = (r5, st5)"
        using T \<open>r2 = Inr uk\<close> uk U Inr pb C by (simp add: Let_def)
      show ?thesis
      proof (cases r5)
        case (Inl e)
        with C have "oss_storage st5 = oss_storage st4" by (auto dest: complete_upload_storage)
        then have "oss_storage (snd (uploadFileToOSS env fl st)) = oss_storage st2"
          using up Inl s4 by (simp add: uploadFileToOSS_def)
        then show ?thesis using s2 by simp
      next
        case (Inr sk)
        then show ?thesis using up failed by (simp add: uploadFileToOSS_def)
      qed
    qed
  qed
  then show ?thesis by simp
qed

lemma filter_above_upt_Suc: "filter ((<) kk) [Suc 0..<Suc tp] = [Suc kk..<Suc tp]"
  using filter_above_upt[of kk tp] by (simp del: upt_Suc)

lemma sort_resumed_parts:
  "sort_key partNumber (map (resumed_part fl kk e e') [1..<Suc tp]) = map (resumed_part fl kk e e') [1..<Suc tp]"
proof (rule sort_key_id_if_sorted)
  have "map partNumber (map (resumed_part fl kk e e') [1..<Suc tp]) = [1..<Suc tp]"
    by (simp add: resumed_part_def o_def del: upt_Suc)
  then show "sorted (map partNumber (map (resumed_part fl kk e e') [1..<Suc tp]))"
    by (simp del: upt_Suc)
qed

lemma upload_resume_scenario:
  assumes user: "oss_userStore env = Some user"
    and stored: "oss_storage st (getUploadSessionKey fl (metaid user) (address user)) = Some (SessionJson session)"
    and live: "now_lookup env - timestamp session \<le> 7 * 24 * 60 * 60 * 1000"
    and listed: "fetch_listParts env (uploadId session) (key session) = JsonBody lp" "body_code lp = 0"
      "body_data lp = Some (map (\<lambda>n. \<lparr>rp_partNumber = n, rp_etag = e n\<rparr>) [1..<Suc kk])" "1 \<le> kk"
    and rd: "\<And>n. kk < n \<Longrightarrow> n \<le> totalParts_of fl \<Longrightarrow>
               readAsBase64 env fl (part_start n) (part_end fl n) = Inr (content n)"
    and up: "\<And>n. kk < n \<Longrightarrow> n \<le> totalParts_of fl \<Longrightarrow>
               \<exists>r. fetch_uploadPart env (uploadId session) (key session) n (content n) = JsonBody r
                    \<and> body_code r = 0 \<and> body_data r = Some (e' n)"
  shows "upload_try env fl st =
           complete_upload env fl (metaid user) (address user) (uploadId session) (key session)
             (totalParts_of fl) (map (resumed_part fl kk e e') [1..<Suc (totalParts_of fl)])
             (st\<lparr>oss_requests := oss_requests st @
                    ListParts (uploadId session) (key session) #
                    map (\<lambda>n. UploadPart (uploadId session) (key session) n (content n))
                      [Suc kk..<Suc (totalParts_of fl)],
                 oss_progress := oss_progress st @
                    (0, totalParts_of fl, 0, file_size fl) #
                    map (\<lambda>n. (n, totalParts_of fl, sum_list (map (partSize fl) [1..<Suc n]), file_size fl))
                      [1..<Suc (totalParts_of fl)]\<rparr>)"
proof -
  let ?u = "uploadId session" and ?k = "key session" and ?tp = "totalParts_of fl"
  define ps where "ps = map (\<lambda>n. \<lparr>rp_partNumber = n, rp_etag = e n\<rparr>) [1..<Suc kk]"
  have G: "getUploadSession (now_lookup env) fl (metaid user) (address user) (oss_storage st) =
             (Some session, oss_storage st)"
    using stored live by (rule getUploadSession_live)
  have ne: "ps \<noteq> []" using listed(4) by (simp add: ps_def del: upt_Suc)
  have L: "list_existing_parts env session st = ((Some session, ps), sent (ListParts ?u ?k) st)"
    by (simp add: list_existing_parts_def listed Let_def ps_def del: upt_Suc One_nat_def)
  have m: "\<And>x. existing_parts_map ps x =
            (if 1 \<le> x \<and> x \<le> kk then Some \<lparr>rp_partNumber = x, rp_etag = e x\<rparr> else None)"
    unfolding ps_def by (rule existing_parts_map_range)
  let ?st1 = "updateOSSUploadProgress 0 ?tp 0 (file_size fl) (sent (ListParts ?u ?k) st)"
  have loop: "upload_parts env fl ?u ?k (existing_parts_map ps) ?tp 1 [] 0 ?st1 =
     (Inr ([] @ map (resumed_part fl kk e e') [1..<Suc ?tp],
           0 + sum_list (map (partSize fl) [1..<Suc ?tp])),
      ?st1\<lparr>oss_requests := oss_requests ?st1 @
             map (\<lambda>n. UploadPart ?u ?k n (content n)) (filter (\<lambda>n. kk < n) [1..<Suc ?tp]),
         oss_progress := oss_progress ?st1 @
             map (\<lambda>n. (n, ?tp, 0 + sum_list (map (partSize fl) [1..<Suc n]), file_size fl))
               [1..<Suc ?tp]\<rparr>)"
    by (rule upload_parts_resume[OF m rd up]) simp_all
  have st_eq: "?st1\<lparr>oss_requests := oss_requests ?st1 @
             map (\<lambda>n. UploadPart ?u ?k n (content n)) (filter (\<lambda>n. kk < n) [1..<Suc ?tp]),
         oss_progress := oss_progress ?st1 @
             map (\<lambda>n. (n, ?tp, 0 + sum_list (map (partSize fl) [1..<Suc n]), file_size fl))
               [1..<Suc ?tp]\<rparr> =
        st\<lparr>oss_requests := oss_requests st @ ListParts ?u ?k #
                    map (\<lambda>n. UploadPart ?u ?k n (content n)) [Suc kk..<Suc ?tp],
            oss_progress := oss_progress st @ (0, ?tp, 0, file_size fl) #
                    map (\<lambda>n. (n, ?tp, sum_list (map (partSize fl) [1..<Suc n]), file_size fl))
                      [1..<Suc ?tp]\<rparr>"
    by (simp add: filter_above_upt updateOSSUploadProgress_def sent_def del: upt_Suc One_nat_def)
  show ?thesis
    unfolding upload_try_def
    by (simp add: user G L ne loop[unfolded st_eq] Let_def del: upt_Suc One_nat_def)
qed

lemma before_last_part:
  assumes "Suc n \<le> totalParts_of fl"
  shows "n * MULTIPART_CHUNK_SIZE < file_size fl"
proof -
  have "int n < \<lceil>real (file_size fl) / real MULTIPART_CHUNK_SIZE\<rceil>"
    using assms by (simp add: totalParts_of_def)
  then have "real n < real (file_size fl) / real MULTIPART_CHUNK_SIZE"
    by (simp add: less_ceiling_iff)
  then have "real n * real MULTIPART_CHUNK_SIZE < real (file_size fl)"
    by (simp add: MULTIPART_CHUNK_SIZE_def field_simps)
  then have "real (n * MULTIPART_CHUNK_SIZE) < real (file_size fl)" by simp
  then show ?thesis by (simp only: of_nat_less_iff)
qed

lemma total_parts_cover: "file_size fl \<le> totalParts_of fl * MULTIPART_CHUNK_SIZE"
proof -
  have "real (file_size fl) / real MULTIPART_CHUNK_SIZE
          \<le> real_of_int \<lceil>real (file_size fl) / real MULTIPART_CHUNK_SIZE\<rceil>"
    by (rule le_of_int_ceiling)
  also have "\<dots> = real (totalParts_of fl)"
  proof -
    have "0 \<le> \<lceil>real (file_size fl) / real MULTIPART_CHUNK_SIZE\<rceil>"
      by (simp add: MULTIPART_CHUNK_SIZE_def)
    then show ?thesis by (simp add: totalParts_of_def)
  qed
  finally have "real (file_size fl) \<le> real (totalParts_of fl) * real MULTIPART_CHUNK_SIZE"
    by (simp add: MULTIPART_CHUNK_SIZE_def field_simps)
  then have "real (file_size fl) \<le> real (totalParts_of fl * MULTIPART_CHUNK_SIZE)" by simp
  then show ?thesis by (simp only: of_nat_le_iff)
qed

lemma uploaded_bytes:
  "n \<le> totalParts_of fl \<Longrightarrow>
     sum_list (map (partSize fl) [1..<Suc n]) = min (n * MULTIPART_CHUNK_SIZE) (file_size fl)"
proof (induction n)
  case 0
  then show ?case by simp
next
  case (Suc n)
  then have IH: "sum_list (map (partSize fl) [1..<Suc n]) = min (n * MULTIPART_CHUNK_SIZE) (file_size fl)"
    by simp
  have lt: "n * MULTIPART_CHUNK_SIZE < file_size fl" using Suc.prems by (rule before_last_part)
  have "sum_list (map (partSize fl) [1..<Suc (Suc n)]) =
        sum_list (map (partSize fl) [1..<Suc n]) + partSize fl (Suc n)"
    by simp
  also have "\<dots> = n * MULTIPART_CHUNK_SIZE + partSize fl (Suc n)"
    using IH lt by simp
  also have "\<dots> = min (Suc n * MULTIPART_CHUNK_SIZE) (file_size fl)"
    using lt by (simp add: partSize_def part_end_def part_start_def min_def)
  finally show ?case .
qed

lemma all_bytes_uploaded:
  "sum_list (map (partSize fl) [1..<Suc (totalParts_of fl)]) = file_size fl"
  using uploaded_bytes[of "totalParts_of fl" fl] total_parts_cover[of fl] by simp

lemma complete_upload_trace:
  "oss_requests (snd (complete_upload env fl mid addr u k tp parts st)) =
     oss_requests st @ [Complete u k (sort_key partNumber parts)]"
  "oss_progress (snd (complete_upload env fl mid addr u k tp parts st)) =
     oss_progress st @ [(tp, tp, file_size fl, file_size fl)]"
  by (simp_all add: complete_upload_def sent_def updateOSSUploadProgress_def Let_def
      split: fetch_result.splits option.splits)

lemma complete_upload_success:
  assumes "fetch_complete env u k (sort_key partNumber parts) = JsonBody c"
    and "body_code c = 0" and "body_data c = Some sk"
  shows "fst (complete_upload env fl mid addr u k tp parts st) = Inr sk"
    and "oss_storage (snd (complete_upload env fl mid addr u k tp parts st)) =
           (oss_storage st)(getUploadSessionKey fl mid addr := None)"
  using assms
  by (simp_all add: complete_upload_def sent_def updateOSSUploadProgress_def Let_def
        clearUploadSession_def)

lemma complete_upload_failure:
  assumes "\<not> (\<exists>c sk. fetch_complete env u k (sort_key partNumber parts) = JsonBody c
                 \<and> body_code c = 0 \<and> body_data c = Some sk)"
  shows "\<exists>err. fst (complete_upload env fl mid addr u k tp parts st) = Inl err"
    and "oss_storage (snd (complete_upload env fl mid addr u k tp parts st)) = oss_storage st"
  using assms
  by (auto simp: complete_upload_def sent_def updateOSSUploadProgress_def Let_def
        split: fetch_result.splits option.splits)

lemma fst_uploadFileToOSS:
  "fst (uploadFileToOSS env fl st) =
     (case fst (upload_try env fl st) of
        Inl e \<Rightarrow> Inl (Wrapped ''Failed to upload file to OSS: '' e) | Inr sk \<Rightarrow> Inr sk)"
  "snd (uploadFileToOSS env fl st) = snd (upload_try env fl st)"
  by (auto simp: uploadFileToOSS_def split: prod.splits sum.splits)

text \<open>
  The loop stops with the error of the first part that cannot be uploaded: a part \<open>j\<close>
  that is not listed and whose read or upload does not succeed makes the loop fail,
  whatever happens to the parts before it.
\<close>

lemma upload_parts_fails:
  assumes m: "\<And>x. m x = (if 1 \<le> x \<and> x \<le> kk then Some \<lparr>rp_partNumber = x, rp_etag = e x\<rparr> else None)"
    and j: "kk < j" "j \<le> tp"
    and bad: "\<not> (\<exists>c r et. readAsBase64 env fl (part_start j) (part_end fl j) = Inr c
                  \<and> fetch_uploadPart env u k j c = JsonBody r \<and> body_code r = 0
                  \<and> body_data r = Some et)"
    and pn: "pn \<le> j"
  shows "\<exists>err. fst (upload_parts env fl u k m tp pn parts b st) = Inl err"
  using pn
proof (induction "j - pn" arbitrary: pn parts b st)
  case 0
  then have pj: "pn = j" by simp
  have mp: "m j = None" using m j by simp
  show ?case
    using bad j unfolding pj
    by (subst upload_parts_step)
       (auto simp: mp split: sum.splits fetch_result.splits option.splits)
next
  case (Suc d)
  then have lt: "pn < j" and d: "d = j - Suc pn" and le: "Suc pn \<le> j" by simp_all
  have IH: "\<exists>err. fst (upload_parts env fl u k m tp (Suc pn) parts' b' st') = Inl err" for parts' b' st'
    using Suc.hyps(1)[OF d le] .
  have ptp: "pn \<le> tp" using lt j by simp
  show ?case
    by (subst upload_parts_step)
       (auto simp: ptp IH split: sum.splits fetch_result.splits option.splits)
qed

text \<open>
  With a live session and a listing that reports at least one part, no upload is
  initiated: the \<^verbatim>\<open>try\<close> block is the loop followed by the completion.
\<close>

lemma upload_try_after_listing:
  assumes user: "oss_userStore env = Some user"
    and stored: "oss_storage st (getUploadSessionKey fl (metaid user) (address user)) = Some (SessionJson session)"
    and live: "now_lookup env - timestamp session \<le> 7 * 24 * 60 * 60 * 1000"
    and listed: "fetch_listParts env (uploadId session) (key session) = JsonBody lp" "body_code lp = 0"
      "body_data lp = Some ps" "ps \<noteq> []"
  shows "upload_try env fl st =
     (case upload_parts env fl (uploadId session) (key session) (existing_parts_map ps)
             (totalParts_of fl) 1 [] 0
             (updateOSSUploadProgress 0 (totalParts_of fl) 0 (file_size fl)
                (sent (ListParts (uploadId session) (key session)) st)) of
        (Inl e, st') \<Rightarrow> (Inl e, st')
      | (Inr (parts, uploadedBytes), st') \<Rightarrow>
          complete_upload env fl (metaid user) (address user) (uploadId session) (key session)
            (totalParts_of fl) parts st')"
proof -
  have G: "getUploadSession (now_lookup env) fl (metaid user) (address user) (oss_storage st) =
             (Some session, oss_storage st)"
    using stored live by (rule getUploadSession_live)
  have L: "list_existing_parts env session st =
             ((Some session, ps), sent (ListParts (uploadId session) (key session)) st)"
    by (simp add: list_existing_parts_def listed Let_def)
  show ?thesis
    unfolding upload_try_def
    by (simp add: user G L listed(4) Let_def del: One_nat_def)
qed

lemma upload_failure_unchanged_after_listing:
  assumes user: "oss_userStore env = Some user"
    and stored: "oss_storage st (getUploadSessionKey fl (metaid user) (address user)) = Some (SessionJson session)"
    and live: "now_lookup env - timestamp session \<le> 7 * 24 * 60 * 60 * 1000"
    and listed: "fetch_listParts env (uploadId session) (key session) = JsonBody lp" "body_code lp = 0"
      "body_data lp = Some ps" "ps \<noteq> []"
    and failed: "fst (uploadFileToOSS env fl st) = Inl err"
  shows "oss_storage (snd (uploadFileToOSS env fl st)) = oss_storage st"
proof -
  let ?st1 = "updateOSSUploadProgress 0 (totalParts_of fl) 0 (file_size fl)
                (sent (ListParts (uploadId session) (key session)) st)"
  note T = upload_try_after_listing[OF user stored live listed]
  obtain r4 st4 where U: "upload_parts env fl (uploadId session) (key session) (existing_parts_map ps)
             (totalParts_of fl) 1 [] 0 ?st1 = (r4, st4)" by (rule prod.exhaust)
  have s4: "oss_storage st4 = oss_storage st"
    using upload_parts_storage[of env fl "uploadId session" "key session" "existing_parts_map ps"
        "totalParts_of fl" 1 "[]" 0 ?st1] U
    by (simp add: updateOSSUploadProgress_def sent_def)
  show ?thesis
  proof (cases r4)
    case (Inl e)
    then show ?thesis using T U s4 by (simp add: fst_uploadFileToOSS)
  next
    case (Inr pb)
    obtain parts b where pb: "pb = (parts, b)" by (cases pb)
    obtain r5 st5 where C: "complete_upload env fl (metaid user) (address user) (uploadId session)
        (key session) (totalParts_of fl) parts st4 = (r5, st5)" by (rule prod.exhaust)
    have up: "upload_try env fl st = (r5, st5)"
      using T U Inr pb C by simp
    show ?thesis
    proof (cases r5)
      case (Inl e)
      with C have "oss_storage st5 = oss_storage st4" by (auto dest: complete_upload_storage)
      then show ?thesis using up s4 by (simp add: fst_uploadFileToOSS)
    next
      case (Inr sk)
      then show ?thesis using up failed by (simp add: fst_uploadFileToOSS)
    qed
  qed
qed

lemma upload_fails_when_part_fails:
  assumes user: "oss_userStore env = Some user"
    and stored: "oss_storage st (getUploadSessionKey fl (metaid user) (address user)) = Some (SessionJson session)"
    and live: "now_lookup env - timestamp session \<le> 7 * 24 * 60 * 60 * 1000"
    and listed: "fetch_listParts env (uploadId session) (key session) = JsonBody lp" "body_code lp = 0"
      "body_data lp = Some (map (\<lambda>n. \<lparr>rp_partNumber = n, rp_etag = e n\<rparr>) [1..<Suc kk])" "1 \<le> kk"
    and j: "kk < j" "j \<le> totalParts_of fl"
    and bad: "\<not> (\<exists>c r et. readAsBase64 env fl (part_start j) (part_end fl j) = Inr c
                  \<and> fetch_uploadPart env (uploadId session) (key session) j c = JsonBody r
                  \<and> body_code r = 0 \<and> body_data r = Some et)"
  shows "\<exists>err. fst (uploadFileToOSS env fl st) = Inl err"
proof -
  define ps where "ps = map (\<lambda>n. \<lparr>rp_partNumber = n, rp_etag = e n\<rparr>) [1..<Suc kk]"
  have ne: "ps \<noteq> []" using listed(4) by (simp add: ps_def del: upt_Suc)
  have m: "\<And>x. existing_parts_map ps x =
            (if 1 \<le> x \<and> x \<le> kk then Some \<lparr>rp_partNumber = x, rp_etag = e x\<rparr> else None)"
    unfolding ps_def by (rule existing_parts_map_range)
  note T = upload_try_after_listing[OF user stored live listed(1,2) listed(3)[folded ps_def] ne]
  have one: "1 \<le> j" using j(1) by simp
  from upload_parts_fails[OF m j bad one]
  obtain err where "fst (upload_parts env fl (uploadId session) (key session) (existing_parts_map ps)
             (totalParts_of fl) 1 [] 0
             (updateOSSUploadProgress 0 (totalParts_of fl) 0 (file_size fl)
                (sent (ListParts (uploadId session) (key session)) st))) = Inl err"
    by blast
  then have "fst (upload_try env fl st) = Inl err"
    unfolding T by (auto split: prod.splits)
  then show ?thesis by (simp add: fst_uploadFileToOSS)
qed

text \<open>
  Claim C3.  Let a session for (file name, file size, metaId, address) be stored and at
  most 7 days old.  (1) Whenever the call fails, at whatever step, the record under the
  session key is still present afterwards: local storage is as before the call, or holds
  the session of a newly initiated upload under that key.  (2) If the list-parts response
  reports parts \<open>1..k\<close> (\<open>k \<ge> 1\<close>) with etags \<open>e\<close>, then every failure of the call, in
  the read or the upload of a part or in the completion, leaves local storage exactly as
  it was before the call, and the call does fail as soon as the read or the upload of
  one of the parts \<open>k+1..total\<close> does not succeed.  (3) If moreover the read and the upload of each part
  \<open>k+1..total\<close> succeed with etags \<open>e'\<close>, then the requests sent are the listing, one
  upload for each of the parts \<open>k+1..total\<close> in order and no other, and the completion
  call with exactly the parts \<open>1..total\<close> in ascending order, each part \<open>\<le> k\<close> carrying its
  recorded etag; progress is reported once with zero, after each part \<open>n\<close> (skipped or
  uploaded) with the bytes up to part \<open>n\<close>, and once with the total.  If the completion
  succeeds the storage key is returned and the session record is deleted; if it fails
  the call fails and local storage is unchanged.
\<close>

theorem uploadFileToOSS_resume:
  fixes env :: oss_env and fl :: file_info and st :: oss_state and user :: user_info
    and session :: upload_session and kk :: nat and e e' content :: "nat \<Rightarrow> string"
  defines "skey \<equiv> getUploadSessionKey fl (metaid user) (address user)"
  defines "tp \<equiv> totalParts_of fl"
  defines "allParts \<equiv> map (resumed_part fl kk e e') [1..<Suc tp]"
  defines "run \<equiv> uploadFileToOSS env fl st"
  assumes user: "oss_userStore env = Some user"
    and stored: "oss_storage st skey = Some (SessionJson session)"
    and live: "now_lookup env - timestamp session \<le> 7 * 24 * 60 * 60 * 1000"
  shows "(\<forall>err. fst run = Inl err \<longrightarrow>
            oss_storage (snd run) skey \<noteq> None
            \<and> (oss_storage (snd run) = oss_storage st
               \<or> (\<exists>u' k'. oss_storage (snd run) =
                      saveUploadSession (now_save env) fl (metaid user) (address user) u' k'
                        (oss_storage st))))
     \<and> ((\<exists>lp. fetch_listParts env (uploadId session) (key session) = JsonBody lp \<and> body_code lp = 0
              \<and> body_data lp = Some (map (\<lambda>n. \<lparr>rp_partNumber = n, rp_etag = e n\<rparr>) [1..<Suc kk]))
          \<and> 1 \<le> kk
         \<longrightarrow>
           (\<forall>err. fst run = Inl err \<longrightarrow> oss_storage (snd run) = oss_storage st)
         \<and> ((\<exists>j. kk < j \<and> j \<le> tp
                  \<and> \<not> (\<exists>c r et. readAsBase64 env fl (part_start j) (part_end fl j) = Inr c
                         \<and> fetch_uploadPart env (uploadId session) (key session) j c = JsonBody r
                         \<and> body_code r = 0 \<and> body_data r = Some et))
              \<longrightarrow> (\<exists>err. fst run = Inl err)))
     \<and> ((\<exists>lp. fetch_listParts env (uploadId session) (key session) = JsonBody lp \<and> body_code lp = 0
              \<and> body_data lp = Some (map (\<lambda>n. \<lparr>rp_partNumber = n, rp_etag = e n\<rparr>) [1..<Suc kk]))
          \<and> 1 \<le> kk
          \<and> (\<forall>n. kk < n \<and> n \<le> tp \<longrightarrow>
                 readAsBase64 env fl (part_start n) (part_end fl n) = Inr (content n))
          \<and> (\<forall>n. kk < n \<and> n \<le> tp \<longrightarrow>
                 (\<exists>r. fetch_uploadPart env (uploadId session) (key session) n (content n) = JsonBody r
                      \<and> body_code r = 0 \<and> body_data r = Some (e' n)))
         \<longrightarrow>
           oss_requests (snd run) =
             oss_requests st @ [ListParts (uploadId session) (key session)]
               @ map (\<lambda>n. UploadPart (uploadId session) (key session) n (content n)) [Suc kk..<Suc tp]
               @ [Complete (uploadId session) (key session) allParts]
         \<and> map partNumber allParts = [1..<Suc tp]
         \<and> map etag allParts = map (\<lambda>n. if n \<le> kk then e n else e' n) [1..<Suc tp]
         \<and> map part_size allParts = map (partSize fl) [1..<Suc tp]
         \<and> sum_list (map part_size allParts) = file_size fl
         \<and> oss_progress (snd run) =
             oss_progress st @ [(0, tp, 0, file_size fl)]
               @ map (\<lambda>n. (n, tp, min (n * MULTIPART_CHUNK_SIZE) (file_size fl), file_size fl)) [1..<Suc tp]
               @ [(tp, tp, file_size fl, file_size fl)]
         \<and> (\<forall>c sk. fetch_complete env (uploadId session) (key session) allParts = JsonBody c
                     \<and> body_code c = 0 \<and> body_data c = Some sk
                 \<longrightarrow> fst run = Inr sk \<and> oss_storage (snd run) = (oss_storage st)(skey := None))
         \<and> (\<not> (\<exists>c sk. fetch_complete env (uploadId session) (key session) allParts = JsonBody c
                     \<and> body_code c = 0 \<and> body_data c = Some sk)
                 \<longrightarrow> (\<exists>err. fst run = Inl err) \<and> oss_storage (snd run) = oss_storage st))"
proof (intro conjI allI impI)
  fix err assume "fst run = Inl err"
  then have kept: "oss_storage (snd run) skey \<noteq> None
       \<and> (oss_storage (snd run) = oss_storage st
          \<or> (\<exists>u' k'. oss_storage (snd run) =
                 saveUploadSession (now_save env) fl (metaid user) (address user) u' k' (oss_storage st)))"
    using upload_failure_keeps_session[of env user st fl session err] user stored live
    unfolding run_def skey_def by blast
  from kept show "oss_storage (snd run) skey \<noteq> None" by blast
  from kept show "oss_storage (snd run) = oss_storage st
          \<or> (\<exists>u' k'. oss_storage (snd run) =
                 saveUploadSession (now_save env) fl (metaid user) (address user) u' k' (oss_storage st))"
    by blast
next
  fix err
  assume ls: "(\<exists>lp. fetch_listParts env (uploadId session) (key session) = JsonBody lp \<and> body_code lp = 0
              \<and> body_data lp = Some (map (\<lambda>n. \<lparr>rp_partNumber = n, rp_etag = e n\<rparr>) [1..<Suc kk]))
          \<and> 1 \<le> kk"
    and failed: "fst run = Inl err"
  then obtain lp where lp: "fetch_listParts env (uploadId session) (key session) = JsonBody lp"
      "body_code lp = 0"
      "body_data lp = Some (map (\<lambda>n. \<lparr>rp_partNumber = n, rp_etag = e n\<rparr>) [1..<Suc kk])" "1 \<le> kk"
    by blast
  have ne: "map (\<lambda>n. \<lparr>rp_partNumber = n, rp_etag = e n\<rparr>) [1..<Suc kk] \<noteq> []"
    using lp(4) by (simp del: upt_Suc)
  show "oss_storage (snd run) = oss_storage st"
    unfolding run_def
    by (rule upload_failure_unchanged_after_listing
          [OF user stored[unfolded skey_def] live lp(1,2,3) ne failed[unfolded run_def]])
next
  assume ls: "(\<exists>lp. fetch_listParts env (uploadId session) (key session) = JsonBody lp \<and> body_code lp = 0
              \<and> body_data lp = Some (map (\<lambda>n. \<lparr>rp_partNumber = n, rp_etag = e n\<rparr>) [1..<Suc kk]))
          \<and> 1 \<le> kk"
    and bad: "\<exists>j. kk < j \<and> j \<le> tp
                  \<and> \<not> (\<exists>c r et. readAsBase64 env fl (part_start j) (part_end fl j) = Inr c
                         \<and> fetch_uploadPart env (uploadId session) (key session) j c = JsonBody r
                         \<and> body_code r = 0 \<and> body_data r = Some et)"
  from ls obtain lp where lp: "fetch_listParts env (uploadId session) (key session) = JsonBody lp"
      "body_code lp = 0"
      "body_data lp = Some (map (\<lambda>n. \<lparr>rp_partNumber = n, rp_etag = e n\<rparr>) [1..<Suc kk])" "1 \<le> kk"
    by blast
  from bad obtain j where j: "kk < j" "j \<le> totalParts_of fl"
      "\<not> (\<exists>c r et. readAsBase64 env fl (part_start j) (part_end fl j) = Inr c
            \<and> fetch_uploadPart env (uploadId session) (key session) j c = JsonBody r
            \<and> body_code r = 0 \<and> body_data r = Some et)"
    unfolding tp_def by blast
  show "\<exists>err. fst run = Inl err"
    unfolding run_def
    by (rule upload_fails_when_part_fails[OF user stored[unfolded skey_def] live lp j])
next
  assume sc: "(\<exists>lp. fetch_listParts env (uploadId session) (key session) = JsonBody lp \<and> body_code lp = 0
              \<and> body_data lp = Some (map (\<lambda>n. \<lparr>rp_partNumber = n, rp_etag = e n\<rparr>) [1..<Suc kk]))
          \<and> 1 \<le> kk
          \<and> (\<forall>n. kk < n \<and> n \<le> tp \<longrightarrow>
                 readAsBase64 env fl (part_start n) (part_end fl n) = Inr (content n))
          \<and> (\<forall>n. kk < n \<and> n \<le> tp \<longrightarrow>
                 (\<exists>r. fetch_uploadPart env (uploadId session) (key session) n (content n) = JsonBody r
                      \<and> body_code r = 0 \<and> body_data r = Some (e' n)))"
  then obtain lp where lp: "fetch_listParts env (uploadId session) (key session) = JsonBody lp"
      "body_code lp = 0"
      "body_data lp = Some (map (\<lambda>n. \<lparr>rp_partNumber = n, rp_etag = e n\<rparr>) [1..<Suc kk])" "1 \<le> kk"
    by blast
  have rd: "\<And>n. kk < n \<Longrightarrow> n \<le> totalParts_of fl \<Longrightarrow>
               readAsBase64 env fl (part_start n) (part_end fl n) = Inr (content n)"
    using sc unfolding tp_def by blast
  have up: "\<And>n. kk < n \<Longrightarrow> n \<le> totalParts_of fl \<Longrightarrow>
               \<exists>r. fetch_uploadPart env (uploadId session) (key session) n (content n) = JsonBody r
                    \<and> body_code r = 0 \<and> body_data r = Some (e' n)"
    using sc unfolding tp_def by blast
  let ?st2 = "st\<lparr>oss_requests := oss_requests st @
                    ListParts (uploadId session) (key session) #
                    map (\<lambda>n. UploadPart (uploadId session) (key session) n (content n)) [Suc kk..<Suc tp],
                 oss_progress := oss_progress st @
                    (0, tp, 0, file_size fl) #
                    map (\<lambda>n. (n, tp, sum_list (map (partSize fl) [1..<Suc n]), file_size fl))
                      [1..<Suc tp]\<rparr>"
  have T: "upload_try env fl st =
           complete_upload env fl (metaid user) (address user) (uploadId session) (key session)
             tp allParts ?st2"
    unfolding tp_def allParts_def
    by (rule upload_resume_scenario[OF user stored[unfolded skey_def] live lp rd up])
  have srt: "sort_key partNumber allParts = allParts"
    unfolding allParts_def by (rule sort_resumed_parts)
  have prog: "map (\<lambda>n. (n, tp, sum_list (map (partSize fl) [1..<Suc n]), file_size fl)) [1..<Suc tp] =
              map (\<lambda>n. (n, tp, min (n * MULTIPART_CHUNK_SIZE) (file_size fl), file_size fl)) [1..<Suc tp]"
  proof (rule map_cong[OF refl])
    fix n assume "n \<in> set [1..<Suc tp]"
    then have "n \<le> totalParts_of fl" by (simp add: tp_def del: upt_Suc)
    then show "(n, tp, sum_list (map (partSize fl) [1..<Suc n]), file_size fl) =
               (n, tp, min (n * MULTIPART_CHUNK_SIZE) (file_size fl), file_size fl)"
      by (simp only: uploaded_bytes)
  qed
  show "oss_requests (snd run) =
             oss_requests st @ [ListParts (uploadId session) (key session)]
               @ map (\<lambda>n. UploadPart (uploadId session) (key session) n (content n)) [Suc kk..<Suc tp]
               @ [Complete (uploadId session) (key session) allParts]"
    unfolding run_def fst_uploadFileToOSS T complete_upload_trace srt by simp
  show "map partNumber allParts = [1..<Suc tp]"
    unfolding allParts_def by (simp add: resumed_part_def o_def del: upt_Suc)
  show "map etag allParts = map (\<lambda>n. if n \<le> kk then e n else e' n) [1..<Suc tp]"
    unfolding allParts_def by (simp add: resumed_part_def o_def del: upt_Suc)
  show sizes: "map part_size allParts = map (partSize fl) [1..<Suc tp]"
    unfolding allParts_def by (simp add: resumed_part_def o_def del: upt_Suc)
  show "sum_list (map part_size allParts) = file_size fl"
    unfolding sizes tp_def by (rule all_bytes_uploaded)
  show "oss_progress (snd run) =
             oss_progress st @ [(0, tp, 0, file_size fl)]
               @ map (\<lambda>n. (n, tp, min (n * MULTIPART_CHUNK_SIZE) (file_size fl), file_size fl)) [1..<Suc tp]
               @ [(tp, tp, file_size fl, file_size fl)]"
    unfolding run_def fst_uploadFileToOSS T complete_upload_trace prog[symmetric] by simp
  {
    fix c sk
    assume c: "fetch_complete env (uploadId session) (key session) allParts = JsonBody c
                     \<and> body_code c = 0 \<and> body_data c = Some sk"
    then have c': "fetch_complete env (uploadId session) (key session) (sort_key partNumber allParts) = JsonBody c"
      "body_code c = 0" "body_data c = Some sk"
      using srt by simp_all
    show "fst run = Inr sk"
      unfolding run_def fst_uploadFileToOSS T complete_upload_success(1)[OF c'] by simp
    show "oss_storage (snd run) = (oss_storage st)(skey := None)"
      unfolding run_def fst_uploadFileToOSS T complete_upload_success(2)[OF c'] skey_def by simp
  }
  {
    assume n: "\<not> (\<exists>c sk. fetch_complete env (uploadId session) (key session) allParts = JsonBody c
                     \<and> body_code c = 0 \<and> body_data c = Some sk)"
    then have n': "\<not> (\<exists>c sk. fetch_complete env (uploadId session) (key session)
                       (sort_key partNumber allParts) = JsonBody c
                     \<and> body_code c = 0 \<and> body_data c = Some sk)"
      using srt by simp
    from complete_upload_failure(1)[OF n', of fl "metaid user" "address user" tp ?st2]
    obtain err where "fst (upload_try env fl st) = Inl err" unfolding T by blast
    then show "\<exists>err. fst run = Inl err"
      unfolding run_def fst_uploadFileToOSS by simp
    show "oss_storage (snd run) = oss_storage st"
      unfolding run_def fst_uploadFileToOSS T complete_upload_failure(2)[OF n'] by simp
  }
qed

text \<open>
  A resumed run: \<open>demo_file\<close> has three parts, the stored session is \<open>u1\<close>/\<open>k1\<close>, the store
  lists part 1, every upload succeeds, and the completion succeeds or answers 500.  In
  \<open>demo_oss_env_part_fails\<close> the upload of part 3 is answered with status 503.
\<close>

definition demo_oss_env :: "bool \<Rightarrow> oss_env" where
  "demo_oss_env completes =
     \<lparr>oss_userStore = Some demo_user, now_lookup = 1000, now_save = 1000,
      fetch_listParts = (\<lambda>u k. JsonBody \<lparr>body_code = 0, body_message = None,
                           body_data = Some [\<lparr>rp_partNumber = 1, rp_etag = ''e1''\<rparr>]\<rparr>),
      fetch_initiate = (\<lambda>n s m a. JsonBody \<lparr>body_code = 0, body_message = None,
                           body_data = Some (''u2'', ''k2'')\<rparr>),
      fetch_uploadPart = (\<lambda>u k n c. JsonBody \<lparr>body_code = 0, body_message = None,
                           body_data = Some ''new''\<rparr>),
      fetch_complete = (\<lambda>u k ps. if completes
                           then JsonBody \<lparr>body_code = 0, body_message = None, body_data = Some ''k1''\<rparr>
                           else HttpError 500),
      readAsBase64 = (\<lambda>f s e. Inr ''QUJD'')\<rparr>"

definition demo_oss_env_part_fails :: oss_env where
  "demo_oss_env_part_fails =
     (demo_oss_env True)\<lparr>fetch_uploadPart :=
        (\<lambda>u k n c. if n = 3 then HttpError 503
                   else JsonBody \<lparr>body_code = 0, body_message = None, body_data = Some ''new''\<rparr>)\<rparr>"

definition demo_oss_state :: oss_state where
  "demo_oss_state = \<lparr>oss_storage = demo_storage 0, oss_requests = [], oss_progress = []\<rparr>"

lemma demo_totalParts: "totalParts_of demo_file = 3"
proof -
  have "\<lceil>(3000000 :: real) / 1048576\<rceil> = 3" by (rule ceiling_unique) simp_all
  then show ?thesis by (simp add: totalParts_of_def demo_file_def MULTIPART_CHUNK_SIZE_def)
qed

theorem uploadFileToOSS_resume_witness:
  "fst (uploadFileToOSS (demo_oss_env True) demo_file demo_oss_state) = Inr ''k1''
   \<and> oss_storage (snd (uploadFileToOSS (demo_oss_env True) demo_file demo_oss_state)) = Map.empty
   \<and> oss_requests (snd (uploadFileToOSS (demo_oss_env True) demo_file demo_oss_state)) =
       [ListParts ''u1'' ''k1'', UploadPart ''u1'' ''k1'' 2 ''QUJD'', UploadPart ''u1'' ''k1'' 3 ''QUJD'',
        Complete ''u1'' ''k1''
          [\<lparr>partNumber = 1, etag = ''e1'', part_size = 1048576\<rparr>,
           \<lparr>partNumber = 2, etag = ''new'', part_size = 1048576\<rparr>,
           \<lparr>partNumber = 3, etag = ''new'', part_size = 902848\<rparr>]]
   \<and> oss_progress (snd (uploadFileToOSS (demo_oss_env True) demo_file demo_oss_state)) =
       [(0, 3, 0, 3000000), (1, 3, 1048576, 3000000), (2, 3, 2097152, 3000000),
        (3, 3, 3000000, 3000000), (3, 3, 3000000, 3000000)]
   \<and> (\<exists>err. fst (uploadFileToOSS (demo_oss_env False) demo_file demo_oss_state) = Inl err)
   \<and> oss_storage (snd (uploadFileToOSS (demo_oss_env False) demo_file demo_oss_state)) = demo_storage 0
   \<and> (\<exists>err. fst (uploadFileToOSS demo_oss_env_part_fails demo_file demo_oss_state) = Inl err)
   \<and> oss_storage (snd (uploadFileToOSS demo_oss_env_part_fails demo_file demo_oss_state)) = demo_storage 0"
proof -
  have upt3: "[Suc 0..<4] = [Suc 0, 2, 3]" "[Suc (Suc 0)..<4] = [2, 3]"
    by (simp_all add: upt_rec)
  have sizes: "partSize demo_file (Suc 0) = 1048576" "partSize demo_file 2 = 1048576"
    "partSize demo_file 3 = 902848"
    by (simp_all add: partSize_def part_end_def part_start_def MULTIPART_CHUNK_SIZE_def demo_file_def)
  have key: "getUploadSessionKey demo_file (metaid demo_user) (address demo_user) =
             getUploadSessionKey demo_file ''m'' ''addr''"
    by (simp add: demo_user_def)
  have pre: "oss_userStore (demo_oss_env b) = Some demo_user"
    "oss_storage demo_oss_state (getUploadSessionKey demo_file (metaid demo_user) (address demo_user)) =
       Some (SessionJson (demo_session 0))"
    "now_lookup (demo_oss_env b) - timestamp (demo_session 0) \<le> 7 * 24 * 60 * 60 * 1000" for b
    by (simp_all add: demo_oss_env_def demo_oss_state_def demo_storage_def demo_session_def key)
  have scenario:
    "(\<exists>lp. fetch_listParts (demo_oss_env b) (uploadId (demo_session 0)) (key (demo_session 0)) = JsonBody lp
           \<and> body_code lp = 0
           \<and> body_data lp = Some (map (\<lambda>n. \<lparr>rp_partNumber = n, rp_etag = ''e1''\<rparr>) [1..<Suc 1]))
     \<and> 1 \<le> (1 :: nat)
     \<and> (\<forall>n. 1 < n \<and> n \<le> totalParts_of demo_file \<longrightarrow>
            readAsBase64 (demo_oss_env b) demo_file (part_start n) (part_end demo_file n) = Inr ''QUJD'')
     \<and> (\<forall>n. 1 < n \<and> n \<le> totalParts_of demo_file \<longrightarrow>
            (\<exists>r. fetch_uploadPart (demo_oss_env b) (uploadId (demo_session 0)) (key (demo_session 0)) n ''QUJD''
                   = JsonBody r
                 \<and> body_code r = 0 \<and> body_data r = Some ''new''))" for b
    by (simp add: demo_oss_env_def)
  have ids: "uploadId (demo_session 0) = ''u1''" "key (demo_session 0) = ''k1''"
    by (simp_all add: demo_session_def)
  have st0: "oss_storage demo_oss_state = demo_storage 0" "oss_requests demo_oss_state = []"
    "oss_progress demo_oss_state = []" "file_size demo_file = 3000000"
    by (simp_all add: demo_oss_state_def demo_file_def)
  have fc: "fetch_complete (demo_oss_env b) u k ps =
      (if b then JsonBody \<lparr>body_code = 0, body_message = None, body_data = Some ''k1''\<rparr>
       else HttpError 500)" for b u k ps
    by (simp add: demo_oss_env_def)
  have cleared: "(demo_storage 0)(getUploadSessionKey demo_file ''m'' ''addr'' := None) = Map.empty"
    by (simp add: demo_storage_def)
  note inst = uploadFileToOSS_resume [where st = demo_oss_state
        and fl = demo_file and user = demo_user and session = "demo_session 0" and kk = 1
        and e = "\<lambda>n. ''e1''" and content = "\<lambda>n. ''QUJD''" and e' = "\<lambda>n. ''new''"]
  note ok = inst [where env = "demo_oss_env True", OF pre, THEN conjunct2, THEN conjunct2, THEN mp,
        OF scenario]
  note ko = inst [where env = "demo_oss_env False", OF pre, THEN conjunct2, THEN conjunct2, THEN mp,
        OF scenario]
  have pre': "oss_userStore demo_oss_env_part_fails = Some demo_user"
    "now_lookup demo_oss_env_part_fails - timestamp (demo_session 0) \<le> 7 * 24 * 60 * 60 * 1000"
    by (simp_all add: demo_oss_env_part_fails_def demo_oss_env_def demo_session_def)
  have listed:
    "(\<exists>lp. fetch_listParts demo_oss_env_part_fails (uploadId (demo_session 0)) (key (demo_session 0))
             = JsonBody lp
           \<and> body_code lp = 0
           \<and> body_data lp = Some (map (\<lambda>n. \<lparr>rp_partNumber = n, rp_etag = ''e1''\<rparr>) [1..<Suc 1]))
     \<and> 1 \<le> (1 :: nat)"
    by (simp add: demo_oss_env_part_fails_def demo_oss_env_def)
  have bad:
    "\<exists>j. 1 < j \<and> j \<le> totalParts_of demo_file
       \<and> \<not> (\<exists>c r et. readAsBase64 demo_oss_env_part_fails demo_file (part_start j) (part_end demo_file j)
                       = Inr c
              \<and> fetch_uploadPart demo_oss_env_part_fails (uploadId (demo_session 0))
                    (key (demo_session 0)) j c = JsonBody r
              \<and> body_code r = 0 \<and> body_data r = Some et)"
    by (rule exI[of _ 3]) (simp add: demo_totalParts demo_oss_env_part_fails_def)
  note pf = inst [where env = demo_oss_env_part_fails, OF pre'(1) pre(2) pre'(2), THEN conjunct2,
        THEN conjunct1, THEN mp, OF listed]
  from pf [THEN conjunct2, THEN mp, OF bad]
  obtain err where err: "fst (uploadFileToOSS demo_oss_env_part_fails demo_file demo_oss_state) = Inl err"
    by blast
  from pf [THEN conjunct1, THEN spec, THEN mp, OF err]
  have kept: "oss_storage (snd (uploadFileToOSS demo_oss_env_part_fails demo_file demo_oss_state)) =
              demo_storage 0"
    by (simp add: st0)
  have resumed: "fst (uploadFileToOSS (demo_oss_env True) demo_file demo_oss_state) = Inr ''k1''
   \<and> oss_storage (snd (uploadFileToOSS (demo_oss_env True) demo_file demo_oss_state)) = Map.empty
   \<and> oss_requests (snd (uploadFileToOSS (demo_oss_env True) demo_file demo_oss_state)) =
       [ListParts ''u1'' ''k1'', UploadPart ''u1'' ''k1'' 2 ''QUJD'', UploadPart ''u1'' ''k1'' 3 ''QUJD'',
        Complete ''u1'' ''k1''
          [\<lparr>partNumber = 1, etag = ''e1'', part_size = 1048576\<rparr>,
           \<lparr>partNumber = 2, etag = ''new'', part_size = 1048576\<rparr>,
           \<lparr>partNumber = 3, etag = ''new'', part_size = 902848\<rparr>]]
   \<and> oss_progress (snd (uploadFileToOSS (demo_oss_env True) demo_file demo_oss_state)) =
       [(0, 3, 0, 3000000), (1, 3, 1048576, 3000000), (2, 3, 2097152, 3000000),
        (3, 3, 3000000, 3000000), (3, 3, 3000000, 3000000)]
   \<and> (\<exists>err. fst (uploadFileToOSS (demo_oss_env False) demo_file demo_oss_state) = Inl err)
   \<and> oss_storage (snd (uploadFileToOSS (demo_oss_env False) demo_file demo_oss_state)) = demo_storage 0"
    using ok ko
    by (simp add: demo_totalParts upt3 sizes key ids st0 fc cleared resumed_part_def
          MULTIPART_CHUNK_SIZE_def)
  show ?thesis
    using resumed err kept by blast
qed

end
